(* ===== verification/Go_Prelude.thy ===== *)
theory Go_Prelude
  imports Main "HOL-Library.Word" "HOL-Library.AList" "HOL-Library.Monad_Syntax"
begin

text \<open>
  The prelude of the development: the fragment of Go that machinecfg is written in.

  \<^item> Machine integers: \<open>int32\<close> and \<open>int64\<close> are words; Go's conversions between them are
    \<open>ucast\<close> (truncation) and \<open>scast\<close> (sign extension).
  \<^item> Errors: a Go \<open>error\<close> is its message and the API status reason that
    \<open>errors.IsNotFound\<close> and \<open>errors.IsAlreadyExists\<close> look for; \<open>fmt.Errorf\<close> with \<open>%w\<close>
    keeps the reason and prefixes the message.
  \<^item> Effects: a function that talks to NetBox or Kubernetes takes the state of the world and
    returns its result and the next state. \<open>None\<close> is a Go panic (a nil dereference or an
    index out of range). A remote call itself never panics: it returns an error or a value.
  \<^item> Strings are byte strings. \<open>ToLower\<close> and the white space of \<open>TrimSpace\<close> and \<open>Fields\<close>
    are those of ASCII; bytes of other UTF-8 characters are left as they are.
\<close>

named_theorems go_string \<open>facts about the string functions of Go's standard library\<close>
named_theorems go_result \<open>unfolding facts of results, pages and panics\<close>
named_theorems within_rules \<open>rules of the step-relation calculus of effectful functions\<close>

section \<open>Machine integers, errors and effects\<close>

type_synonym int32 = "32 word"
type_synonym int64 = "64 word"
type_synonym uint16 = "16 word"

datatype status_reason = StatusReasonNotFound | StatusReasonAlreadyExists | StatusReasonUnknown

datatype go_error = GoError (reason: status_reason) (error_message: string)

definition IsNotFound :: "go_error \<Rightarrow> bool" where
  "IsNotFound e \<longleftrightarrow> reason e = StatusReasonNotFound"

definition IsAlreadyExists :: "go_error \<Rightarrow> bool" where
  "IsAlreadyExists e \<longleftrightarrow> reason e = StatusReasonAlreadyExists"

text \<open>\<open>fmt.Errorf("...")\<close> without and with a wrapped error at its end.\<close>

definition Errorf :: "string \<Rightarrow> go_error" where
  "Errorf msg = GoError StatusReasonUnknown msg"

definition Wrapf :: "string \<Rightarrow> go_error \<Rightarrow> go_error" where
  "Wrapf msg e = GoError (reason e) (msg @ error_message e)"

type_synonym 'a result = "go_error + 'a"
type_synonym ('w, 'a) call = "'w \<Rightarrow> 'a result \<times> 'w"
type_synonym ('w, 'a) go = "'w \<Rightarrow> ('a \<times> 'w) option"

lemma IsNotFound_simps [simp]:
  "IsNotFound (GoError r m) \<longleftrightarrow> r = StatusReasonNotFound"
  "IsNotFound (Errorf msg) \<longleftrightarrow> False"
  "IsNotFound (Wrapf msg e) \<longleftrightarrow> IsNotFound e"
  by (simp_all add: IsNotFound_def Errorf_def Wrapf_def)

lemma IsAlreadyExists_simps [simp]:
  "IsAlreadyExists (GoError r m) \<longleftrightarrow> r = StatusReasonAlreadyExists"
  "IsAlreadyExists (Errorf msg) \<longleftrightarrow> False"
  "IsAlreadyExists (Wrapf msg e) \<longleftrightarrow> IsAlreadyExists e"
  by (simp_all add: IsAlreadyExists_def Errorf_def Wrapf_def)

lemma error_message_simps [simp]:
  "error_message (Errorf msg) = msg"
  "error_message (Wrapf msg e) = msg @ error_message e"
  by (simp_all add: Errorf_def Wrapf_def)

text \<open>The two outcomes of a remote call.\<close>

lemma call_cases:
  fixes c :: "'a result \<times> 'w"
  obtains (err) e w where "c = (Inl e, w)" | (ok) x w where "c = (Inr x, w)"
  by (cases c; cases "fst c") auto

text \<open>Where text is written: standard output or a file, by its path.\<close>

datatype sink = Stdout | File string

text \<open>\<open>xs[0]\<close>: an index out of range panics.\<close>

definition index0 :: "'a list \<Rightarrow> 'a option" where
  "index0 xs = (case xs of [] \<Rightarrow> None | x # _ \<Rightarrow> Some x)"

lemma index0_simps [simp]:
  "index0 [] = None"
  "index0 (x # xs) = Some x"
  by (simp_all add: index0_def)

lemma index0_eq_Some [go_result]: "index0 xs = Some x \<longleftrightarrow> (\<exists>ys. xs = x # ys)"
  by (cases xs) auto

lemma index0_in_set: "index0 xs = Some x \<Longrightarrow> x \<in> set xs"
  by (auto simp: index0_eq_Some)

text \<open>A sequence that does not panic: its first part does not, and the rest goes on from there.\<close>

lemma bind_SomeE:
  assumes "Option.bind m f = Some y"
  obtains x where "m = Some x" and "f x = Some y"
  using assms by (auto simp: Option.bind_eq_Some_conv)

lemma list_all2_in_set1: "list_all2 P xs ys \<Longrightarrow> x \<in> set xs \<Longrightarrow> \<exists>y \<in> set ys. P x y"
  by (induction xs ys rule: list_all2_induct) auto

lemma list_all2_in_set2: "list_all2 P xs ys \<Longrightarrow> y \<in> set ys \<Longrightarrow> \<exists>x \<in> set xs. P x y"
  by (induction xs ys rule: list_all2_induct) auto

section \<open>Step relations of effectful functions\<close>

text \<open>
  \<open>within R f\<close>: whatever \<open>f\<close> does to the world is a step of \<open>R\<close>. With \<open>R\<close> reflexive and
  transitive it composes along the code, and expresses frames (\<open>R\<close> an equality of views),
  monotonicity (\<open>R\<close> an order of views) and invariants.
\<close>

definition within :: "('w \<Rightarrow> 'w \<Rightarrow> bool) \<Rightarrow> ('w, 'a) go \<Rightarrow> bool" where
  "within R f \<longleftrightarrow> (\<forall>w r w'. f w = Some (r, w') \<longrightarrow> R w w')"

lemma withinI: "(\<And>w r w'. f w = Some (r, w') \<Longrightarrow> R w w') \<Longrightarrow> within R f"
  by (auto simp: within_def)

lemma withinD: "within R f \<Longrightarrow> f w = Some (r, w') \<Longrightarrow> R w w'"
  by (auto simp: within_def)

lemma within_mono: "within R f \<Longrightarrow> (\<And>w w'. R w w' \<Longrightarrow> S w w') \<Longrightarrow> within S f"
  by (auto simp: within_def)

lemma within_seq:
  assumes "transp R" and "within R f" and "\<And>x. within R (g x)"
  shows "within R (\<lambda>w. Option.bind (f w) (\<lambda>(x, w'). g x w'))"
proof (rule withinI)
  fix w r w'
  assume "Option.bind (f w) (\<lambda>(x, w'). g x w') = Some (r, w')"
  then obtain x v where "f w = Some (x, v)" and "g x v = Some (r, w')"
    by (auto simp: Option.bind_eq_Some_conv)
  with assms(2,3) have "R w v" and "R v w'" by (auto dest: withinD)
  with assms(1) show "R w w'" by (rule transpD)
qed

section \<open>Strings\<close>

subsection \<open>Split, SplitN and Join\<close>

text \<open>\<open>strings.Split(s, sep)\<close> for a separator of one byte: never an empty list.\<close>

fun Split :: "string \<Rightarrow> char \<Rightarrow> string list" where
  "Split [] sep = [[]]"
| "Split (c # cs) sep =
     (if c = sep then [] # Split cs sep
      else case Split cs sep of
             [] \<Rightarrow> [[c]]
           | p # ps \<Rightarrow> (c # p) # ps)"

text \<open>\<open>strings.SplitN(s, sep, 2)\<close>.\<close>

definition SplitN2 :: "string \<Rightarrow> char \<Rightarrow> string list" where
  "SplitN2 s sep =
     (case dropWhile (\<lambda>c. c \<noteq> sep) s of
        [] \<Rightarrow> [s]
      | _ # rest \<Rightarrow> [takeWhile (\<lambda>c. c \<noteq> sep) s, rest])"

fun Join :: "string list \<Rightarrow> string \<Rightarrow> string" where
  "Join [] sep = []"
| "Join [p] sep = p"
| "Join (p # q # ps) sep = p @ sep @ Join (q # ps) sep"

definition nl :: string where
  "nl = [CHR 0x0A]"

text \<open>\<open>errors.Join\<close>: nil when there is no error.\<close>

definition errors_Join :: "go_error list \<Rightarrow> go_error option" where
  "errors_Join errs =
     (if errs = [] then None else Some (Errorf (Join (map error_message errs) nl)))"

lemma errors_Join_None [simp]: "errors_Join errs = None \<longleftrightarrow> errs = []"
  by (simp add: errors_Join_def)

lemma Split_not_Nil [simp]: "Split s sep \<noteq> []"
  by (induction s) (auto split: list.splits)

lemma hd_Split [go_string]: "hd (Split s sep) = takeWhile (\<lambda>c. c \<noteq> sep) s"
  by (induction s) (auto split: list.splits)

lemma index0_Split [simp]: "index0 (Split s sep) = Some (takeWhile (\<lambda>c. c \<noteq> sep) s)"
  using hd_Split [of s sep] by (cases "Split s sep") auto

lemma index0_SplitN2 [simp]: "index0 (SplitN2 s sep) = Some (takeWhile (\<lambda>c. c \<noteq> sep) s)"
proof (cases "dropWhile (\<lambda>c. c \<noteq> sep) s")
  case Nil
  then have "s = takeWhile (\<lambda>c. c \<noteq> sep) s"
    using takeWhile_dropWhile_id [of "\<lambda>c. c \<noteq> sep" s] by (simp only: append_Nil2)
  with Nil show ?thesis by (simp only: SplitN2_def list.case index0_simps)
next
  case (Cons x xs)
  then show ?thesis by (simp add: SplitN2_def)
qed

lemma takeWhile_sep [go_string]:
  "sep \<notin> set p \<Longrightarrow> takeWhile (\<lambda>c. c \<noteq> sep) (p @ sep # s) = p"
  by (induction p) auto

lemma Split_no_sep: "p \<in> set (Split s sep) \<Longrightarrow> sep \<notin> set p"
proof (induction s arbitrary: p)
  case Nil
  then show ?case by simp
next
  case (Cons c cs)
  then show ?case
    by (cases "Split cs sep") (auto split: if_splits)
qed

lemma Split_without_sep: "sep \<notin> set s \<Longrightarrow> Split s sep = [s]"
  by (induction s) auto

lemma Split_append_sep:
  "sep \<notin> set p \<Longrightarrow> Split (p @ sep # s) sep = p # Split s sep"
  by (induction p) auto

lemma Split_Join [go_string]:
  "ps \<noteq> [] \<Longrightarrow> \<forall>p \<in> set ps. sep \<notin> set p \<Longrightarrow> Split (Join ps [sep]) sep = ps"
  by (induction ps "[sep]" rule: Join.induct) (auto simp: Split_without_sep Split_append_sep)

lemma Join_Split [go_string]: "Join (Split s sep) [sep] = s"
proof (induction s)
  case Nil
  then show ?case by simp
next
  case (Cons c cs)
  obtain p ps where "Split cs sep = p # ps"
    by (cases "Split cs sep") auto
  with Cons show ?case by (cases ps) auto
qed

subsection \<open>White space, case and prefixes\<close>

definition is_space :: "char \<Rightarrow> bool" where
  "is_space c \<longleftrightarrow> c \<in> {CHR 0x09, CHR 0x0A, CHR 0x0B, CHR 0x0C, CHR 0x0D, CHR '' ''}"

definition TrimSpace :: "string \<Rightarrow> string" where
  "TrimSpace s = rev (dropWhile is_space (rev (dropWhile is_space s)))"

text \<open>\<open>strings.TrimRight(s, cutset)\<close> for a cutset of one byte.\<close>

definition TrimRight :: "string \<Rightarrow> char \<Rightarrow> string" where
  "TrimRight s c = rev (dropWhile (\<lambda>x. x = c) (rev s))"

text \<open>\<open>strings.Fields\<close>: the runs of bytes that are not white space.\<close>

fun fields_from :: "string \<Rightarrow> string \<Rightarrow> string list" where
  "fields_from acc [] = (if acc = [] then [] else [rev acc])"
| "fields_from acc (c # cs) =
     (if is_space c then (if acc = [] then fields_from [] cs else rev acc # fields_from [] cs)
      else fields_from (c # acc) cs)"

definition Fields :: "string \<Rightarrow> string list" where
  "Fields s = fields_from [] s"

definition to_lower :: "char \<Rightarrow> char" where
  "to_lower c =
     (let n = of_char c :: nat in if 65 \<le> n \<and> n \<le> 90 then char_of (n + 32) else c)"

definition ToLower :: "string \<Rightarrow> string" where
  "ToLower s = map to_lower s"

fun HasPrefix :: "string \<Rightarrow> string \<Rightarrow> bool" where
  "HasPrefix s [] = True"
| "HasPrefix [] (p # ps) = False"
| "HasPrefix (c # cs) (p # ps) = (c = p \<and> HasPrefix cs ps)"

lemma HasPrefix_iff [go_string]: "HasPrefix s p \<longleftrightarrow> (\<exists>t. s = p @ t)"
  by (induction s p rule: HasPrefix.induct) auto

lemma dropWhile_last: "dropWhile P xs \<noteq> [] \<Longrightarrow> last (dropWhile P xs) = last xs"
  by (induction xs) (auto split: if_splits)

lemma TrimSpace_hd: "TrimSpace s \<noteq> [] \<Longrightarrow> \<not> is_space (hd (TrimSpace s))"
proof -
  let ?t = "dropWhile is_space s"
  assume ne: "TrimSpace s \<noteq> []"
  have "?t \<noteq> []"
  proof
    assume "?t = []"
    then have "TrimSpace s = []"
      by (simp only: TrimSpace_def rev.simps dropWhile.simps)
    with ne show False ..
  qed
  then have "\<not> is_space (hd ?t)" by (rule hd_dropWhile)
  moreover have "hd (TrimSpace s) = hd ?t"
  proof -
    from ne have "dropWhile is_space (rev ?t) \<noteq> []"
      by (simp only: TrimSpace_def rev_is_Nil_conv not_False_eq_True)
    then have "last (dropWhile is_space (rev ?t)) = last (rev ?t)"
      by (rule dropWhile_last)
    then show ?thesis by (simp only: TrimSpace_def hd_rev last_rev)
  qed
  ultimately show ?thesis by simp
qed

lemma TrimSpace_last: "TrimSpace s \<noteq> [] \<Longrightarrow> \<not> is_space (last (TrimSpace s))"
  by (simp only: TrimSpace_def last_rev rev_is_Nil_conv) (rule hd_dropWhile)

lemma TrimSpace_id:
  assumes "s \<noteq> [] \<Longrightarrow> \<not> is_space (hd s) \<and> \<not> is_space (last s)"
  shows "TrimSpace s = s"
proof (cases s)
  case Nil
  then show ?thesis by (simp add: TrimSpace_def)
next
  case (Cons a as)
  then have "s \<noteq> []" by simp
  with assms have "\<not> is_space (hd s)" and "\<not> is_space (hd (rev s))"
    by (simp_all add: hd_rev)
  then have "dropWhile is_space s = s" and "dropWhile is_space (rev s) = rev s"
    by (simp_all only: dropWhile_eq_self_iff simp_thms)
  then show ?thesis by (simp add: TrimSpace_def)
qed

lemma TrimSpace_idem [simp]: "TrimSpace (TrimSpace s) = TrimSpace s"
  by (rule TrimSpace_id) (auto dest: TrimSpace_hd TrimSpace_last)

lemma set_TrimSpace: "set (TrimSpace s) \<subseteq> set s"
  by (auto simp: TrimSpace_def dest!: set_dropWhileD)

lemma to_lower_idem [simp]: "to_lower (to_lower c) = to_lower c"
  by (simp add: to_lower_def Let_def)

lemma ToLower_idem [simp]: "ToLower (ToLower s) = ToLower s"
  by (simp add: ToLower_def)

lemma ToLower_Nil [simp]: "ToLower s = [] \<longleftrightarrow> s = []"
  by (simp add: ToLower_def)

text \<open>Lower-casing touches letters only, so it commutes with trimming and splitting.\<close>

lemma of_char_char_of_upper:
  "(of_char c :: nat) \<le> 90 \<Longrightarrow> of_char (char_of (of_char c + 32 :: nat)) = (of_char c + 32 :: nat)"
  by simp

lemma to_lower_cases:
  obtains "to_lower c = c"
  | "65 \<le> (of_char c :: nat)" "(of_char c :: nat) \<le> 90" "of_char (to_lower c) = (of_char c + 32 :: nat)"
  by (cases "65 \<le> (of_char c :: nat) \<and> (of_char c :: nat) \<le> 90")
    (auto simp: to_lower_def Let_def)

lemma is_space_code: "is_space c \<longleftrightarrow> (of_char c :: nat) \<in> {9, 10, 11, 12, 13, 32}"
proof -
  have eq: "c = d \<longleftrightarrow> (of_char c :: nat) = of_char d" for d by simp
  show ?thesis unfolding is_space_def insert_iff empty_iff eq [of "CHR 0x09"]
      eq [of "CHR 0x0A"] eq [of "CHR 0x0B"] eq [of "CHR 0x0C"] eq [of "CHR 0x0D"] eq [of "CHR '' ''"]
    by simp
qed

lemma is_space_to_lower [simp]: "is_space (to_lower c) \<longleftrightarrow> is_space c"
  by (cases c rule: to_lower_cases) (auto simp: is_space_code)

lemma to_lower_eq_sep:
  assumes "(of_char d :: nat) < 65"
  shows "to_lower c = d \<longleftrightarrow> c = d"
proof (cases c rule: to_lower_cases)
  case 1
  then show ?thesis by simp
next
  case 2
  from 2(1,3) assms have "(of_char (to_lower c) :: nat) \<noteq> of_char d" by simp
  then have "to_lower c \<noteq> d" by blast
  moreover from 2(1) assms have "c \<noteq> d" by auto
  ultimately show ?thesis by simp
qed

lemma ToLower_TrimSpace: "ToLower (TrimSpace s) = TrimSpace (ToLower s)"
proof -
  have drop: "dropWhile is_space (map to_lower xs) = map to_lower (dropWhile is_space xs)" for xs
    by (simp add: dropWhile_map o_def)
  show ?thesis
    by (simp only: ToLower_def TrimSpace_def drop rev_map)
qed

lemma fields_from_prop:
  "\<forall>c \<in> set acc. \<not> is_space c \<Longrightarrow>
   f \<in> set (fields_from acc s) \<Longrightarrow> f \<noteq> [] \<and> (\<forall>c \<in> set f. \<not> is_space c)"
proof (induction acc s arbitrary: f rule: fields_from.induct)
  case (1 acc)
  then show ?case by (auto split: if_splits)
next
  case (2 acc c cs)
  show ?case
  proof (cases "is_space c")
    case True
    show ?thesis
    proof (cases "acc = []")
      case acc: True
      with True "2.prems"(2) have "f \<in> set (fields_from [] cs)" by simp
      with True acc show ?thesis by (intro "2.IH"(1)) simp_all
    next
      case acc: False
      with True "2.prems"(2) consider "f = rev acc" | "f \<in> set (fields_from [] cs)" by auto
      then show ?thesis
      proof cases
        case 1
        with acc "2.prems"(1) show ?thesis by simp
      next
        case 2
        with True acc show ?thesis by (intro "2.IH"(2)) simp_all
      qed
    qed
  next
    case False
    then show ?thesis using "2.prems" "2.IH"(3) [of f] by simp
  qed
qed

lemma Fields_prop [go_string]:
  "f \<in> set (Fields s) \<Longrightarrow> f \<noteq> [] \<and> (\<forall>c \<in> set f. \<not> is_space c)"
  unfolding Fields_def by (rule fields_from_prop [of "[]"]) auto

end
