(* ===== verification/Go_Strconv.thy ===== *)
theory Go_Strconv
  imports Go_Prelude
begin

text \<open>
  The decimal conversions of Go's \<open>strconv\<close>: \<open>Itoa\<close> (also the \<open>%d\<close> and \<open>%v\<close> of
  \<open>fmt\<close> on integers) and \<open>ParseInt(s, 10, 32)\<close>. A NetBox device identifier travels
  through Kubernetes as the decimal text of a label, so the round trip of the two is what
  links the objects of the two systems.
\<close>

section \<open>Digits\<close>

definition is_digit :: "char \<Rightarrow> bool" where
  "is_digit c \<longleftrightarrow> 48 \<le> (of_char c :: nat) \<and> (of_char c :: nat) \<le> 57"

definition digit_val :: "char \<Rightarrow> nat" where
  "digit_val c = of_char c - 48"

definition digit_char :: "nat \<Rightarrow> char" where
  "digit_char d = char_of (d + 48)"

lemma digit_val_char [simp]: "d < 10 \<Longrightarrow> digit_val (digit_char d) = d"
  by (simp add: digit_val_def digit_char_def)

lemma is_digit_char [simp]: "d < 10 \<Longrightarrow> is_digit (digit_char d)"
  by (simp add: is_digit_def digit_char_def)

text \<open>The value of a digit string, most significant digit first.\<close>

definition digits_val :: "string \<Rightarrow> nat" where
  "digits_val s = foldl (\<lambda>n c. 10 * n + digit_val c) 0 s"

lemma digits_val_snoc [simp]: "digits_val (s @ [c]) = 10 * digits_val s + digit_val c"
  by (simp add: digits_val_def)

lemma digits_val_Nil [simp]: "digits_val [] = 0"
  by (simp add: digits_val_def)

section \<open>Printing\<close>

fun Utoa :: "nat \<Rightarrow> string" where
  "Utoa n = (if n < 10 then [digit_char n] else Utoa (n div 10) @ [digit_char (n mod 10)])"

declare Utoa.simps [simp del]

definition Itoa :: "int \<Rightarrow> string" where
  "Itoa i = (if i < 0 then CHR ''-'' # Utoa (nat (- i)) else Utoa (nat i))"

text \<open>\<open>strconv.Itoa(int(x))\<close> and \<open>%d\<close> of an \<open>int32\<close>: the signed value of the word.\<close>

definition Itoa32 :: "int32 \<Rightarrow> string" where
  "Itoa32 x = Itoa (sint x)"

lemma Utoa_not_Nil [simp]: "Utoa n \<noteq> []"
  by (subst Utoa.simps) simp

lemma Utoa_digits: "\<forall>c \<in> set (Utoa n). is_digit c"
proof (induction n rule: Utoa.induct)
  case (1 n)
  then show ?case by (subst Utoa.simps) auto
qed

lemma digits_val_Utoa [simp]: "digits_val (Utoa n) = n"
proof (induction n rule: Utoa.induct)
  case (1 n)
  show ?case
  proof (cases "n < 10")
    case True
    then have "Utoa n = [] @ [digit_char n]" by (subst Utoa.simps) simp
    with True show ?thesis by (simp only: digits_val_snoc) simp
  next
    case False
    with 1 have "digits_val (Utoa (n div 10)) = n div 10" by simp
    moreover from False have "Utoa n = Utoa (n div 10) @ [digit_char (n mod 10)]"
      by (subst Utoa.simps) simp
    ultimately show ?thesis by simp
  qed
qed

lemma Utoa_inject [simp]: "Utoa m = Utoa n \<longleftrightarrow> m = n"
  by (metis digits_val_Utoa)

lemma hd_Utoa: "is_digit (hd (Utoa n))"
  using Utoa_digits [of n] by (simp add: list.set_sel)

lemma Itoa_not_Nil [simp]: "Itoa i \<noteq> []"
  by (simp add: Itoa_def)

section \<open>Parsing\<close>

text \<open>
  \<open>strconv.ParseInt(s, 10, 32)\<close>: an optional sign, at least one decimal digit and nothing
  else, and a value of the 32-bit range. Everything else is an error.
\<close>

definition int32_range :: "int \<Rightarrow> bool" where
  "int32_range i \<longleftrightarrow> - (2 ^ 31) \<le> i \<and> i < 2 ^ 31"

definition ParseUint :: "string \<Rightarrow> nat option" where
  "ParseUint s = (if s \<noteq> [] \<and> list_all is_digit s then Some (digits_val s) else None)"

definition ParseInt32 :: "string \<Rightarrow> int option" where
  "ParseInt32 s =
     (let signed = s \<noteq> [] \<and> (hd s = CHR ''-'' \<or> hd s = CHR ''+'');
          neg = signed \<and> hd s = CHR ''-'';
          body = (if signed then tl s else s)
      in case ParseUint body of
           None \<Rightarrow> None
         | Some n \<Rightarrow>
             (let i = (if neg then - int n else int n)
              in if int32_range i then Some i else None))"

lemma ParseUint_Utoa [simp]: "ParseUint (Utoa n) = Some n"
  using Utoa_digits [of n] by (simp add: ParseUint_def list_all_iff)

lemma not_is_digit_sign: "\<not> is_digit (CHR ''-'')" "\<not> is_digit (CHR ''+'')"
  by (simp_all add: is_digit_def)

lemma ParseInt32_Itoa: "int32_range i \<Longrightarrow> ParseInt32 (Itoa i) = Some i"
proof (cases "i < 0")
  case True
  moreover assume "int32_range i"
  ultimately show ?thesis by (simp add: ParseInt32_def Itoa_def)
next
  case False
  assume r: "int32_range i"
  have "hd (Utoa (nat i)) \<noteq> CHR ''-''" and "hd (Utoa (nat i)) \<noteq> CHR ''+''"
    using hd_Utoa [of "nat i"] not_is_digit_sign by metis+
  with False r show ?thesis by (simp add: ParseInt32_def Itoa_def)
qed

lemma int32_range_sint [simp]: "int32_range (sint (x :: int32))"
  using sint_lt [of x] sint_ge [of x] by (simp add: int32_range_def)

lemma ParseInt32_Itoa32 [simp]: "ParseInt32 (Itoa32 x) = Some (sint x)"
  by (simp add: Itoa32_def ParseInt32_Itoa)

lemma Itoa32_not_Nil [simp]: "Itoa32 x \<noteq> []"
  by (simp add: Itoa32_def)

lemma Itoa32_inject [simp]: "Itoa32 x = Itoa32 y \<longleftrightarrow> x = y"
proof
  assume "Itoa32 x = Itoa32 y"
  then have "ParseInt32 (Itoa32 x) = ParseInt32 (Itoa32 y)" by simp
  then have "sint x = sint y" by simp
  then show "x = y" by (simp only: signed_word_eqI)
qed simp

lemma ParseInt32_range: "ParseInt32 s = Some i \<Longrightarrow> int32_range i"
  by (auto simp: ParseInt32_def Let_def split: option.splits if_splits)

lemma ParseInt32_Nil [simp]: "ParseInt32 [] = None"
  by (simp add: ParseInt32_def ParseUint_def)

text \<open>Within its range the conversion \<open>int32(x)\<close> of a parsed value loses nothing.\<close>

lemma sint_word_of_int32: "int32_range i \<Longrightarrow> sint (word_of_int i :: int32) = i"
  by (simp add: int32_range_def signed_take_bit_int_eq_self_iff sint_sbintrunc')

section \<open>Quoting\<close>

text \<open>
  The verb \<open>%q\<close>: the text in double quotes, with Go's escapes. Bytes of other UTF-8
  characters are left as they are.
\<close>

definition hex_digit :: "nat \<Rightarrow> char" where
  "hex_digit d = (if d < 10 then char_of (d + 48) else char_of (d + 87))"

definition quote_char :: "char \<Rightarrow> string" where
  "quote_char c =
     (let n = of_char c :: nat; bs = CHR 0x5C in
      if c = CHR 0x22 \<or> c = bs then [bs, c]
      else if n = 7 then [bs, CHR ''a'']
      else if n = 8 then [bs, CHR ''b'']
      else if n = 12 then [bs, CHR ''f'']
      else if n = 10 then [bs, CHR ''n'']
      else if n = 13 then [bs, CHR ''r'']
      else if n = 9 then [bs, CHR ''t'']
      else if n = 11 then [bs, CHR ''v'']
      else if n < 32 \<or> n = 127 then [bs, CHR ''x'', hex_digit (n div 16), hex_digit (n mod 16)]
      else [c])"

definition Quote :: "string \<Rightarrow> string" where
  "Quote s = [CHR 0x22] @ concat (map quote_char s) @ [CHR 0x22]"

text \<open>The error of \<open>ParseInt(s, 10, 32)\<close>: a bad syntax or a value out of range.\<close>

definition is_decimal :: "string \<Rightarrow> bool" where
  "is_decimal s \<longleftrightarrow>
     (let body = (if s \<noteq> [] \<and> (hd s = CHR ''-'' \<or> hd s = CHR ''+'') then tl s else s)
      in body \<noteq> [] \<and> list_all is_digit body)"

definition ParseInt_error :: "string \<Rightarrow> go_error" where
  "ParseInt_error s = Errorf (''strconv.ParseInt: parsing '' @ Quote s @ '': '' @
     (if is_decimal s then ''value out of range'' else ''invalid syntax''))"

end
