(* ===== verification/NetBox_API.thy ===== *)
theory NetBox_API
  imports Go_Strconv
begin

text \<open>
  The interface of the NetBox client (the package \<open>go-netbox\<close>, not part of the repository): the
  fields of its objects that machinecfg reads, the requests machinecfg builds, and the client
  itself as a record of remote calls on an arbitrary state of the world. Nothing is assumed
  here about what a call answers; the documented behaviour that some theorems rely on is
  stated in \<open>NetBox_Laws\<close>.
\<close>

section \<open>Objects\<close>

text \<open>
  The nullable fields of the client: absent from the response, present and null, or a value.
  \<open>Get()\<close> is nil in the first two cases.
\<close>

datatype 'a nullable = Unset | Null | Value 'a

definition IsSet :: "'a nullable \<Rightarrow> bool" where
  "IsSet x \<longleftrightarrow> x \<noteq> Unset"

definition Get :: "'a nullable \<Rightarrow> 'a option" where
  "Get x = (case x of Value v \<Rightarrow> Some v | _ \<Rightarrow> None)"

lemma nullable_simps [simp]:
  "Get Unset = None" "Get Null = None" "Get (Value v) = Some v"
  "\<not> IsSet Unset" "IsSet Null" "IsSet (Value v)"
  by (simp_all add: Get_def IsSet_def)

lemma Get_eq_Some [simp]: "Get x = Some v \<longleftrightarrow> x = Value v"
  by (cases x) auto

text \<open>A list response: the number of matches and the page of them that was returned.\<close>

record 'a page =
  Count :: int
  Results :: "'a list"

record brief =
  br_Name :: string
  br_Slug :: string

record brief_ip =
  bip_Id :: int32
  bip_Address :: string
  bip_Display :: string

record device =
  dev_Id :: int32
  dev_Name :: "string nullable"
  dev_Serial :: "string option"
  dev_DeviceTypeSlug :: string
  dev_Manufacturer :: string
  dev_Role :: string
  dev_Site :: string
  dev_Location :: "brief nullable"
  dev_Rack :: "brief nullable"
  dev_Tenant :: "brief nullable"
  dev_Platform :: "brief nullable"
  dev_Cluster :: "brief nullable"
  dev_PrimaryIp :: "brief_ip nullable"
  dev_PrimaryIp4 :: "brief_ip nullable"
  dev_StatusValue :: string
  dev_StatusLabel :: string

record vlan =
  vl_Vid :: int32
  vl_Name :: string

record interface =
  if_Id :: int32
  if_Name :: string
  if_MacAddress :: "string nullable"
  if_PrimaryMac :: string
  if_MacAddresses :: "string list"
  if_TaggedVlans :: "vlan list"
  if_Tags :: "string list"

record ip_address =
  ip_Id :: int32
  ip_Address :: string
  ip_Display :: string
  ip_DnsName :: "string option"
  ip_StatusValue :: string
  ip_Tags :: "string list"
  ip_AssignedObjectType :: "string nullable"
  ip_AssignedObjectId :: "int64 nullable"

text \<open>
  The value of a custom field. A string is printed as it is; of any other value the model
  keeps the two texts that \<open>fmt\<close> makes of it, with \<open>Sprint\<close> and with the verb \<open>%s\<close>.
\<close>

datatype custom_value = CFString string | CFOther (sprint_text: string) (verb_s_text: string)

definition fmt_Sprint :: "custom_value \<Rightarrow> string" where
  "fmt_Sprint v = (case v of CFString s \<Rightarrow> s | CFOther p _ \<Rightarrow> p)"

definition fmt_verb_s :: "custom_value \<Rightarrow> string" where
  "fmt_verb_s v = (case v of CFString s \<Rightarrow> s | CFOther _ q \<Rightarrow> q)"

text \<open>In \<open>pfx_CustomFields\<close> an absent field and a null one are both \<open>None\<close>.\<close>

record ipam_prefix =
  pfx_Id :: int32
  pfx_Display :: string
  pfx_Vlan :: "vlan nullable"
  pfx_CustomFields :: "(string \<times> custom_value) list"

record nb_cluster =
  cl_Id :: int32
  cl_Name :: string
  cl_TypeSlug :: string
  cl_Status :: "string option"

record virtual_machine =
  vm_Name :: string
  vm_PrimaryIp :: "brief_ip nullable"
  vm_PrimaryIp4 :: "brief_ip nullable"

record fhrp_group =
  fg_Id :: int32
  fg_Name :: string
  fg_GroupId :: int32

record service_template =
  st_Id :: int32
  st_Name :: string
  st_Ports :: "int32 list"

record ipam_service =
  sv_Id :: int32
  sv_Name :: string
  sv_Description :: string
  sv_ParentObjectId :: int64
  sv_Ports :: "int32 list"

record inventory_item =
  inv_Id :: int32
  inv_Name :: string

text \<open>The getters of the client are nil-safe: a null object reads as its zero value.\<close>

definition GetName :: "brief nullable \<Rightarrow> string" where
  "GetName x = (case Get x of None \<Rightarrow> [] | Some b \<Rightarrow> br_Name b)"

definition DeviceGetName :: "device \<Rightarrow> string" where
  "DeviceGetName d = (case Get (dev_Name d) of None \<Rightarrow> [] | Some n \<Rightarrow> n)"

definition GetAddress :: "brief_ip nullable \<Rightarrow> string" where
  "GetAddress x = (case Get x of None \<Rightarrow> [] | Some b \<Rightarrow> bip_Address b)"

definition GetDnsName :: "ip_address \<Rightarrow> string" where
  "GetDnsName a = (case ip_DnsName a of None \<Rightarrow> [] | Some n \<Rightarrow> n)"

section \<open>Requests\<close>

text \<open>A filter that was not set is \<open>None\<close>; the constants are the requests with no filter.\<close>

record device_query =
  dq_HasPrimaryIp :: "bool option"
  dq_Status :: "string list option"
  dq_Site :: "string list option"
  dq_Role :: "string list option"
  dq_Region :: "string list option"
  dq_Location :: "string list option"
  dq_Tenant :: "string list option"
  dq_RackId :: "int32 list option"
  dq_ClusterId :: "int32 list option"
  dq_Id :: "int32 list option"
  dq_Name :: "string list option"

definition DcimDevices :: device_query where
  "DcimDevices = \<lparr>dq_HasPrimaryIp = None, dq_Status = None, dq_Site = None, dq_Role = None,
     dq_Region = None, dq_Location = None, dq_Tenant = None, dq_RackId = None,
     dq_ClusterId = None, dq_Id = None, dq_Name = None\<rparr>"

record cluster_query =
  cq_Type :: "string list option"
  cq_Name :: "string list option"

definition VirtualizationClusters :: cluster_query where
  "VirtualizationClusters = \<lparr>cq_Type = None, cq_Name = None\<rparr>"

record vm_query =
  vq_ClusterId :: "int32 list option"
  vq_Role :: "string list option"

definition VirtualMachines :: vm_query where
  "VirtualMachines = \<lparr>vq_ClusterId = None, vq_Role = None\<rparr>"

record interface_query =
  iq_DeviceId :: "int32 list option"
  iq_Name :: "string list option"

definition DcimInterfaces :: interface_query where
  "DcimInterfaces = \<lparr>iq_DeviceId = None, iq_Name = None\<rparr>"

record inventory_query =
  nq_DeviceId :: "int32 list option"
  nq_Role :: "string list option"

definition DcimInventoryItems :: inventory_query where
  "DcimInventoryItems = \<lparr>nq_DeviceId = None, nq_Role = None\<rparr>"

record ip_query =
  aq_Q :: "string option"
  aq_Id :: "int32 list option"
  aq_InterfaceId :: "int32 list option"
  aq_Parent :: "string list option"
  aq_Tag :: "string list option"
  aq_Address :: "string list option"

definition IpAddresses :: ip_query where
  "IpAddresses = \<lparr>aq_Q = None, aq_Id = None, aq_InterfaceId = None, aq_Parent = None,
     aq_Tag = None, aq_Address = None\<rparr>"

record prefix_query =
  pq_Contains :: "string option"
  pq_Ordering :: "string option"
  pq_Limit :: "int32 option"
  pq_Prefix :: "string list option"

definition Prefixes :: prefix_query where
  "Prefixes = \<lparr>pq_Contains = None, pq_Ordering = None, pq_Limit = None, pq_Prefix = None\<rparr>"

record fhrp_query =
  fq_Name :: "string list option"
  fq_Ordering :: "string option"
  fq_Limit :: "int32 option"

definition FhrpGroups :: fhrp_query where
  "FhrpGroups = \<lparr>fq_Name = None, fq_Ordering = None, fq_Limit = None\<rparr>"

text \<open>The bodies of the writing requests; \<open>None\<close> is a field that was not set.\<close>

record fhrp_request =
  fr_Protocol :: string
  fr_GroupId :: int32
  fr_Name :: string

record template_request =
  tr_Name :: string
  tr_Protocol :: string
  tr_Ports :: "int32 list"

record service_request =
  sr_ParentObjectType :: string
  sr_ParentObjectId :: int64
  sr_Name :: string
  sr_Protocol :: string
  sr_Ports :: "int32 list"
  sr_Description :: string

record ip_request =
  ar_Address :: string
  ar_Status :: "string option"
  ar_AssignedObjectType :: "string option"
  ar_AssignedObjectId :: "int64 option"
  ar_DnsName :: "string option"

section \<open>The client\<close>

record 'w netbox =
  DcimDevicesList :: "device_query \<Rightarrow> ('w, device page) call"
  DcimDevicesRetrieve :: "int32 \<Rightarrow> ('w, device) call"
  DcimDevicesPatchStatus :: "int32 \<Rightarrow> string \<Rightarrow> ('w, device) call"
  DcimInterfacesList :: "interface_query \<Rightarrow> ('w, interface page) call"
  DcimInterfacesRetrieve :: "int32 \<Rightarrow> ('w, interface) call"
  DcimInventoryItemsList :: "inventory_query \<Rightarrow> ('w, inventory_item page) call"
  VirtualizationClustersList :: "cluster_query \<Rightarrow> ('w, nb_cluster page) call"
  VirtualizationVirtualMachinesList :: "vm_query \<Rightarrow> ('w, virtual_machine page) call"
  IpamPrefixesList :: "prefix_query \<Rightarrow> ('w, ipam_prefix page) call"
  IpamPrefixesCreate :: "string \<Rightarrow> ('w, ipam_prefix) call"
  IpamIpAddressesList :: "ip_query \<Rightarrow> ('w, ip_address page) call"
  IpamIpAddressesRetrieve :: "int32 \<Rightarrow> ('w, ip_address) call"
  IpamIpAddressesCreate :: "ip_request \<Rightarrow> ('w, ip_address) call"
  IpamIpAddressesPatchDnsName :: "int32 \<Rightarrow> string \<Rightarrow> ('w, ip_address) call"
  IpamFhrpGroupsList :: "fhrp_query \<Rightarrow> ('w, fhrp_group page) call"
  IpamFhrpGroupsCreate :: "fhrp_request \<Rightarrow> ('w, fhrp_group) call"
  IpamServiceTemplatesList :: "string list \<Rightarrow> ('w, service_template page) call"
  IpamServiceTemplatesCreate :: "template_request \<Rightarrow> ('w, service_template) call"
  IpamServicesList :: "string list \<Rightarrow> ('w, ipam_service page) call"
  IpamServicesCreate :: "service_request \<Rightarrow> ('w, ipam_service) call"

end
