(* ===== verification/NetBox_Laws.thy ===== *)
theory NetBox_Laws
  imports NetBox_API
begin

text \<open>
  The documented behaviour of the NetBox REST API that some theorems rely on. A law relates the
  calls of a client to a view \<open>v\<close> of the world: the tables of NetBox as a \<open>netbox_db\<close>. A list
  call answers a page of the matching records and changes nothing; a create call appends the
  record it answers; a call that answers an error changes nothing. Calls may fail at any time.
  The laws are definitions, used as hypotheses; \<open>Memory_World\<close> shows that they can hold.
\<close>

record netbox_db =
  db_status :: "int32 \<Rightarrow> string option"
  db_groups :: "fhrp_group list"
  db_templates :: "service_template list"
  db_services :: "ipam_service list"
  db_ips :: "ip_address list"
  db_prefixes :: "ipam_prefix list"

section \<open>Pages\<close>

text \<open>A page of the matches \<open>xs\<close>: their number, and a non-empty initial part of them.\<close>

definition page_of :: "'a page \<Rightarrow> 'a list \<Rightarrow> bool" where
  "page_of p xs \<longleftrightarrow> Count p = int (length xs) \<and> (\<exists>k > 0. Results p = take k xs)"

lemma page_of_Count:
  assumes "page_of p xs"
  shows "Count p > 0 \<longleftrightarrow> xs \<noteq> []" and "Count p = 0 \<longleftrightarrow> xs = []"
  using assms by (auto simp: page_of_def)

lemma page_of_index0: "page_of p xs \<Longrightarrow> index0 (Results p) = index0 xs"
  by (cases xs) (auto simp: page_of_def take_Cons' split: if_splits)

lemma page_of_subset: "page_of p xs \<Longrightarrow> set (Results p) \<subseteq> set xs"
  by (auto simp: page_of_def dest: in_set_takeD)

section \<open>Calls\<close>

text \<open>A call that leaves the view as it is, and the two shapes of a writing call.\<close>

definition pure_call :: "('w \<Rightarrow> 'd) \<Rightarrow> ('w, 'a) call \<Rightarrow> bool" where
  "pure_call v f \<longleftrightarrow> (\<forall>w. v (snd (f w)) = v w)"

definition write_call :: "('w \<Rightarrow> 'd) \<Rightarrow> ('w, 'a) call \<Rightarrow> ('d \<Rightarrow> 'a \<Rightarrow> 'd \<Rightarrow> bool) \<Rightarrow> bool" where
  "write_call v f post \<longleftrightarrow>
     (\<forall>w x w'. f w = (Inr x, w') \<longrightarrow> post (v w) x (v w')) \<and>
     (\<forall>w e w'. f w = (Inl e, w') \<longrightarrow> v w' = v w \<and> error_message e \<noteq> [])"

lemma pure_callD: "pure_call v f \<Longrightarrow> f w = (r, w') \<Longrightarrow> v w' = v w"
  by (metis pure_call_def snd_conv)

lemma write_callD:
  assumes "write_call v f post"
  shows "f w = (Inr x, w') \<Longrightarrow> post (v w) x (v w')"
    and "f w = (Inl e, w') \<Longrightarrow> v w' = v w"
    and "f w = (Inl e, w') \<Longrightarrow> error_message e \<noteq> []"
  using assms unfolding write_call_def by blast+

section \<open>The device table\<close>

definition device_laws :: "'w netbox \<Rightarrow> ('w \<Rightarrow> netbox_db) \<Rightarrow> bool" where
  "device_laws nb v \<longleftrightarrow>
     (\<forall>i. pure_call v (DcimDevicesRetrieve nb i)) \<and>
     (\<forall>i w d w'. DcimDevicesRetrieve nb i w = (Inr d, w') \<longrightarrow>
        db_status (v w) i = Some (dev_StatusValue d)) \<and>
     (\<forall>i st. write_call v (DcimDevicesPatchStatus nb i st)
        (\<lambda>db d db'. db' = db\<lparr>db_status := (db_status db)(i \<mapsto> st)\<rparr>))"

lemma device_lawsD:
  assumes "device_laws nb v"
  shows "DcimDevicesRetrieve nb i w = (r, w') \<Longrightarrow> v w' = v w"
    and "DcimDevicesRetrieve nb i w = (Inr d, w') \<Longrightarrow> db_status (v w) i = Some (dev_StatusValue d)"
    and "DcimDevicesPatchStatus nb i st w = (Inr d, w') \<Longrightarrow>
           v w' = (v w)\<lparr>db_status := (db_status (v w))(i \<mapsto> st)\<rparr>"
    and "DcimDevicesPatchStatus nb i st w = (Inl e, w') \<Longrightarrow> v w' = v w"
    and "DcimDevicesPatchStatus nb i st w = (Inl e, w') \<Longrightarrow> error_message e \<noteq> []"
  using assms unfolding device_laws_def
  by (blast dest: pure_callD write_callD)+

section \<open>The IPAM tables\<close>

text \<open>
  The filter \<open>q\<close> of the address listing and the filter \<open>contains\<close> of the prefix listing are
  searches whose matching is NetBox's own; they are the parameters \<open>matches\<close> and
  \<open>contains\<close>.
\<close>

definition fhrp_laws :: "'w netbox \<Rightarrow> ('w \<Rightarrow> netbox_db) \<Rightarrow> bool" where
  "fhrp_laws nb v \<longleftrightarrow>
     (\<forall>q. pure_call v (IpamFhrpGroupsList nb q)) \<and>
     (\<forall>n w p w'. IpamFhrpGroupsList nb (FhrpGroups\<lparr>fq_Name := Some [n]\<rparr>) w = (Inr p, w') \<longrightarrow>
        page_of p (filter (\<lambda>g. fg_Name g = n) (db_groups (v w)))) \<and>
     (\<forall>req. write_call v (IpamFhrpGroupsCreate nb req)
        (\<lambda>db g db'. fg_Name g = fr_Name req \<and> fg_GroupId g = fr_GroupId req \<and>
           db' = db\<lparr>db_groups := db_groups db @ [g]\<rparr>))"

text \<open>The listing of one group, the one with the greatest group number.\<close>

definition fhrp_order_law :: "'w netbox \<Rightarrow> ('w \<Rightarrow> netbox_db) \<Rightarrow> bool" where
  "fhrp_order_law nb v \<longleftrightarrow>
     (\<forall>w p w'. IpamFhrpGroupsList nb (FhrpGroups\<lparr>fq_Limit := Some 1, fq_Ordering := Some ''-group_id''\<rparr>) w
          = (Inr p, w') \<longrightarrow>
        Count p = int (length (db_groups (v w))) \<and>
        (db_groups (v w) \<noteq> [] \<longrightarrow>
          (\<exists>g \<in> set (db_groups (v w)). Results p = [g] \<and>
             (\<forall>g' \<in> set (db_groups (v w)). sint (fg_GroupId g') \<le> sint (fg_GroupId g)))))"

definition template_laws :: "'w netbox \<Rightarrow> ('w \<Rightarrow> netbox_db) \<Rightarrow> bool" where
  "template_laws nb v \<longleftrightarrow>
     (\<forall>ns. pure_call v (IpamServiceTemplatesList nb ns)) \<and>
     (\<forall>n w p w'. IpamServiceTemplatesList nb [n] w = (Inr p, w') \<longrightarrow>
        page_of p (filter (\<lambda>t. st_Name t = n) (db_templates (v w)))) \<and>
     (\<forall>req. write_call v (IpamServiceTemplatesCreate nb req)
        (\<lambda>db t db'. st_Name t = tr_Name req \<and> st_Ports t = tr_Ports req \<and>
           db' = db\<lparr>db_templates := db_templates db @ [t]\<rparr>))"

definition service_laws :: "'w netbox \<Rightarrow> ('w \<Rightarrow> netbox_db) \<Rightarrow> bool" where
  "service_laws nb v \<longleftrightarrow>
     (\<forall>ds. pure_call v (IpamServicesList nb ds)) \<and>
     (\<forall>d w p w'. IpamServicesList nb [d] w = (Inr p, w') \<longrightarrow>
        page_of p (filter (\<lambda>s. sv_Description s = d) (db_services (v w)))) \<and>
     (\<forall>req. write_call v (IpamServicesCreate nb req)
        (\<lambda>db s db'. sv_Description s = sr_Description req \<and> sv_Ports s = sr_Ports req \<and>
           sv_ParentObjectId s = sr_ParentObjectId req \<and> sv_Name s = sr_Name req \<and>
           db' = db\<lparr>db_services := db_services db @ [s]\<rparr>))"

definition ip_laws ::
  "'w netbox \<Rightarrow> ('w \<Rightarrow> netbox_db) \<Rightarrow> (string \<Rightarrow> ip_address \<Rightarrow> bool) \<Rightarrow> bool" where
  "ip_laws nb v matches \<longleftrightarrow>
     (\<forall>q. pure_call v (IpamIpAddressesList nb q)) \<and>
     (\<forall>q w p w'. IpamIpAddressesList nb (IpAddresses\<lparr>aq_Q := Some q\<rparr>) w = (Inr p, w') \<longrightarrow>
        page_of p (filter (matches q) (db_ips (v w)))) \<and>
     (\<forall>req. write_call v (IpamIpAddressesCreate nb req)
        (\<lambda>db a db'. ip_Address a = ar_Address req \<and> ip_DnsName a = ar_DnsName req \<and>
           db' = db\<lparr>db_ips := db_ips db @ [a]\<rparr>)) \<and>
     (\<forall>i n. write_call v (IpamIpAddressesPatchDnsName nb i n)
        (\<lambda>db a db'. ip_DnsName a = Some n \<and>
           db' = db\<lparr>db_ips := map (\<lambda>b. if ip_Id b = i then b\<lparr>ip_DnsName := Some n\<rparr> else b) (db_ips db)\<rparr>)) \<and>
     (\<forall>q a d. matches q (a\<lparr>ip_DnsName := d\<rparr>) \<longleftrightarrow> matches q a) \<and>
     (\<forall>q a. ip_Address a = q \<or> ip_Address a = q @ ''/32'' \<longrightarrow> matches q a)"

definition prefix_laws ::
  "'w netbox \<Rightarrow> ('w \<Rightarrow> netbox_db) \<Rightarrow> (string \<Rightarrow> ipam_prefix \<Rightarrow> bool) \<Rightarrow> bool" where
  "prefix_laws nb v contains \<longleftrightarrow>
     (\<forall>q. pure_call v (IpamPrefixesList nb q)) \<and>
     (\<forall>a w p w'. IpamPrefixesList nb (Prefixes\<lparr>pq_Contains := Some a\<rparr>) w = (Inr p, w') \<longrightarrow>
        page_of p (filter (contains a) (db_prefixes (v w)))) \<and>
     (\<forall>c. write_call v (IpamPrefixesCreate nb c)
        (\<lambda>db p db'. pfx_Display p = c \<and> db' = db\<lparr>db_prefixes := db_prefixes db @ [p]\<rparr>)) \<and>
     (\<forall>a p. pfx_Display p = a @ ''/32'' \<longrightarrow> contains a p)"

lemma fhrp_lawsD:
  assumes "fhrp_laws nb v"
  shows "IpamFhrpGroupsList nb q w = (r, w') \<Longrightarrow> v w' = v w"
    and "IpamFhrpGroupsList nb (FhrpGroups\<lparr>fq_Name := Some [n]\<rparr>) w = (Inr p, w') \<Longrightarrow>
           page_of p (filter (\<lambda>g. fg_Name g = n) (db_groups (v w)))"
    and "write_call v (IpamFhrpGroupsCreate nb req)
        (\<lambda>db g db'. fg_Name g = fr_Name req \<and> fg_GroupId g = fr_GroupId req \<and>
           db' = db\<lparr>db_groups := db_groups db @ [g]\<rparr>)"
  using assms unfolding fhrp_laws_def by (blast dest: pure_callD)+

lemma template_lawsD:
  assumes "template_laws nb v"
  shows "IpamServiceTemplatesList nb ns w = (r, w') \<Longrightarrow> v w' = v w"
    and "IpamServiceTemplatesList nb [n] w = (Inr p, w') \<Longrightarrow>
           page_of p (filter (\<lambda>t. st_Name t = n) (db_templates (v w)))"
    and "write_call v (IpamServiceTemplatesCreate nb req)
        (\<lambda>db t db'. st_Name t = tr_Name req \<and> st_Ports t = tr_Ports req \<and>
           db' = db\<lparr>db_templates := db_templates db @ [t]\<rparr>)"
  using assms unfolding template_laws_def by (blast dest: pure_callD)+

lemma service_lawsD:
  assumes "service_laws nb v"
  shows "IpamServicesList nb ds w = (r, w') \<Longrightarrow> v w' = v w"
    and "IpamServicesList nb [d] w = (Inr p, w') \<Longrightarrow>
           page_of p (filter (\<lambda>s. sv_Description s = d) (db_services (v w)))"
    and "write_call v (IpamServicesCreate nb req)
        (\<lambda>db s db'. sv_Description s = sr_Description req \<and> sv_Ports s = sr_Ports req \<and>
           sv_ParentObjectId s = sr_ParentObjectId req \<and> sv_Name s = sr_Name req \<and>
           db' = db\<lparr>db_services := db_services db @ [s]\<rparr>)"
  using assms unfolding service_laws_def by (blast dest: pure_callD)+

lemma ip_lawsD:
  assumes "ip_laws nb v matches"
  shows "IpamIpAddressesList nb q' w = (r, w') \<Longrightarrow> v w' = v w"
    and "IpamIpAddressesList nb (IpAddresses\<lparr>aq_Q := Some q\<rparr>) w = (Inr p, w') \<Longrightarrow>
           page_of p (filter (matches q) (db_ips (v w)))"
    and "write_call v (IpamIpAddressesCreate nb req)
        (\<lambda>db a db'. ip_Address a = ar_Address req \<and> ip_DnsName a = ar_DnsName req \<and>
           db' = db\<lparr>db_ips := db_ips db @ [a]\<rparr>)"
    and "write_call v (IpamIpAddressesPatchDnsName nb i n)
        (\<lambda>db a db'. ip_DnsName a = Some n \<and>
           db' = db\<lparr>db_ips := map (\<lambda>b. if ip_Id b = i then b\<lparr>ip_DnsName := Some n\<rparr> else b) (db_ips db)\<rparr>)"
    and "matches q (a\<lparr>ip_DnsName := d\<rparr>) \<longleftrightarrow> matches q a"
    and "ip_Address a = q \<or> ip_Address a = q @ ''/32'' \<Longrightarrow> matches q a"
proof -
  from assms have laws: "\<And>q. pure_call v (IpamIpAddressesList nb q)"
    "\<And>q w p w'. IpamIpAddressesList nb (IpAddresses\<lparr>aq_Q := Some q\<rparr>) w = (Inr p, w') \<Longrightarrow>
        page_of p (filter (matches q) (db_ips (v w)))"
    unfolding ip_laws_def by blast+
  show "IpamIpAddressesList nb q' w = (r, w') \<Longrightarrow> v w' = v w"
    by (rule pure_callD [OF laws(1)])
  show "matches q a" if "ip_Address a = q \<or> ip_Address a = q @ ''/32''"
    using assms that unfolding ip_laws_def by blast
qed (use assms in \<open>simp_all add: ip_laws_def\<close>)

lemma prefix_lawsD:
  assumes "prefix_laws nb v contains"
  shows "IpamPrefixesList nb q w = (r, w') \<Longrightarrow> v w' = v w"
    and "IpamPrefixesList nb (Prefixes\<lparr>pq_Contains := Some a\<rparr>) w = (Inr p, w') \<Longrightarrow>
           page_of p (filter (contains a) (db_prefixes (v w)))"
    and "write_call v (IpamPrefixesCreate nb c)
        (\<lambda>db p db'. pfx_Display p = c \<and> db' = db\<lparr>db_prefixes := db_prefixes db @ [p]\<rparr>)"
    and "pfx_Display pfx = a @ ''/32'' \<Longrightarrow> contains a pfx"
  using assms unfolding prefix_laws_def by (blast dest: pure_callD)+

end
