(* ===== verification/Kube_API.thy ===== *)
theory Kube_API
  imports Go_Strconv
begin

text \<open>
  The interface of the Kubernetes client (controller-runtime, not part of the repository): the
  fields of the Tinkerbell \<open>Hardware\<close> object that machinecfg writes and reads, and the client
  as a record of remote calls. Objects without a Go type (CAPI clusters, Kamaji control
  planes, StatefulSets) are of an arbitrary type \<open>'o\<close>; the accessors of the package
  \<open>unstructured\<close> are fields of the client.
\<close>

section \<open>Tinkerbell Hardware\<close>

text \<open>A Go map from strings to strings: an association list, read with \<open>mget\<close>.\<close>

type_synonym string_map = "(string \<times> string) list"

definition mget :: "string_map \<Rightarrow> string \<Rightarrow> string" where
  "mget m k = (case map_of m k of None \<Rightarrow> [] | Some v \<Rightarrow> v)"

record hw_ip =
  hip_Address :: string
  hip_Netmask :: string
  hip_Gateway :: string

record hw_dhcp =
  dhcp_MAC :: string
  dhcp_Hostname :: string
  dhcp_NameServers :: "string list"
  dhcp_Arch :: string
  dhcp_UEFI :: bool
  dhcp_IP :: "hw_ip option"

record netboot =
  AllowPXE_flag :: "bool option"
  AllowWorkflow_flag :: "bool option"

record hw_interface =
  hwi_DHCP :: "hw_dhcp option"
  hwi_DisableDHCP :: bool
  hwi_Netboot :: "netboot option"

record hw_metadata =
  md_Hostname :: string
  md_ID :: string
  md_Ips :: "hw_ip list"
  md_ManufacturerSlug :: string

record hardware =
  hw_Name :: string
  hw_Namespace :: string
  hw_Labels :: string_map
  hw_Annotations :: string_map
  hw_Interfaces :: "hw_interface list"
  hw_Metadata :: "hw_metadata option"
  hw_Disks :: "string list"
  hw_UserData :: "string option"
  hw_VendorData :: "string option"

text \<open>The identity of an object: its namespace and its name.\<close>

abbreviation hw_key :: "hardware \<Rightarrow> string \<times> string" where
  "hw_key h \<equiv> (hw_Namespace h, hw_Name h)"

section \<open>Unstructured objects\<close>

record gvk =
  gvk_Group :: string
  gvk_Version :: string
  gvk_Kind :: string

text \<open>The dynamic values met in a list of conditions: a map, a string, or something else.\<close>

datatype json_value = JMap "(string \<times> json_value) list" | JString string | JOther

section \<open>The client\<close>

text \<open>
  \<open>HardwarePatch base modified\<close> sends the difference between the two
  (\<open>client.MergeFrom(base)\<close>) and answers the object as the server has it afterwards. The
  accessors of nested fields answer an error, \<open>None\<close> when the field is absent, or its value.
\<close>

datatype event_type = EventTypeNormal | EventTypeWarning

record ('w, 'o) kube =
  HardwareGet :: "string \<Rightarrow> string \<Rightarrow> ('w, hardware) call"
  HardwareList :: "string \<Rightarrow> ('w, hardware list) call"
  HardwareCreate :: "hardware \<Rightarrow> ('w, hardware) call"
  HardwarePatch :: "hardware \<Rightarrow> hardware \<Rightarrow> ('w, hardware) call"
  HardwareDelete :: "hardware \<Rightarrow> ('w, unit) call"
  ObjectGet :: "gvk \<Rightarrow> string \<Rightarrow> string \<Rightarrow> ('w, 'o) call"
  ObjectList :: "gvk \<Rightarrow> string \<Rightarrow> string_map \<Rightarrow> ('w, 'o list) call"
  SecretGet :: "string \<Rightarrow> string \<Rightarrow> ('w, string_map) call"
  ConfigMapGet :: "string \<Rightarrow> string \<Rightarrow> ('w, string_map) call"
  Eventf :: "string \<Rightarrow> event_type \<Rightarrow> string \<Rightarrow> string \<Rightarrow> 'w \<Rightarrow> 'w"
  ObjectName :: "'o \<Rightarrow> string"
  ObjectLabels :: "'o \<Rightarrow> string_map"
  ObjectAnnotations :: "'o \<Rightarrow> string_map"
  NestedString :: "'o \<Rightarrow> string list \<Rightarrow> string option result"
  NestedInt64 :: "'o \<Rightarrow> string list \<Rightarrow> int64 option result"
  NestedStringMap :: "'o \<Rightarrow> string list \<Rightarrow> string_map option result"
  NestedSlice :: "'o \<Rightarrow> string list \<Rightarrow> json_value list option result"

lemma mget_simps [simp]:
  "mget [] k = []"
  "mget ((k', v) # m) k = (if k = k' then v else mget m k)"
  by (simp_all add: mget_def)

lemma mget_update [simp]: "mget (AList.update k v m) k' = (if k' = k then v else mget m k')"
  by (simp add: mget_def update_conv)

end
