(* ===== verification/Kube_Laws.thy ===== *)
theory Kube_Laws
  imports Kube_API
begin

text \<open>
  The documented behaviour of the Kubernetes API server that some theorems rely on, on the
  \<open>Hardware\<close> objects. A view \<open>hv\<close> of the world gives the objects by namespace and name.
  A merge patch computed against the object the server still has makes it the modified object;
  no other client writes between the read and the patch. A call that answers an error changes
  nothing, and calls may fail at any time.
\<close>

type_synonym hw_store = "string \<times> string \<Rightarrow> hardware option"

text \<open>Objects are stored under their own key.\<close>

definition keyed :: "hw_store \<Rightarrow> bool" where
  "keyed s \<longleftrightarrow> (\<forall>k h. s k = Some h \<longrightarrow> hw_key h = k)"

definition get_law :: "('w, 'o) kube \<Rightarrow> ('w \<Rightarrow> hw_store) \<Rightarrow> bool" where
  "get_law k hv \<longleftrightarrow>
     (\<forall>ns n w r w'. HardwareGet k ns n w = (r, w') \<longrightarrow> hv w' = hv w \<and>
        (\<forall>h. r = Inr h \<longrightarrow> hv w (ns, n) = Some h) \<and>
        (\<forall>e. r = Inl e \<longrightarrow> IsNotFound e \<longrightarrow> hv w (ns, n) = None))"

definition list_law :: "('w, 'o) kube \<Rightarrow> ('w \<Rightarrow> hw_store) \<Rightarrow> bool" where
  "list_law k hv \<longleftrightarrow>
     (\<forall>ns w r w'. HardwareList k ns w = (r, w') \<longrightarrow> hv w' = hv w \<and>
        (\<forall>hs. r = Inr hs \<longrightarrow> distinct (map hw_key hs) \<and>
           (\<forall>h. h \<in> set hs \<longleftrightarrow> hw_Namespace h = ns \<and> hv w (hw_key h) = Some h)))"

definition create_law :: "('w, 'o) kube \<Rightarrow> ('w \<Rightarrow> hw_store) \<Rightarrow> bool" where
  "create_law k hv \<longleftrightarrow>
     (\<forall>h w r w'. HardwareCreate k h w = (r, w') \<longrightarrow>
        (\<forall>h'. r = Inr h' \<longrightarrow> hv w (hw_key h) = None \<and> hv w' = (hv w)(hw_key h \<mapsto> h)) \<and>
        (\<forall>e. r = Inl e \<longrightarrow> hv w' = hv w \<and> (IsAlreadyExists e \<longrightarrow> hv w (hw_key h) \<noteq> None)))"

definition patch_law :: "('w, 'o) kube \<Rightarrow> ('w \<Rightarrow> hw_store) \<Rightarrow> bool" where
  "patch_law k hv \<longleftrightarrow>
     (\<forall>b h w r w'. HardwarePatch k b h w = (r, w') \<longrightarrow>
        (\<forall>h'. r = Inr h' \<longrightarrow> hw_key h = hw_key b \<longrightarrow> hv w (hw_key b) = Some b \<longrightarrow>
           h' = h \<and> hv w' = (hv w)(hw_key b \<mapsto> h)) \<and>
        (\<forall>e. r = Inl e \<longrightarrow> hv w' = hv w))"

definition delete_law :: "('w, 'o) kube \<Rightarrow> ('w \<Rightarrow> hw_store) \<Rightarrow> bool" where
  "delete_law k hv \<longleftrightarrow>
     (\<forall>h w r w'. HardwareDelete k h w = (r, w') \<longrightarrow>
        (r = Inr () \<longrightarrow> hv w' = (hv w)(hw_key h := None)) \<and>
        (\<forall>e. r = Inl e \<longrightarrow> hv w' = hv w))"

definition hardware_laws :: "('w, 'o) kube \<Rightarrow> ('w \<Rightarrow> hw_store) \<Rightarrow> bool" where
  "hardware_laws k hv \<longleftrightarrow>
     (\<forall>w. keyed (hv w)) \<and> get_law k hv \<and> list_law k hv \<and> create_law k hv \<and> patch_law k hv \<and> delete_law k hv"

lemma hardware_laws_keyed: "hardware_laws k hv \<Longrightarrow> hv w key = Some h \<Longrightarrow> hw_key h = key"
  unfolding hardware_laws_def keyed_def by blast

lemma get_lawD:
  assumes "hardware_laws k hv"
  shows "HardwareGet k ns n w = (r, w') \<Longrightarrow> hv w' = hv w"
    and "HardwareGet k ns n w = (Inr h, w') \<Longrightarrow> hv w (ns, n) = Some h"
    and "HardwareGet k ns n w = (Inl e, w') \<Longrightarrow> IsNotFound e \<Longrightarrow> hv w (ns, n) = None"
proof -
  from assms have "get_law k hv" by (simp add: hardware_laws_def)
  note law = this [unfolded get_law_def, rule_format]
  show "HardwareGet k ns n w = (r, w') \<Longrightarrow> hv w' = hv w"
    and "HardwareGet k ns n w = (Inr h, w') \<Longrightarrow> hv w (ns, n) = Some h"
    and "HardwareGet k ns n w = (Inl e, w') \<Longrightarrow> IsNotFound e \<Longrightarrow> hv w (ns, n) = None"
    using law by blast+
qed

lemma list_lawD:
  assumes "hardware_laws k hv"
  shows "HardwareList k ns w = (r, w') \<Longrightarrow> hv w' = hv w"
    and "HardwareList k ns w = (Inr hs, w') \<Longrightarrow> distinct (map hw_key hs)"
    and "HardwareList k ns w = (Inr hs, w') \<Longrightarrow>
           h \<in> set hs \<longleftrightarrow> hw_Namespace h = ns \<and> hv w (hw_key h) = Some h"
proof -
  from assms have "list_law k hv" by (simp add: hardware_laws_def)
  note law = this [unfolded list_law_def, rule_format]
  show "HardwareList k ns w = (r, w') \<Longrightarrow> hv w' = hv w"
    and "HardwareList k ns w = (Inr hs, w') \<Longrightarrow> distinct (map hw_key hs)"
    and "HardwareList k ns w = (Inr hs, w') \<Longrightarrow>
           h \<in> set hs \<longleftrightarrow> hw_Namespace h = ns \<and> hv w (hw_key h) = Some h"
    using law by blast+
qed

lemma create_lawD:
  assumes "hardware_laws k hv"
  shows "HardwareCreate k h w = (Inr h', w') \<Longrightarrow> hv w (hw_key h) = None"
    and "HardwareCreate k h w = (Inr h', w') \<Longrightarrow> hv w' = (hv w)(hw_key h \<mapsto> h)"
    and "HardwareCreate k h w = (Inl e, w') \<Longrightarrow> hv w' = hv w"
    and "HardwareCreate k h w = (Inl e, w') \<Longrightarrow> IsAlreadyExists e \<Longrightarrow> hv w (hw_key h) \<noteq> None"
proof -
  from assms have "create_law k hv" by (simp add: hardware_laws_def)
  note law = this [unfolded create_law_def, rule_format]
  show "HardwareCreate k h w = (Inr h', w') \<Longrightarrow> hv w (hw_key h) = None"
    and "HardwareCreate k h w = (Inr h', w') \<Longrightarrow> hv w' = (hv w)(hw_key h \<mapsto> h)"
    and "HardwareCreate k h w = (Inl e, w') \<Longrightarrow> hv w' = hv w"
    and "HardwareCreate k h w = (Inl e, w') \<Longrightarrow> IsAlreadyExists e \<Longrightarrow> hv w (hw_key h) \<noteq> None"
    using law by blast+
qed

lemma patch_lawD:
  assumes "hardware_laws k hv"
  shows "HardwarePatch k b h w = (Inr h', w') \<Longrightarrow> hw_key h = hw_key b \<Longrightarrow>
           hv w (hw_key b) = Some b \<Longrightarrow> h' = h \<and> hv w' = (hv w)(hw_key b \<mapsto> h)"
    and "HardwarePatch k b h w = (Inl e, w') \<Longrightarrow> hv w' = hv w"
proof -
  from assms have "patch_law k hv" by (simp add: hardware_laws_def)
  note law = this [unfolded patch_law_def, rule_format]
  show "HardwarePatch k b h w = (Inr h', w') \<Longrightarrow> hw_key h = hw_key b \<Longrightarrow>
           hv w (hw_key b) = Some b \<Longrightarrow> h' = h \<and> hv w' = (hv w)(hw_key b \<mapsto> h)"
    and "HardwarePatch k b h w = (Inl e, w') \<Longrightarrow> hv w' = hv w"
    using law by blast+
qed

lemma delete_lawD:
  assumes "hardware_laws k hv"
  shows "HardwareDelete k h w = (Inr u, w') \<Longrightarrow> hv w' = (hv w)(hw_key h := None)"
    and "HardwareDelete k h w = (Inl e, w') \<Longrightarrow> hv w' = hv w"
proof -
  from assms have "delete_law k hv" by (simp add: hardware_laws_def)
  note law = this [unfolded delete_law_def, rule_format]
  show "HardwareDelete k h w = (Inr u, w') \<Longrightarrow> hv w' = (hv w)(hw_key h := None)"
    and "HardwareDelete k h w = (Inl e, w') \<Longrightarrow> hv w' = hv w"
    using law by (cases u, blast)+
qed

end
