(* ===== verification/Memory_World.thy ===== *)
theory Memory_World
  imports NetBox_Laws Kube_Laws
begin

text \<open>
  An executable world: NetBox and Kubernetes held in lists. It is not part of machinecfg; it
  shows that the laws of \<open>NetBox_Laws\<close> and \<open>Kube_Laws\<close> can hold together, and it is the world
  in which the witnesses of the properties evaluate the code.
\<close>

section \<open>State\<close>

record mem_object =
  mo_Gvk :: gvk
  mo_Namespace :: string
  mo_Name :: string
  mo_Labels :: string_map
  mo_Annotations :: string_map
  mo_Strings :: "(string list \<times> string) list"
  mo_Ints :: "(string list \<times> int64) list"
  mo_Maps :: "(string list \<times> string_map) list"
  mo_Slices :: "(string list \<times> json_value list) list"

record mem =
  m_devices :: "device list"
  m_interfaces :: "(int32 \<times> interface) list"
  m_inventory :: "(int32 \<times> inventory_item) list"
  m_clusters :: "nb_cluster list"
  m_vms :: "virtual_machine list"
  m_groups :: "fhrp_group list"
  m_templates :: "service_template list"
  m_services :: "ipam_service list"
  m_ips :: "ip_address list"
  m_prefixes :: "ipam_prefix list"
  m_hardware :: "hardware list"
  m_objects :: "mem_object list"
  m_secrets :: "((string \<times> string) \<times> string_map) list"
  m_configmaps :: "((string \<times> string) \<times> string_map) list"
  m_events :: "(string \<times> string) list"

definition empty_mem :: mem where
  "empty_mem = \<lparr>m_devices = [], m_interfaces = [], m_inventory = [], m_clusters = [], m_vms = [],
     m_groups = [], m_templates = [], m_services = [], m_ips = [], m_prefixes = [], m_hardware = [],
     m_objects = [], m_secrets = [], m_configmaps = [], m_events = []\<rparr>"

definition blank_device :: device where
  "blank_device = \<lparr>dev_Id = 0, dev_Name = Null, dev_Serial = None, dev_DeviceTypeSlug = [],
     dev_Manufacturer = [], dev_Role = [], dev_Site = [], dev_Location = Null, dev_Rack = Null,
     dev_Tenant = Null, dev_Platform = Null, dev_Cluster = Null, dev_PrimaryIp = Null,
     dev_PrimaryIp4 = Null, dev_StatusValue = [], dev_StatusLabel = []\<rparr>"

definition blank_hardware :: hardware where
  "blank_hardware = \<lparr>hw_Name = [], hw_Namespace = [], hw_Labels = [], hw_Annotations = [],
     hw_Interfaces = [], hw_Metadata = None, hw_Disks = [], hw_UserData = None, hw_VendorData = None\<rparr>"

definition blank_ip :: ip_address where
  "blank_ip = \<lparr>ip_Id = 0, ip_Address = [], ip_Display = [], ip_DnsName = None, ip_StatusValue = [],
     ip_Tags = [], ip_AssignedObjectType = Null, ip_AssignedObjectId = Null\<rparr>"

definition not_found :: go_error where
  "not_found = GoError StatusReasonNotFound ''not found''"

definition conflict :: go_error where
  "conflict = GoError StatusReasonAlreadyExists ''already exists''"

section \<open>NetBox in memory\<close>

definition opt_in :: "'a \<Rightarrow> 'a list option \<Rightarrow> bool" where
  "opt_in x q = (case q of None \<Rightarrow> True | Some xs \<Rightarrow> x \<in> set xs)"

definition page :: "'a list \<Rightarrow> 'a page" where
  "page xs = \<lparr>Count = int (length xs), Results = xs\<rparr>"

definition limited :: "int32 option \<Rightarrow> 'a list \<Rightarrow> 'a page" where
  "limited l xs = \<lparr>Count = int (length xs),
     Results = (case l of None \<Rightarrow> xs | Some n \<Rightarrow> take (unat n) xs)\<rparr>"

definition statuses :: "device list \<Rightarrow> int32 \<Rightarrow> string option" where
  "statuses ds = map_of (map (\<lambda>d. (dev_Id d, dev_StatusValue d)) ds)"

definition mem_view :: "mem \<Rightarrow> netbox_db" where
  "mem_view w = \<lparr>db_status = statuses (m_devices w), db_groups = m_groups w,
     db_templates = m_templates w, db_services = m_services w, db_ips = m_ips w,
     db_prefixes = m_prefixes w\<rparr>"

text \<open>The search of an address, and the containment of an address in a prefix by its first three octets.\<close>

definition mem_matches :: "string \<Rightarrow> ip_address \<Rightarrow> bool" where
  "mem_matches q a \<longleftrightarrow> HasPrefix (ip_Address a) q"

definition mem_contains :: "string \<Rightarrow> ipam_prefix \<Rightarrow> bool" where
  "mem_contains a p \<longleftrightarrow> pfx_Display p = a @ ''/32'' \<or>
     take 3 (Split (pfx_Display p) CHR ''.'') = take 3 (Split a CHR ''.'')"

definition under :: "string list option \<Rightarrow> string \<Rightarrow> bool" where
  "under ps a = (case ps of None \<Rightarrow> True
     | Some ps \<Rightarrow> list_ex (\<lambda>p. take 3 (Split p CHR ''.'') = take 3 (Split a CHR ''.'')) ps)"

definition find_device :: "int32 \<Rightarrow> mem \<Rightarrow> device option" where
  "find_device i w = find (\<lambda>d. dev_Id d = i) (m_devices w)"

definition mem_ips :: "ip_query \<Rightarrow> mem \<Rightarrow> ip_address list" where
  "mem_ips q w = filter (\<lambda>a.
     (case aq_Q q of None \<Rightarrow> True | Some s \<Rightarrow> mem_matches s a) \<and>
     opt_in (ip_Id a) (aq_Id q) \<and>
     (case aq_InterfaceId q of None \<Rightarrow> True
      | Some is \<Rightarrow> (case Get (ip_AssignedObjectId a) of None \<Rightarrow> False | Some i \<Rightarrow> ucast i \<in> set is)) \<and>
     under (aq_Parent q) (ip_Address a) \<and>
     (case aq_Tag q of None \<Rightarrow> True | Some ts \<Rightarrow> list_ex (\<lambda>t. t \<in> set (ip_Tags a)) ts) \<and>
     opt_in (ip_Address a) (aq_Address q)) (m_ips w)"

definition mem_netbox :: "mem netbox" where
  "mem_netbox = \<lparr>
     DcimDevicesList = (\<lambda>q w. (Inr (page (filter (\<lambda>d.
         (case dq_Status q of None \<Rightarrow> True | Some ss \<Rightarrow> dev_StatusValue d \<in> set ss) \<and>
         opt_in (dev_Id d) (dq_Id q) \<and> opt_in (dev_Role d) (dq_Role q)) (m_devices w))), w)),
     DcimDevicesRetrieve = (\<lambda>i w. case find_device i w of
         None \<Rightarrow> (Inl not_found, w) | Some d \<Rightarrow> (Inr d, w)),
     DcimDevicesPatchStatus = (\<lambda>i st w. case find_device i w of
         None \<Rightarrow> (Inl not_found, w)
       | Some d \<Rightarrow> (Inr (d\<lparr>dev_StatusValue := st\<rparr>),
           w\<lparr>m_devices := map (\<lambda>d. if dev_Id d = i then d\<lparr>dev_StatusValue := st\<rparr> else d) (m_devices w)\<rparr>)),
     DcimInterfacesList = (\<lambda>q w. (Inr (page (map snd (filter (\<lambda>(i, f).
         opt_in i (iq_DeviceId q) \<and> opt_in (if_Name f) (iq_Name q)) (m_interfaces w)))), w)),
     DcimInterfacesRetrieve = (\<lambda>i w. case find (\<lambda>f. if_Id f = i) (map snd (m_interfaces w)) of
         None \<Rightarrow> (Inl not_found, w) | Some f \<Rightarrow> (Inr f, w)),
     DcimInventoryItemsList = (\<lambda>q w.
         (Inr (page (map snd (filter (\<lambda>(i, _). opt_in i (nq_DeviceId q)) (m_inventory w)))), w)),
     VirtualizationClustersList = (\<lambda>q w. (Inr (page (filter (\<lambda>c.
         opt_in (cl_TypeSlug c) (cq_Type q) \<and> opt_in (cl_Name c) (cq_Name q)) (m_clusters w))), w)),
     VirtualizationVirtualMachinesList = (\<lambda>q w. (Inr (page (m_vms w)), w)),
     IpamPrefixesList = (\<lambda>q w. (Inr (limited (pq_Limit q) (filter (\<lambda>p.
         (case pq_Contains q of None \<Rightarrow> True | Some a \<Rightarrow> mem_contains a p) \<and>
         opt_in (pfx_Display p) (pq_Prefix q)) (m_prefixes w))), w)),
     IpamPrefixesCreate = (\<lambda>c w.
         let p = \<lparr>pfx_Id = of_nat (Suc (length (m_prefixes w))), pfx_Display = c, pfx_Vlan = Null,
                  pfx_CustomFields = []\<rparr>
         in (Inr p, w\<lparr>m_prefixes := m_prefixes w @ [p]\<rparr>)),
     IpamIpAddressesList = (\<lambda>q w. (Inr (page (mem_ips q w)), w)),
     IpamIpAddressesRetrieve = (\<lambda>i w. case find (\<lambda>a. ip_Id a = i) (m_ips w) of
         None \<Rightarrow> (Inl not_found, w) | Some a \<Rightarrow> (Inr a, w)),
     IpamIpAddressesCreate = (\<lambda>req w.
         let a = \<lparr>ip_Id = of_nat (Suc (length (m_ips w))), ip_Address = ar_Address req,
                  ip_Display = ar_Address req, ip_DnsName = ar_DnsName req,
                  ip_StatusValue = (case ar_Status req of None \<Rightarrow> [] | Some s \<Rightarrow> s), ip_Tags = [],
                  ip_AssignedObjectType = (case ar_AssignedObjectType req of None \<Rightarrow> Null | Some t \<Rightarrow> Value t),
                  ip_AssignedObjectId = (case ar_AssignedObjectId req of None \<Rightarrow> Null | Some t \<Rightarrow> Value t)\<rparr>
         in (Inr a, w\<lparr>m_ips := m_ips w @ [a]\<rparr>)),
     IpamIpAddressesPatchDnsName = (\<lambda>i n w. case find (\<lambda>a. ip_Id a = i) (m_ips w) of
         None \<Rightarrow> (Inl not_found, w)
       | Some a \<Rightarrow> (Inr (a\<lparr>ip_DnsName := Some n\<rparr>),
           w\<lparr>m_ips := map (\<lambda>b. if ip_Id b = i then b\<lparr>ip_DnsName := Some n\<rparr> else b) (m_ips w)\<rparr>)),
     IpamFhrpGroupsList = (\<lambda>q w.
         let gs = filter (\<lambda>g. opt_in (fg_Name g) (fq_Name q)) (m_groups w);
             gs = (if fq_Ordering q = Some ''-group_id'' then rev (sort_key (\<lambda>g. sint (fg_GroupId g)) gs) else gs)
         in (Inr (limited (fq_Limit q) gs), w)),
     IpamFhrpGroupsCreate = (\<lambda>req w.
         let g = \<lparr>fg_Id = of_nat (Suc (length (m_groups w))), fg_Name = fr_Name req, fg_GroupId = fr_GroupId req\<rparr>
         in (Inr g, w\<lparr>m_groups := m_groups w @ [g]\<rparr>)),
     IpamServiceTemplatesList = (\<lambda>ns w. (Inr (page (filter (\<lambda>t. st_Name t \<in> set ns) (m_templates w))), w)),
     IpamServiceTemplatesCreate = (\<lambda>req w.
         let t = \<lparr>st_Id = of_nat (Suc (length (m_templates w))), st_Name = tr_Name req, st_Ports = tr_Ports req\<rparr>
         in (Inr t, w\<lparr>m_templates := m_templates w @ [t]\<rparr>)),
     IpamServicesList = (\<lambda>ds w. (Inr (page (filter (\<lambda>s. sv_Description s \<in> set ds) (m_services w))), w)),
     IpamServicesCreate = (\<lambda>req w.
         let s = \<lparr>sv_Id = of_nat (Suc (length (m_services w))), sv_Name = sr_Name req,
                  sv_Description = sr_Description req, sv_ParentObjectId = sr_ParentObjectId req,
                  sv_Ports = sr_Ports req\<rparr>
         in (Inr s, w\<lparr>m_services := m_services w @ [s]\<rparr>))\<rparr>"

section \<open>Kubernetes in memory\<close>

definition mem_store :: "mem \<Rightarrow> hw_store" where
  "mem_store w = map_of (map (\<lambda>h. ((hw_Namespace h, hw_Name h), h)) (m_hardware w))"

definition labels_match :: "string_map \<Rightarrow> string_map \<Rightarrow> bool" where
  "labels_match sel ls \<longleftrightarrow> list_all (\<lambda>(k, v). map_of ls k = Some v) sel"

text \<open>The kind of a listing has the suffix \<open>List\<close>.\<close>

definition listed_kind :: "gvk \<Rightarrow> gvk \<Rightarrow> bool" where
  "listed_kind l g \<longleftrightarrow> gvk_Group l = gvk_Group g \<and> gvk_Version l = gvk_Version g \<and>
     gvk_Kind l = gvk_Kind g @ ''List''"

definition replace_hardware :: "string \<times> string \<Rightarrow> hardware \<Rightarrow> hardware list \<Rightarrow> hardware list" where
  "replace_hardware key h hs = map (\<lambda>x. if (hw_Namespace x, hw_Name x) = key then h else x) hs"

definition mem_kube :: "(mem, mem_object) kube" where
  "mem_kube = \<lparr>
     HardwareGet = (\<lambda>ns n w. case mem_store w (ns, n) of
         None \<Rightarrow> (Inl not_found, w) | Some h \<Rightarrow> (Inr h, w)),
     HardwareList = (\<lambda>ns w.
         if distinct (map (\<lambda>h. (hw_Namespace h, hw_Name h)) (m_hardware w))
         then (Inr (filter (\<lambda>h. hw_Namespace h = ns) (m_hardware w)), w) else (Inl conflict, w)),
     HardwareCreate = (\<lambda>h w. case mem_store w (hw_Namespace h, hw_Name h) of
         Some _ \<Rightarrow> (Inl conflict, w) | None \<Rightarrow> (Inr h, w\<lparr>m_hardware := m_hardware w @ [h]\<rparr>)),
     HardwarePatch = (\<lambda>b h w. case mem_store w (hw_Namespace b, hw_Name b) of
         None \<Rightarrow> (Inl not_found, w)
       | Some _ \<Rightarrow> (Inr h, w\<lparr>m_hardware := replace_hardware (hw_Namespace b, hw_Name b) h (m_hardware w)\<rparr>)),
     HardwareDelete = (\<lambda>h w. case mem_store w (hw_Namespace h, hw_Name h) of
         None \<Rightarrow> (Inl not_found, w)
       | Some _ \<Rightarrow> (Inr (), w\<lparr>m_hardware :=
           filter (\<lambda>x. (hw_Namespace x, hw_Name x) \<noteq> (hw_Namespace h, hw_Name h)) (m_hardware w)\<rparr>)),
     ObjectGet = (\<lambda>g ns n w.
         case find (\<lambda>x. mo_Gvk x = g \<and> mo_Namespace x = ns \<and> mo_Name x = n) (m_objects w) of
           None \<Rightarrow> (Inl not_found, w) | Some x \<Rightarrow> (Inr x, w)),
     ObjectList = (\<lambda>g ns sel w. (Inr (filter (\<lambda>x. listed_kind g (mo_Gvk x) \<and>
         (ns = [] \<or> mo_Namespace x = ns) \<and> labels_match sel (mo_Labels x)) (m_objects w)), w)),
     SecretGet = (\<lambda>ns n w. case map_of (m_secrets w) (ns, n) of
         None \<Rightarrow> (Inl not_found, w) | Some s \<Rightarrow> (Inr s, w)),
     ConfigMapGet = (\<lambda>ns n w. case map_of (m_configmaps w) (ns, n) of
         None \<Rightarrow> (Inl not_found, w) | Some s \<Rightarrow> (Inr s, w)),
     Eventf = (\<lambda>obj t r msg w. w\<lparr>m_events := m_events w @ [(r, msg)]\<rparr>),
     ObjectName = mo_Name, ObjectLabels = mo_Labels, ObjectAnnotations = mo_Annotations,
     NestedString = (\<lambda>x p. Inr (map_of (mo_Strings x) p)),
     NestedInt64 = (\<lambda>x p. Inr (map_of (mo_Ints x) p)),
     NestedStringMap = (\<lambda>x p. Inr (map_of (mo_Maps x) p)),
     NestedSlice = (\<lambda>x p. Inr (map_of (mo_Slices x) p))\<rparr>"

section \<open>The laws hold\<close>

lemma mem_netbox_calls [simp]:
  "DcimDevicesRetrieve mem_netbox i w = (case find_device i w of
      None \<Rightarrow> (Inl not_found, w) | Some d \<Rightarrow> (Inr d, w))"
  "DcimDevicesPatchStatus mem_netbox i st w = (case find_device i w of
      None \<Rightarrow> (Inl not_found, w)
    | Some d \<Rightarrow> (Inr (d\<lparr>dev_StatusValue := st\<rparr>),
        w\<lparr>m_devices := map (\<lambda>d. if dev_Id d = i then d\<lparr>dev_StatusValue := st\<rparr> else d) (m_devices w)\<rparr>))"
  "IpamFhrpGroupsCreate mem_netbox fr w =
      (let g = \<lparr>fg_Id = of_nat (Suc (length (m_groups w))), fg_Name = fr_Name fr, fg_GroupId = fr_GroupId fr\<rparr>
       in (Inr g, w\<lparr>m_groups := m_groups w @ [g]\<rparr>))"
  "IpamServiceTemplatesList mem_netbox ns w = (Inr (page (filter (\<lambda>t. st_Name t \<in> set ns) (m_templates w))), w)"
  "IpamServiceTemplatesCreate mem_netbox tr w =
      (let t = \<lparr>st_Id = of_nat (Suc (length (m_templates w))), st_Name = tr_Name tr, st_Ports = tr_Ports tr\<rparr>
       in (Inr t, w\<lparr>m_templates := m_templates w @ [t]\<rparr>))"
  "IpamServicesList mem_netbox ns w = (Inr (page (filter (\<lambda>s. sv_Description s \<in> set ns) (m_services w))), w)"
  "IpamServicesCreate mem_netbox sr w =
      (let s = \<lparr>sv_Id = of_nat (Suc (length (m_services w))), sv_Name = sr_Name sr,
                sv_Description = sr_Description sr, sv_ParentObjectId = sr_ParentObjectId sr, sv_Ports = sr_Ports sr\<rparr>
       in (Inr s, w\<lparr>m_services := m_services w @ [s]\<rparr>))"
  "IpamIpAddressesList mem_netbox aq w = (Inr (page (mem_ips aq w)), w)"
  "IpamIpAddressesPatchDnsName mem_netbox i n w = (case find (\<lambda>a. ip_Id a = i) (m_ips w) of
      None \<Rightarrow> (Inl not_found, w)
    | Some a \<Rightarrow> (Inr (a\<lparr>ip_DnsName := Some n\<rparr>),
        w\<lparr>m_ips := map (\<lambda>b. if ip_Id b = i then b\<lparr>ip_DnsName := Some n\<rparr> else b) (m_ips w)\<rparr>))"
  "IpamPrefixesList mem_netbox pq w = (Inr (limited (pq_Limit pq) (filter (\<lambda>p.
      (case pq_Contains pq of None \<Rightarrow> True | Some a \<Rightarrow> mem_contains a p) \<and>
      opt_in (pfx_Display p) (pq_Prefix pq)) (m_prefixes w))), w)"
  "IpamFhrpGroupsList mem_netbox fq w =
      (let gs = filter (\<lambda>g. opt_in (fg_Name g) (fq_Name fq)) (m_groups w);
           gs = (if fq_Ordering fq = Some ''-group_id'' then rev (sort_key (\<lambda>g. sint (fg_GroupId g)) gs) else gs)
       in (Inr (limited (fq_Limit fq) gs), w))"
  by (simp_all add: mem_netbox_def)

lemma opt_in_simps [simp]: "opt_in x None" "opt_in x (Some xs) \<longleftrightarrow> x \<in> set xs"
  by (simp_all add: opt_in_def)

lemma page_of_page: "page_of (page xs) xs" "page_of (limited None xs) xs"
  by (auto simp: page_of_def page_def limited_def intro!: exI [of _ "Suc (length xs)"])

lemma statuses_find: "statuses ds i = map_option dev_StatusValue (find (\<lambda>d. dev_Id d = i) ds)"
  by (induction ds) (auto simp: statuses_def)

lemma statuses_update:
  "find (\<lambda>d. dev_Id d = i) ds \<noteq> None \<Longrightarrow>
   statuses (map (\<lambda>d. if dev_Id d = i then d\<lparr>dev_StatusValue := st\<rparr> else d) ds) = (statuses ds)(i \<mapsto> st)"
proof -
  assume "find (\<lambda>d. dev_Id d = i) ds \<noteq> None"
  moreover have "statuses (map (\<lambda>d. if dev_Id d = i then d\<lparr>dev_StatusValue := st\<rparr> else d) ds) j =
      (if j = i then map_option (\<lambda>_. st) (statuses ds i) else statuses ds j)" for j
    by (induction ds) (auto simp: statuses_def)
  ultimately show ?thesis by (auto simp: fun_eq_iff statuses_find)
qed

lemma mem_device_laws: "device_laws mem_netbox mem_view"
  unfolding device_laws_def pure_call_def write_call_def
  by (auto simp: find_device_def mem_view_def statuses_find statuses_update not_found_def
      split: option.splits)

lemma mem_template_laws: "template_laws mem_netbox mem_view"
  unfolding template_laws_def pure_call_def write_call_def
  by (auto simp: mem_view_def page_of_page Let_def)

lemma mem_service_laws: "service_laws mem_netbox mem_view"
  unfolding service_laws_def pure_call_def write_call_def
  by (auto simp: mem_view_def page_of_page Let_def)

lemma mem_fhrp_laws: "fhrp_laws mem_netbox mem_view"
  unfolding fhrp_laws_def pure_call_def write_call_def
  by (auto simp: mem_view_def page_of_page Let_def FhrpGroups_def)

lemma mem_prefix_laws: "prefix_laws mem_netbox mem_view mem_contains"
  unfolding prefix_laws_def pure_call_def write_call_def
  by (auto simp: mem_view_def page_of_page Let_def Prefixes_def mem_netbox_def)
    (simp add: mem_contains_def)

lemma HasPrefix_refl: "HasPrefix (p @ t) p"
  by (induction p) auto

lemma mem_matches_self: "ip_Address a = q \<or> ip_Address a = q @ ''/32'' \<Longrightarrow> mem_matches q a"
  using HasPrefix_refl [of q "[]"] HasPrefix_refl [of q "''/32''"] by (auto simp: mem_matches_def)

lemma mem_ips_query: "mem_ips (IpAddresses\<lparr>aq_Q := Some q\<rparr>) w = filter (mem_matches q) (m_ips w)"
  by (simp add: mem_ips_def IpAddresses_def under_def)

lemma mem_ip_laws: "ip_laws mem_netbox mem_view mem_matches"
  unfolding ip_laws_def pure_call_def write_call_def
  by (auto simp: mem_view_def page_of_page mem_ips_query mem_matches_self not_found_def
      mem_netbox_def Let_def split: option.splits) (simp_all add: mem_matches_def)

lemma sorted_rev_hd:
  assumes "xs \<noteq> []"
  shows "\<exists>g \<in> set xs. take 1 (rev (sort_key f xs)) = [g] \<and> (\<forall>x \<in> set xs. (f x :: int) \<le> f g)"
proof -
  let ?s = "sort_key f xs"
  from assms have ne: "?s \<noteq> []" by (metis length_sort length_0_conv)
  then have "take 1 (rev ?s) = [last ?s]"
    by (cases ?s rule: rev_cases) auto
  moreover have "last ?s \<in> set xs" using ne last_in_set [of ?s] by simp
  moreover have "f x \<le> f (last ?s)" if "x \<in> set xs" for x
  proof -
    from that have "x \<in> set ?s" by simp
    then obtain i where "i < length ?s" "?s ! i = x" by (metis in_set_conv_nth)
    then have "map f ?s ! i \<le> map f ?s ! (length ?s - 1)"
      by (intro sorted_nth_mono) (auto simp del: nth_map)
    with \<open>i < length ?s\<close> \<open>?s ! i = x\<close> show ?thesis by (simp add: last_conv_nth [OF ne])
  qed
  ultimately show ?thesis by blast
qed

lemma mem_fhrp_order_law: "fhrp_order_law mem_netbox mem_view"
  unfolding fhrp_order_law_def
proof (intro allI impI)
  fix w p w'
  assume "IpamFhrpGroupsList mem_netbox
      (FhrpGroups\<lparr>fq_Limit := Some 1, fq_Ordering := Some ''-group_id''\<rparr>) w = (Inr p, w')"
  then have p: "p = \<lparr>Count = int (length (m_groups w)),
      Results = take 1 (rev (sort_key (\<lambda>g. sint (fg_GroupId g)) (m_groups w)))\<rparr>"
    by (auto simp: FhrpGroups_def limited_def Let_def)
  have g: "db_groups (mem_view w) = m_groups w" by (simp add: mem_view_def)
  show "Count p = int (length (db_groups (mem_view w))) \<and>
      (db_groups (mem_view w) \<noteq> [] \<longrightarrow> (\<exists>g \<in> set (db_groups (mem_view w)). Results p = [g] \<and>
         (\<forall>g' \<in> set (db_groups (mem_view w)). sint (fg_GroupId g') \<le> sint (fg_GroupId g))))"
    unfolding g p using sorted_rev_hd [of "m_groups w" "\<lambda>g. sint (fg_GroupId g)"] by simp
qed

lemma mem_store_keyed: "mem_store w key = Some h \<Longrightarrow> hw_key h = key"
  unfolding mem_store_def by (drule map_of_SomeD) auto

lemma mem_store_member: "mem_store w key = Some h \<Longrightarrow> h \<in> set (m_hardware w)"
  unfolding mem_store_def by (drule map_of_SomeD) auto

lemma mem_store_distinct:
  assumes "distinct (map (\<lambda>h. (hw_Namespace h, hw_Name h)) (m_hardware w))"
  shows "h \<in> set (m_hardware w) \<longleftrightarrow> mem_store w (hw_key h) = Some h"
proof
  assume "h \<in> set (m_hardware w)"
  then have "(hw_key h, h) \<in> set (map (\<lambda>h. ((hw_Namespace h, hw_Name h), h)) (m_hardware w))" by auto
  then show "mem_store w (hw_key h) = Some h"
    unfolding mem_store_def
    by (rule map_of_is_SomeI [rotated]) (use assms in \<open>simp add: o_def\<close>)
qed (rule mem_store_member)

lemma mem_store_simps:
  "mem_store (w\<lparr>m_hardware := hs\<rparr>) = map_of (map (\<lambda>h. ((hw_Namespace h, hw_Name h), h)) hs)"
  by (simp add: mem_store_def)

lemma mem_store_create:
  assumes "mem_store w (hw_key h) = None"
  shows "mem_store (w\<lparr>m_hardware := m_hardware w @ [h]\<rparr>) = (mem_store w)(hw_key h \<mapsto> h)"
  using assms unfolding mem_store_simps
  by (auto simp: mem_store_def fun_eq_iff map_add_def split: option.splits)

lemma mem_store_patch:
  assumes "mem_store w (hw_key b) = Some b" and "hw_key h = hw_key b"
  shows "mem_store (w\<lparr>m_hardware := replace_hardware (hw_key b) h (m_hardware w)\<rparr>) = (mem_store w)(hw_key b \<mapsto> h)"
proof
  fix key
  have "map_of (map (\<lambda>h. ((hw_Namespace h, hw_Name h), h)) (replace_hardware (hw_key b) h hs)) key =
      (if key = hw_key b then map_option (\<lambda>_. h) (map_of (map (\<lambda>h. ((hw_Namespace h, hw_Name h), h)) hs) key)
       else map_of (map (\<lambda>h. ((hw_Namespace h, hw_Name h), h)) hs) key)" for hs
    using assms(2) by (induction hs) (auto simp: replace_hardware_def)
  then show "mem_store (w\<lparr>m_hardware := replace_hardware (hw_key b) h (m_hardware w)\<rparr>) key =
      ((mem_store w)(hw_key b \<mapsto> h)) key"
    using assms(1) unfolding mem_store_simps by (simp add: mem_store_def)
qed

lemma mem_store_delete:
  "mem_store (w\<lparr>m_hardware := filter (\<lambda>x. (hw_Namespace x, hw_Name x) \<noteq> key) (m_hardware w)\<rparr>) =
     (mem_store w)(key := None)"
proof
  fix k
  have "map_of (map (\<lambda>h. ((hw_Namespace h, hw_Name h), h)) (filter (\<lambda>x. (hw_Namespace x, hw_Name x) \<noteq> key) hs)) k =
      (if k = key then None else map_of (map (\<lambda>h. ((hw_Namespace h, hw_Name h), h)) hs) k)" for hs :: "hardware list"
    by (induction hs) auto
  then show "mem_store (w\<lparr>m_hardware := filter (\<lambda>x. (hw_Namespace x, hw_Name x) \<noteq> key) (m_hardware w)\<rparr>) k =
      ((mem_store w)(key := None)) k"
    unfolding mem_store_simps by (simp add: mem_store_def)
qed

lemma mem_get_law: "get_law mem_kube mem_store"
  unfolding get_law_def by (auto simp: mem_kube_def split: option.splits)

lemma mem_list_law: "list_law mem_kube mem_store"
  unfolding list_law_def
proof (intro allI impI)
  fix ns w r w'
  assume call: "HardwareList mem_kube ns w = (r, w')"
  show "mem_store w' = mem_store w \<and> (\<forall>hs. r = Inr hs \<longrightarrow> distinct (map hw_key hs) \<and>
      (\<forall>h. h \<in> set hs \<longleftrightarrow> hw_Namespace h = ns \<and> mem_store w (hw_key h) = Some h))"
  proof (cases "distinct (map (\<lambda>h. (hw_Namespace h, hw_Name h)) (m_hardware w))")
    case True
    with call have "w' = w" and "r = Inr (filter (\<lambda>h. hw_Namespace h = ns) (m_hardware w))"
      by (auto simp: mem_kube_def)
    with True mem_store_distinct [OF True] show ?thesis by (auto simp: distinct_map_filter)
  next
    case False
    with call show ?thesis by (auto simp: mem_kube_def)
  qed
qed

lemma mem_create_law: "create_law mem_kube mem_store"
  unfolding create_law_def
  by (auto simp: mem_kube_def mem_store_create split: option.splits)

lemma mem_patch_law: "patch_law mem_kube mem_store"
  unfolding patch_law_def
  by (auto simp: mem_kube_def mem_store_patch split: option.splits)

lemma mem_delete_law: "delete_law mem_kube mem_store"
  unfolding delete_law_def
proof (intro allI impI)
  fix h w r w'
  assume call: "HardwareDelete mem_kube h w = (r, w')"
  show "(r = Inr () \<longrightarrow> mem_store w' = (mem_store w)(hw_key h := None)) \<and>
      (\<forall>e. r = Inl e \<longrightarrow> mem_store w' = mem_store w)"
  proof (cases "mem_store w (hw_key h)")
    case None
    with call show ?thesis by (auto simp: mem_kube_def)
  next
    case (Some x)
    with call have "r = Inr ()" and
      w': "w' = w\<lparr>m_hardware := filter (\<lambda>x. (hw_Namespace x, hw_Name x) \<noteq> hw_key h) (m_hardware w)\<rparr>"
      by (auto simp: mem_kube_def)
    then show ?thesis unfolding w' mem_store_delete by simp
  qed
qed

lemma mem_hardware_laws: "hardware_laws mem_kube mem_store"
  unfolding hardware_laws_def keyed_def
  using mem_store_keyed mem_get_law mem_list_law mem_create_law mem_patch_law mem_delete_law by blast

section \<open>A sample device with two addresses, one of them on a tagged VLAN\<close>

definition rack_node :: device where
  "rack_node = blank_device\<lparr>dev_Id := 3, dev_Name := Value ''node3'', dev_Serial := Some ''S3'',
     dev_StatusValue := ''active''\<rparr>"

definition rack_world :: mem where
  "rack_world = empty_mem\<lparr>m_devices := [rack_node],
     m_interfaces := [(3, \<lparr>if_Id = 30, if_Name = ''eth0'', if_MacAddress = Null, if_PrimaryMac = [],
       if_MacAddresses = [], if_TaggedVlans = [\<lparr>vl_Vid = 7, vl_Name = ''storage''\<rparr>], if_Tags = []\<rparr>)],
     m_ips := [blank_ip\<lparr>ip_Id := 1, ip_Address := ''10.7.0.3/24'', ip_AssignedObjectId := Value 30\<rparr>,
       blank_ip\<lparr>ip_Id := 2, ip_Address := ''10.1.0.3/24'', ip_AssignedObjectId := Value 30\<rparr>],
     m_prefixes := [\<lparr>pfx_Id = 1, pfx_Display = ''10.7.0.0/24'',
         pfx_Vlan = Value \<lparr>vl_Vid = 7, vl_Name = ''storage''\<rparr>, pfx_CustomFields = []\<rparr>,
       \<lparr>pfx_Id = 2, pfx_Display = ''10.1.0.0/24'', pfx_Vlan = Null, pfx_CustomFields = []\<rparr>]\<rparr>"

end
