(* ===== verification/Go_Net.thy ===== *)
theory Go_Net
  imports Go_Strconv
begin

text \<open>
  The part of Go's \<open>net\<close> that the program uses: \<open>net.ParseIP\<close> (is a string an address?),
  \<open>net.ParseCIDR\<close> and the text form of a network mask. Addresses are lists of numbers: four
  octets, or eight 16-bit groups.
\<close>

section \<open>Parsing addresses\<close>

datatype ip_addr = IPv4 "nat list" | IPv6 "nat list" (zone: string)

text \<open>One decimal octet: at least one digit, no leading zero, at most 255.\<close>

definition parse_octet :: "string \<Rightarrow> nat option" where
  "parse_octet s =
     (case ParseUint s of
        None \<Rightarrow> None
      | Some n \<Rightarrow> if n \<le> 255 \<and> (length s = 1 \<or> hd s \<noteq> CHR ''0'') then Some n else None)"

definition parse_ipv4 :: "string \<Rightarrow> nat list option" where
  "parse_ipv4 s =
     (let fields = Split s CHR ''.'' in
      if length fields = 4 \<and> list_all (\<lambda>f. parse_octet f \<noteq> None) fields
      then Some (map (\<lambda>f. the (parse_octet f)) fields) else None)"

definition hex_val :: "char \<Rightarrow> nat option" where
  "hex_val c =
     (let n = of_char c :: nat in
      if 48 \<le> n \<and> n \<le> 57 then Some (n - 48)
      else if 97 \<le> n \<and> n \<le> 102 then Some (n - 87)
      else if 65 \<le> n \<and> n \<le> 70 then Some (n - 55)
      else None)"

definition is_hex :: "char \<Rightarrow> bool" where
  "is_hex c \<longleftrightarrow> hex_val c \<noteq> None"

definition hex_group_val :: "string \<Rightarrow> nat" where
  "hex_group_val s = foldl (\<lambda>n c. 16 * n + the (hex_val c)) 0 s"

text \<open>
  The loop of \<open>netip.parseIPv6\<close>: the groups parsed so far (in reverse), the place of the
  ellipsis, the rest of the text. A group is a run of one to four hexadecimal digits; a dot
  after it means that the rest is an embedded IPv4 address. The result is the groups and
  the place of the ellipsis.
\<close>

function parse_groups :: "nat list \<Rightarrow> nat option \<Rightarrow> string \<Rightarrow> (nat list \<times> nat option) option" where
  "parse_groups gs el s =
     (if length gs \<ge> 8 then (if s = [] then Some (rev gs, el) else None)
      else
        let h = takeWhile is_hex s; rest = dropWhile is_hex s in
        if h = [] \<or> length h > 4 then None
        else if rest \<noteq> [] \<and> hd rest = CHR ''.'' then
          (if (el = None \<and> length gs \<noteq> 6) \<or> length gs > 6 then None
           else case parse_ipv4 s of
                  Some [a, b, c, d] \<Rightarrow> Some (rev gs @ [256 * a + b, 256 * c + d], el)
                | _ \<Rightarrow> None)
        else
          let gs' = hex_group_val h # gs in
          if rest = [] then Some (rev gs', el)
          else if hd rest \<noteq> CHR '':'' \<or> tl rest = [] then None
          else
            let more = tl rest in
            if hd more = CHR '':'' then
              (if el \<noteq> None then None
               else if tl more = [] then Some (rev gs', Some (length gs'))
               else parse_groups gs' (Some (length gs')) (tl more))
            else parse_groups gs' el more)"
  by pat_completeness auto
termination
proof (relation "measure (\<lambda>(gs, el, s). length s)", goal_cases)
  case 1
  then show ?case by simp
next
  case (2 gs el s h rest gs' more)
  have "length rest \<le> length s" using 2(3) by (simp add: length_dropWhile_le)
  moreover have "s \<noteq> []" using 2(2,4) by auto
  moreover have "length (tl more) \<le> length rest - 1" using 2 by simp
  ultimately have "length (tl more) < length s" by (cases s) auto
  then show ?case by simp
next
  case (3 gs el s h rest gs' more)
  have "length rest \<le> length s" using 3(3) by (simp add: length_dropWhile_le)
  moreover have "s \<noteq> []" using 3(2,4) by auto
  moreover have "length more \<le> length rest - 1" using 3 by simp
  ultimately have "length more < length s" by (cases s) auto
  then show ?case by simp
qed

declare parse_groups.simps [simp del]

text \<open>The same equation without local definitions, for evaluation.\<close>

lemma parse_groups_code [code]:
  "parse_groups gs el s =
     (if length gs \<ge> 8 then (if s = [] then Some (rev gs, el) else None)
      else if takeWhile is_hex s = [] \<or> length (takeWhile is_hex s) > 4 then None
      else if dropWhile is_hex s \<noteq> [] \<and> hd (dropWhile is_hex s) = CHR ''.'' then
        (if (el = None \<and> length gs \<noteq> 6) \<or> length gs > 6 then None
         else case parse_ipv4 s of
                Some [a, b, c, d] \<Rightarrow> Some (rev gs @ [256 * a + b, 256 * c + d], el)
              | _ \<Rightarrow> None)
      else if dropWhile is_hex s = [] then Some (rev (hex_group_val (takeWhile is_hex s) # gs), el)
      else if hd (dropWhile is_hex s) \<noteq> CHR '':'' \<or> tl (dropWhile is_hex s) = [] then None
      else if hd (tl (dropWhile is_hex s)) = CHR '':'' then
        (if el \<noteq> None then None
         else if tl (tl (dropWhile is_hex s)) = [] then
           Some (rev (hex_group_val (takeWhile is_hex s) # gs), Some (Suc (length gs)))
         else parse_groups (hex_group_val (takeWhile is_hex s) # gs) (Some (Suc (length gs)))
                (tl (tl (dropWhile is_hex s))))
      else parse_groups (hex_group_val (takeWhile is_hex s) # gs) el (tl (dropWhile is_hex s)))"
  by (subst parse_groups.simps) (simp only: Let_def list.size(4) add_0_right add_Suc_right)

definition expand_groups :: "nat list \<times> nat option \<Rightarrow> nat list option" where
  "expand_groups r =
     (case r of
        (gs, None) \<Rightarrow> if length gs = 8 then Some gs else None
      | (gs, Some e) \<Rightarrow>
          if length gs < 8 then Some (take e gs @ replicate (8 - length gs) 0 @ drop e gs)
          else None)"

definition parse_ipv6 :: "string \<Rightarrow> (nat list \<times> string) option" where
  "parse_ipv6 inp =
     (let s = takeWhile (\<lambda>c. c \<noteq> CHR ''%'') inp; after = dropWhile (\<lambda>c. c \<noteq> CHR ''%'') inp in
      if after \<noteq> [] \<and> tl after = [] then None
      else
        let zone = tl after in
        if HasPrefix s ''::'' then
          (if s = ''::'' then Some (replicate 8 0, zone)
           else case parse_groups [] (Some 0) (drop 2 s) of
                  None \<Rightarrow> None
                | Some r \<Rightarrow> map_option (\<lambda>gs. (gs, zone)) (expand_groups r))
        else case parse_groups [] None s of
               None \<Rightarrow> None
             | Some r \<Rightarrow> map_option (\<lambda>gs. (gs, zone)) (expand_groups r))"

text \<open>\<open>netip.ParseAddr\<close> looks for the first of the three marker bytes.\<close>

definition ParseAddr :: "string \<Rightarrow> ip_addr option" where
  "ParseAddr s =
     (case dropWhile (\<lambda>c. c \<notin> {CHR ''.'', CHR '':'', CHR ''%''}) s of
        [] \<Rightarrow> None
      | c # _ \<Rightarrow>
          if c = CHR ''.'' then map_option IPv4 (parse_ipv4 s)
          else if c = CHR '':'' then map_option (\<lambda>(gs, z). IPv6 gs z) (parse_ipv6 s)
          else None)"

text \<open>\<open>net.ParseIP(s) == nil\<close> is \<open>ParseIP s = None\<close>: zones are refused.\<close>

definition ParseIP :: "string \<Rightarrow> ip_addr option" where
  "ParseIP s =
     (case ParseAddr s of
        Some (IPv6 gs z) \<Rightarrow> if z = [] then Some (IPv6 gs z) else None
      | r \<Rightarrow> r)"

section \<open>Prefixes and masks\<close>

definition BitLen :: "ip_addr \<Rightarrow> nat" where
  "BitLen a = (case a of IPv4 _ \<Rightarrow> 32 | IPv6 _ _ \<Rightarrow> 128)"

text \<open>\<open>net.ParseCIDR\<close>: the address and the length of its prefix.\<close>

definition ParseCIDR :: "string \<Rightarrow> (ip_addr \<times> nat) option" where
  "ParseCIDR s =
     (case dropWhile (\<lambda>c. c \<noteq> CHR ''/'') s of
        [] \<Rightarrow> None
      | _ # len \<Rightarrow>
          (case ParseIP (takeWhile (\<lambda>c. c \<noteq> CHR ''/'') s) of
             None \<Rightarrow> None
           | Some a \<Rightarrow>
               (case ParseUint len of
                  None \<Rightarrow> None
                | Some n \<Rightarrow> if n \<le> BitLen a then Some (a, n) else None)))"

text \<open>\<open>net.CIDRMask(n, bits)\<close> cut into fields of \<open>w\<close> bits: each field has its high bits set.\<close>

fun CIDRMask :: "nat \<Rightarrow> nat \<Rightarrow> nat \<Rightarrow> nat list" where
  "CIDRMask w n 0 = []"
| "CIDRMask w n (Suc k) = (2 ^ w - 2 ^ (w - min n w)) # CIDRMask w (n - w) k"

fun Hextoa :: "nat \<Rightarrow> string" where
  "Hextoa n = (if n < 16 then [''0123456789abcdef'' ! n]
               else Hextoa (n div 16) @ [''0123456789abcdef'' ! (n mod 16)])"

declare Hextoa.simps [simp del]

definition quad_string :: "nat list \<Rightarrow> string" where
  "quad_string os = Join (map Utoa os) ''.''"

text \<open>
  The text of an IPv6 mask: its groups in hexadecimal, with the zero groups, which are at its
  end, written as \<open>::\<close> when there are two of them or more.
\<close>

definition mask6_string :: "nat list \<Rightarrow> string" where
  "mask6_string gs =
     (let nz = takeWhile (\<lambda>g. g \<noteq> 0) gs in
      if length gs - length nz \<ge> 2 then Join (map Hextoa nz) '':'' @ ''::''
      else Join (map Hextoa gs) '':'')"

definition mask_string :: "ip_addr \<times> nat \<Rightarrow> string" where
  "mask_string r =
     (case fst r of
        IPv4 _ \<Rightarrow> quad_string (CIDRMask 8 (snd r) 4)
      | IPv6 _ _ \<Rightarrow> mask6_string (CIDRMask 16 (snd r) 8))"

section \<open>Facts\<close>

lemma ParseUint_digit_string: "ParseUint s = Some n \<Longrightarrow> s \<noteq> [] \<and> list_all is_digit s"
  by (simp add: ParseUint_def split: if_splits)

lemma Utoa_hd_zero: "hd (Utoa n) = CHR ''0'' \<Longrightarrow> n = 0"
proof (induction n rule: Utoa.induct)
  case (1 n)
  show ?case
  proof (cases "n < 10")
    case True
    then have "Utoa n = [digit_char n]" by (subst Utoa.simps) simp
    with 1(2) have "digit_char n = CHR ''0''" by simp
    then have "digit_val (digit_char n) = digit_val (CHR ''0'')" by simp
    with True show ?thesis by (simp add: digit_val_def [of "CHR ''0''"])
  next
    case False
    then have "Utoa n = Utoa (n div 10) @ [digit_char (n mod 10)]" by (subst Utoa.simps) simp
    with 1(2) have "hd (Utoa (n div 10)) = CHR ''0''" by simp
    with 1(1) False have "n div 10 = 0" by simp
    with False show ?thesis by simp
  qed
qed

lemma parse_octet_Utoa [simp]: "n \<le> 255 \<Longrightarrow> parse_octet (Utoa n) = Some n"
proof (cases "n = 0")
  case True
  moreover have "length (Utoa 0) = 1" by (subst Utoa.simps) simp
  ultimately show ?thesis by (simp add: parse_octet_def)
next
  case False
  assume "n \<le> 255"
  with False Utoa_hd_zero [of n] show ?thesis by (auto simp: parse_octet_def)
qed

lemma Utoa_no_char: "\<not> is_digit c \<Longrightarrow> c \<notin> set (Utoa n)"
  using Utoa_digits by blast

text \<open>The text of an IPv4 address parses back to it.\<close>

lemma parse_ipv4_quad_string:
  assumes "length os = 4" and "\<forall>n \<in> set os. n \<le> 255"
  shows "parse_ipv4 (quad_string os) = Some os"
proof -
  have "CHR ''.'' \<notin> set (Utoa n)" for n
    by (rule Utoa_no_char) (simp add: is_digit_def)
  moreover from assms(1) have "map Utoa os \<noteq> []" by auto
  ultimately have "Split (quad_string os) CHR ''.'' = map Utoa os"
    unfolding quad_string_def by (intro Split_Join) auto
  moreover from assms(2) have "map (\<lambda>f. the (parse_octet f)) (map Utoa os) = os"
    by (simp add: map_idI)
  ultimately show ?thesis
    using assms by (simp add: parse_ipv4_def list_all_iff)
qed

lemma quad_string_dot:
  assumes "length os = 4"
  shows "\<exists>rest. dropWhile (\<lambda>c. c \<notin> {CHR ''.'', CHR '':'', CHR ''%''}) (quad_string os) = CHR ''.'' # rest"
proof -
  from assms obtain a bs where os: "os = a # bs" and "bs \<noteq> []"
    by (cases os) force+
  then obtain b cs where "bs = b # cs" by (cases bs) auto
  with os have q: "quad_string os = Utoa a @ CHR ''.'' # Join (map Utoa bs) ''.''"
    by (simp add: quad_string_def)
  have "\<forall>c \<in> set (Utoa a). c \<notin> {CHR ''.'', CHR '':'', CHR ''%''}"
    using Utoa_no_char [of "CHR ''.''" a] Utoa_no_char [of "CHR '':''" a] Utoa_no_char [of "CHR ''%''" a]
    by (auto simp: is_digit_def)
  then show ?thesis unfolding q by (simp add: dropWhile_append2)
qed

lemma ParseIP_quad_string:
  assumes "length os = 4" and "\<forall>n \<in> set os. n \<le> 255"
  shows "ParseIP (quad_string os) = Some (IPv4 os)"
proof -
  obtain rest where
    "dropWhile (\<lambda>c. c \<notin> {CHR ''.'', CHR '':'', CHR ''%''}) (quad_string os) = CHR ''.'' # rest"
    using quad_string_dot [OF assms(1)] by blast
  then have "ParseAddr (quad_string os) = Some (IPv4 os)"
    by (simp add: ParseAddr_def parse_ipv4_quad_string [OF assms])
  then show ?thesis by (simp add: ParseIP_def)
qed

lemma Join_no_char:
  "c \<notin> set sep \<Longrightarrow> \<forall>p \<in> set ps. c \<notin> set p \<Longrightarrow> c \<notin> set (Join ps sep)"
  by (induction ps sep rule: Join.induct) auto

lemma quad_string_no_slash: "CHR ''/'' \<notin> set (quad_string os)"
proof -
  have "CHR ''/'' \<notin> set (Utoa n)" for n
    by (rule Utoa_no_char) (simp add: is_digit_def)
  then show ?thesis unfolding quad_string_def by (intro Join_no_char) auto
qed

lemma ParseCIDR_quad_string:
  assumes "length os = 4" and "\<forall>n \<in> set os. n \<le> 255" and "n \<le> 32"
  shows "ParseCIDR (quad_string os @ CHR ''/'' # Utoa n) = Some (IPv4 os, n)"
proof -
  let ?q = "quad_string os"
  have "\<forall>c \<in> set ?q. c \<noteq> CHR ''/''" using quad_string_no_slash by metis
  then have "takeWhile (\<lambda>c. c \<noteq> CHR ''/'') (?q @ CHR ''/'' # Utoa n) = ?q"
    and "dropWhile (\<lambda>c. c \<noteq> CHR ''/'') (?q @ CHR ''/'' # Utoa n) = CHR ''/'' # Utoa n"
    by (simp_all add: takeWhile_append2 dropWhile_append2)
  with assms show ?thesis
    by (simp add: ParseCIDR_def ParseIP_quad_string BitLen_def)
qed

text \<open>
  The fields of a mask, put together, are the number whose \<open>n\<close> high bits are set.
\<close>

fun fields_val :: "nat \<Rightarrow> nat list \<Rightarrow> nat" where
  "fields_val w [] = 0"
| "fields_val w (f # fs) = f * 2 ^ (w * length fs) + fields_val w fs"

lemma length_CIDRMask [simp]: "length (CIDRMask w n k) = k"
  by (induction w n k rule: CIDRMask.induct) auto

lemma CIDRMask_numeral:
  "CIDRMask w n (numeral k) = (2 ^ w - 2 ^ (w - min n w)) # CIDRMask w (n - w) (pred_numeral k)"
  by (simp add: numeral_eq_Suc)

lemma CIDRMask_bound: "m \<in> set (CIDRMask w n k) \<Longrightarrow> m < 2 ^ w"
  by (induction w n k rule: CIDRMask.induct) auto

lemma CIDRMask_zero: "fields_val w (CIDRMask w 0 k) = 0"
  by (induction k) auto

lemma CIDRMask_val:
  "n \<le> w * k \<Longrightarrow> fields_val w (CIDRMask w n k) = 2 ^ (w * k) - 2 ^ (w * k - n)"
proof (induction w n k rule: CIDRMask.induct)
  case (1 w n)
  then show ?case by simp
next
  case (2 w n k)
  show ?case
  proof (cases "n \<le> w")
    case True
    have "(2 ^ w - 2 ^ (w - n)) * 2 ^ (w * k) = (2 ^ (w + w * k) - 2 ^ (w - n + w * k) :: nat)"
      by (simp add: diff_mult_distrib power_add)
    moreover from True have "w - n + w * k = w + w * k - n" by simp
    ultimately show ?thesis using True by (simp add: CIDRMask_zero)
  next
    case False
    with 2(2) have "n - w \<le> w * k" by simp
    with 2(1) have ih: "fields_val w (CIDRMask w (n - w) k) = 2 ^ (w * k) - 2 ^ (w * k - (n - w))" .
    have "(2 ^ w - 1) * 2 ^ (w * k) = (2 ^ (w + w * k) - 2 ^ (w * k) :: nat)"
      by (simp add: diff_mult_distrib power_add)
    moreover have "(2 :: nat) ^ (w * k - (n - w)) \<le> 2 ^ (w * k)" by simp
    moreover have "(2 :: nat) ^ (w * k) \<le> 2 ^ (w + w * k)" by simp
    moreover from False have "w * k - (n - w) = w + w * k - n" by simp
    ultimately show ?thesis using False ih by simp
  qed
qed

end
