(* ===== verification/Cluster_Records.thy ===== *)
theory Cluster_Records
  imports Memory_World Go_Net
begin

text \<open>
  The writing half of \<open>pkg/cluster\<close>: the functions of \<open>sync_status.go\<close> and \<open>tailscale.go\<close> that
  make sure that a record exists in NetBox (an FHRP group, a service template, a service, a
  prefix, an IP address). The first three have one shape, look up and create if absent, which
  the locale \<open>get_or_create\<close> states and proves idempotent once.
\<close>

section \<open>The code\<close>

definition serviceTemplateName :: string where
  "serviceTemplateName = ''Kubernetes endpoint''"

definition defaultControlPlanePort :: int32 where
  "defaultControlPlanePort = 6443"

definition getNextFHRPGroupID :: "'w netbox \<Rightarrow> ('w, int32 result) go" where
  "getNextFHRPGroupID nb w =
     (case IpamFhrpGroupsList nb (FhrpGroups\<lparr>fq_Limit := Some 1, fq_Ordering := Some ''-group_id''\<rparr>) w of
        (Inl err, w) \<Rightarrow> Some (Inl (Wrapf ''cannot list FHRP groups: '' err), w)
      | (Inr result, w) \<Rightarrow>
          if Count result = 0 then Some (Inr 1, w)
          else do {
            g \<leftarrow> index0 (Results result);
            Some (Inr (fg_GroupId g + 1), w)
          })"

definition getOrCreateFHRPGroup ::
  "'w netbox \<Rightarrow> string \<Rightarrow> int32 \<Rightarrow> ('w, (fhrp_group \<times> bool) result) go" where
  "getOrCreateFHRPGroup nb name groupID w =
     (case IpamFhrpGroupsList nb (FhrpGroups\<lparr>fq_Name := Some [name]\<rparr>) w of
        (Inl err, w) \<Rightarrow> Some (Inl (Wrapf (''cannot list FHRP groups by name '' @ Quote name @ '': '') err), w)
      | (Inr existing, w) \<Rightarrow>
          if Count existing > 0 then do {
            g \<leftarrow> index0 (Results existing);
            Some (Inr (g, False), w)
          }
          else
            let req = \<lparr>fr_Protocol = ''other'', fr_GroupId = groupID, fr_Name = name\<rparr>
            in (case IpamFhrpGroupsCreate nb req w of
                  (Inl err, w) \<Rightarrow> Some (Inl (Wrapf (''cannot create FHRP group '' @ Quote name @ '': '') err), w)
                | (Inr created, w) \<Rightarrow> Some (Inr (created, True), w)))"

definition getOrCreateServiceTemplate ::
  "'w netbox \<Rightarrow> int32 \<Rightarrow> ('w, (service_template \<times> bool) result) go" where
  "getOrCreateServiceTemplate nb port w =
     (case IpamServiceTemplatesList nb [serviceTemplateName] w of
        (Inl err, w) \<Rightarrow> Some (Inl (Wrapf ''cannot list ServiceTemplates: '' err), w)
      | (Inr existing, w) \<Rightarrow>
          if Count existing > 0 then do {
            t \<leftarrow> index0 (Results existing);
            Some (Inr (t, False), w)
          }
          else
            let req = \<lparr>tr_Name = serviceTemplateName, tr_Protocol = ''tcp'', tr_Ports = [port]\<rparr>
            in (case IpamServiceTemplatesCreate nb req w of
                  (Inl err, w) \<Rightarrow> Some (Inl (Wrapf ''cannot create ServiceTemplate: '' err), w)
                | (Inr created, w) \<Rightarrow> Some (Inr (created, True), w)))"

definition service_description :: "string \<Rightarrow> string" where
  "service_description clusterName = ''Kubernetes endpoint for '' @ clusterName"

definition getOrCreateService ::
  "'w netbox \<Rightarrow> int32 \<Rightarrow> string \<Rightarrow> int32 \<Rightarrow> ('w, (ipam_service \<times> bool) result) go" where
  "getOrCreateService nb fhrpGroupID clusterName port w =
     (let description = service_description clusterName in
      case IpamServicesList nb [description] w of
        (Inl err, w) \<Rightarrow> Some (Inl (Wrapf ''cannot list Services: '' err), w)
      | (Inr existing, w) \<Rightarrow>
          if Count existing > 0 then do {
            svc \<leftarrow> index0 (Results existing);
            Some (Inr (svc, False), w)
          }
          else
            let req = \<lparr>sr_ParentObjectType = ''ipam.fhrpgroup'', sr_ParentObjectId = scast fhrpGroupID,
                  sr_Name = serviceTemplateName, sr_Protocol = ''tcp'', sr_Ports = [port],
                  sr_Description = description\<rparr>
            in (case IpamServicesCreate nb req w of
                  (Inl err, w) \<Rightarrow>
                    Some (Inl (Wrapf (''cannot create Service for cluster '' @ Quote clusterName @ '': '') err), w)
                | (Inr created, w) \<Rightarrow> Some (Inr (created, True), w)))"

definition isHostname :: "string \<Rightarrow> bool" where
  "isHostname s \<longleftrightarrow> s \<noteq> [] \<and> ParseIP s = None"

text \<open>A failed patch of the DNS name is logged and the address is returned as it was found.\<close>

definition getOrCreateIPAddress ::
  "'w netbox \<Rightarrow> string \<Rightarrow> int32 \<Rightarrow> string \<Rightarrow> ('w, (ip_address \<times> bool) result) go" where
  "getOrCreateIPAddress nb ip fhrpGroupID dnsName w =
     (case IpamIpAddressesList nb (IpAddresses\<lparr>aq_Q := Some ip\<rparr>) w of
        (Inl err, w) \<Rightarrow> Some (Inl (Wrapf (''cannot query NetBox IPAM for '' @ ip @ '': '') err), w)
      | (Inr existing, w) \<Rightarrow>
          if Count existing > 0 then do {
            addr \<leftarrow> index0 (Results existing);
            (if isHostname dnsName \<and> GetDnsName addr = [] then
               (case IpamIpAddressesPatchDnsName nb (ip_Id addr) dnsName w of
                  (Inl err, w) \<Rightarrow> Some (Inr (addr, False), w)
                | (Inr updated, w) \<Rightarrow> Some (Inr (updated, True), w))
             else Some (Inr (addr, False), w))
          }
          else
            let cidr = (if CHR ''/'' \<notin> set ip then ip @ ''/32'' else ip);
                req = \<lparr>ar_Address = cidr, ar_Status = Some ''active'',
                  ar_AssignedObjectType = Some ''ipam.fhrpgroup'',
                  ar_AssignedObjectId = Some (scast fhrpGroupID),
                  ar_DnsName = (if isHostname dnsName then Some dnsName else None)\<rparr>
            in (case IpamIpAddressesCreate nb req w of
                  (Inl err, w) \<Rightarrow> Some (Inl (Wrapf (''cannot create NetBox IP address '' @ cidr @ '': '') err), w)
                | (Inr created, w) \<Rightarrow> Some (Inr (created, True), w)))"

definition getOrCreateIPAMPrefix :: "'w netbox \<Rightarrow> string \<Rightarrow> ('w, unit) call" where
  "getOrCreateIPAMPrefix nb ip w =
     (case IpamPrefixesList nb (Prefixes\<lparr>pq_Contains := Some ip\<rparr>) w of
        (Inl err, w) \<Rightarrow> (Inl (Wrapf (''cannot query IPAM prefixes for '' @ ip @ '': '') err), w)
      | (Inr existing, w) \<Rightarrow>
          if Count existing > 0 then (Inr (), w)
          else
            let cidr = ip @ ''/32''
            in (case IpamPrefixesCreate nb cidr w of
                  (Inl err, w) \<Rightarrow> (Inl (Wrapf (''cannot create IPAM prefix '' @ cidr @ '': '') err), w)
                | (Inr _, w) \<Rightarrow> (Inr (), w)))"

section \<open>Look up, create if absent\<close>

locale get_or_create =
  fixes laws :: "'w netbox \<Rightarrow> ('w \<Rightarrow> netbox_db) \<Rightarrow> bool"
    and goc :: "'w netbox \<Rightarrow> 'r \<Rightarrow> ('w, ('a \<times> bool) result) go"
    and lookup :: "'w netbox \<Rightarrow> 'r \<Rightarrow> ('w, 'a page) call"
    and create :: "'w netbox \<Rightarrow> 'r \<Rightarrow> ('w, 'a) call"
    and table :: "netbox_db \<Rightarrow> 'a list"
    and insert_row :: "'a \<Rightarrow> netbox_db \<Rightarrow> netbox_db"
    and matches :: "'r \<Rightarrow> 'a \<Rightarrow> bool"
    and made :: "'r \<Rightarrow> 'a \<Rightarrow> bool"
    and list_msg create_msg :: "'r \<Rightarrow> string"
  assumes shape: "goc nb r w =
      (case lookup nb r w of
         (Inl e, w) \<Rightarrow> Some (Inl (Wrapf (list_msg r) e), w)
       | (Inr p, w) \<Rightarrow>
           if Count p > 0 then Option.bind (index0 (Results p)) (\<lambda>x. Some (Inr (x, False), w))
           else (case create nb r w of
                   (Inl e, w) \<Rightarrow> Some (Inl (Wrapf (create_msg r) e), w)
                 | (Inr x, w) \<Rightarrow> Some (Inr (x, True), w)))"
    and lookup_pure: "laws nb v \<Longrightarrow> lookup nb r w = (res, w') \<Longrightarrow> v w' = v w"
    and lookup_page: "laws nb v \<Longrightarrow> lookup nb r w = (Inr p, w') \<Longrightarrow>
      page_of p (filter (matches r) (table (v w)))"
    and create_ok: "laws nb v \<Longrightarrow> create nb r w = (Inr x, w') \<Longrightarrow> v w' = insert_row x (v w) \<and> made r x"
    and create_err: "laws nb v \<Longrightarrow> create nb r w = (Inl e, w') \<Longrightarrow> v w' = v w"
    and table_insert: "table (insert_row x db) = table db @ [x]"
    and made_matches: "made r x \<Longrightarrow> matches r x"
begin

text \<open>The three ways a call can go under the laws; a panic is not one of them.\<close>

lemma outcomes:
  assumes "laws nb v"
  obtains (err) e w' where "goc nb r w = Some (Inl e, w')" and "v w' = v w"
    | (found) x w' where "goc nb r w = Some (Inr (x, False), w')" and "v w' = v w"
        and "index0 (filter (matches r) (table (v w))) = Some x"
    | (new) x w' where "goc nb r w = Some (Inr (x, True), w')" and "v w' = insert_row x (v w)"
        and "made r x" and "filter (matches r) (table (v w)) = []"
proof (cases "lookup nb r w" rule: call_cases)
  case (err e w1)
  then have "goc nb r w = Some (Inl (Wrapf (list_msg r) e), w1)" by (simp add: shape)
  then show ?thesis using lookup_pure [OF assms err] by (rule that(1))
next
  case (ok p w1)
  note v1 = lookup_pure [OF assms ok] and p = lookup_page [OF assms ok]
  show ?thesis
  proof (cases "filter (matches r) (table (v w)) = []")
    case False
    with page_of_Count(1) [OF p] have "Count p > 0" by simp
    moreover from False page_of_index0 [OF p] obtain x where
      "index0 (Results p) = Some x" "index0 (filter (matches r) (table (v w))) = Some x"
      by (cases "filter (matches r) (table (v w))") auto
    ultimately have "goc nb r w = Some (Inr (x, False), w1)" using ok by (simp add: shape)
    then show ?thesis using v1 \<open>index0 (filter _ _) = Some x\<close> by (rule that(2))
  next
    case True
    with page_of_Count(1) [OF p] have none: "\<not> Count p > 0" by simp
    show ?thesis
    proof (cases "create nb r w1" rule: call_cases)
      case (err e w2)
      with ok none have "goc nb r w = Some (Inl (Wrapf (create_msg r) e), w2)" by (simp add: shape)
      then show ?thesis by (rule that(1)) (simp add: create_err [OF assms err] v1)
    next
      case made: (ok x w2)
      with ok none have "goc nb r w = Some (Inr (x, True), w2)" by (simp add: shape)
      then show ?thesis by (rule that(3)) (use create_ok [OF assms made] v1 True in simp_all)
    qed
  qed
qed

lemma total: "laws nb v \<Longrightarrow> \<exists>res w'. goc nb r w = Some (res, w')"
  by (cases rule: outcomes [where r = r and w = w]) auto

lemma failed: "laws nb v \<Longrightarrow> goc nb r w = Some (Inl e, w') \<Longrightarrow> v w' = v w"
  by (cases rule: outcomes [where nb = nb and v = v and r = r and w = w]) auto

lemma ensured:
  assumes "laws nb v" and "goc nb r w = Some (Inr (x, b), w')"
  shows "v w' = (if b then insert_row x (v w) else v w)"
    and "index0 (filter (matches r) (table (v w'))) = Some x"
    and "b \<longleftrightarrow> filter (matches r) (table (v w)) = []"
    and "b \<Longrightarrow> made r x"
  using assms(2)
  by (cases rule: outcomes [OF assms(1), where r = r and w = w]; force simp: table_insert made_matches)+

lemma ensured_row:
  assumes "laws nb v" and "goc nb r w = Some (Inr (x, b), w')"
  shows "x \<in> set (table (v w'))" and "matches r x"
proof -
  from ensured(2) [OF assms] have "x \<in> set (filter (matches r) (table (v w')))"
    by (rule index0_in_set)
  then show "x \<in> set (table (v w'))" and "matches r x" by simp_all
qed

text \<open>Rows are never removed or changed, only added.\<close>

lemma table_grows:
  assumes "laws nb v" and "goc nb r w = Some (res, w')"
  shows "\<exists>xs. table (v w') = table (v w) @ xs"
  using assms(2)
  by (cases rule: outcomes [OF assms(1), where r = r and w = w]) (auto simp: table_insert)

text \<open>Once ensured, a record is found again and nothing is written.\<close>

lemma settled:
  assumes "laws nb v" and "index0 (filter (matches r) (table (v w))) = Some x"
    and "goc nb r w = Some (res, w')"
  shows "v w' = v w" and "res = Inr (y, b) \<Longrightarrow> y = x \<and> \<not> b"
  using assms(2,3)
  by (cases rule: outcomes [OF assms(1), where r = r and w = w]; simp)+

lemma index0_stable:
  "index0 (filter (matches r) (table db)) = Some x \<Longrightarrow> table db' = table db @ xs \<Longrightarrow>
   index0 (filter (matches r) (table db')) = Some x"
  by (cases "filter (matches r) (table db)") auto

end

interpretation fhrp: get_or_create fhrp_laws
  "\<lambda>nb r. getOrCreateFHRPGroup nb (fst r) (snd r)"
  "\<lambda>nb r. IpamFhrpGroupsList nb (FhrpGroups\<lparr>fq_Name := Some [fst r]\<rparr>)"
  "\<lambda>nb r. IpamFhrpGroupsCreate nb \<lparr>fr_Protocol = ''other'', fr_GroupId = snd r, fr_Name = fst r\<rparr>"
  db_groups "\<lambda>g db. db\<lparr>db_groups := db_groups db @ [g]\<rparr>"
  "\<lambda>r g. fg_Name g = fst r" "\<lambda>r g. fg_Name g = fst r \<and> fg_GroupId g = snd r"
  "\<lambda>r. ''cannot list FHRP groups by name '' @ Quote (fst r) @ '': ''"
  "\<lambda>r. ''cannot create FHRP group '' @ Quote (fst r) @ '': ''"
proof
  show "v w' = v w" if "fhrp_laws nb v" "IpamFhrpGroupsList nb (FhrpGroups\<lparr>fq_Name := Some [fst r]\<rparr>) w = (res, w')"
    for nb :: "'w netbox" and v r w res w' using that by (rule fhrp_lawsD(1))
qed (unfold getOrCreateFHRPGroup_def Let_def, rule refl,
    auto dest: fhrp_lawsD(2) write_callD [OF fhrp_lawsD(3)])

interpretation tmpl: get_or_create template_laws
  getOrCreateServiceTemplate
  "\<lambda>nb port. IpamServiceTemplatesList nb [serviceTemplateName]"
  "\<lambda>nb port. IpamServiceTemplatesCreate nb
     \<lparr>tr_Name = serviceTemplateName, tr_Protocol = ''tcp'', tr_Ports = [port]\<rparr>"
  db_templates "\<lambda>t db. db\<lparr>db_templates := db_templates db @ [t]\<rparr>"
  "\<lambda>port t. st_Name t = serviceTemplateName"
  "\<lambda>port t. st_Name t = serviceTemplateName \<and> st_Ports t = [port]"
  "\<lambda>port. ''cannot list ServiceTemplates: ''" "\<lambda>port. ''cannot create ServiceTemplate: ''"
proof
  show "v w' = v w" if "template_laws nb v" "IpamServiceTemplatesList nb [serviceTemplateName] w = (res, w')"
    for nb :: "'w netbox" and v w res w' using that by (rule template_lawsD(1))
qed (unfold getOrCreateServiceTemplate_def Let_def, rule refl,
    auto dest: template_lawsD(2) write_callD [OF template_lawsD(3)])

interpretation svc: get_or_create service_laws
  "\<lambda>nb (gid, name, port). getOrCreateService nb gid name port"
  "\<lambda>nb (gid, name, port). IpamServicesList nb [service_description name]"
  "\<lambda>nb (gid, name, port). IpamServicesCreate nb \<lparr>sr_ParentObjectType = ''ipam.fhrpgroup'',
     sr_ParentObjectId = scast gid, sr_Name = serviceTemplateName, sr_Protocol = ''tcp'',
     sr_Ports = [port], sr_Description = service_description name\<rparr>"
  db_services "\<lambda>s db. db\<lparr>db_services := db_services db @ [s]\<rparr>"
  "\<lambda>(gid, name, port) s. sv_Description s = service_description name"
  "\<lambda>(gid, name, port) s. sv_Description s = service_description name \<and> sv_Ports s = [port] \<and>
     sv_ParentObjectId s = scast gid"
  "\<lambda>r. ''cannot list Services: ''"
  "\<lambda>(gid, name, port). ''cannot create Service for cluster '' @ Quote name @ '': ''"
proof
  show "v w' = v w" if "service_laws nb v"
      "(case r of (gid :: int32, name, port :: int32) \<Rightarrow> IpamServicesList nb [service_description name]) w = (res, w')"
    for nb :: "'w netbox" and v w res w' r
    using that by (cases r) (simp add: service_lawsD(1))
qed (unfold getOrCreateService_def Let_def case_prod_beta, rule refl,
    auto dest: service_lawsD(2) write_callD [OF service_lawsD(3)])

section \<open>Group numbers\<close>

lemma sint_succ32:
  fixes x :: int32
  assumes "sint x < 2 ^ 31 - 1"
  shows "sint (x + 1) = sint x + 1"
proof -
  have x: "x + 1 = word_of_int (sint x + 1)" by (simp add: wi_hom_syms)
  have "int32_range (sint x + 1)"
    using int32_range_sint [of x] assms by (simp add: int32_range_def)
  then show ?thesis unfolding x by (rule sint_word_of_int32)
qed

lemma getNextFHRPGroupID_spec:
  assumes "fhrp_laws nb v" and "fhrp_order_law nb v" and "getNextFHRPGroupID nb w = Some (Inr n, w')"
  shows "v w' = v w"
    and "db_groups (v w) = [] \<Longrightarrow> n = 1"
    and "db_groups (v w) \<noteq> [] \<Longrightarrow> \<exists>g \<in> set (db_groups (v w)). n = fg_GroupId g + 1 \<and>
           (\<forall>g' \<in> set (db_groups (v w)). sint (fg_GroupId g') \<le> sint (fg_GroupId g))"
proof -
  let ?q = "FhrpGroups\<lparr>fq_Limit := Some 1, fq_Ordering := Some ''-group_id''\<rparr>"
  from assms(3) obtain p where call: "IpamFhrpGroupsList nb ?q w = (Inr p, w')"
    and n: "if Count p = 0 then n = 1 else \<exists>g. index0 (Results p) = Some g \<and> n = fg_GroupId g + 1"
    by (auto simp: getNextFHRPGroupID_def Option.bind_eq_Some_conv split: sum.splits prod.splits if_splits)
  show "v w' = v w" by (rule fhrp_lawsD(1) [OF assms(1) call])
  from assms(2) call have p: "Count p = int (length (db_groups (v w)))"
    "db_groups (v w) \<noteq> [] \<Longrightarrow> \<exists>g \<in> set (db_groups (v w)). Results p = [g] \<and>
       (\<forall>g' \<in> set (db_groups (v w)). sint (fg_GroupId g') \<le> sint (fg_GroupId g))"
    unfolding fhrp_order_law_def by blast+
  from p(1) n show "db_groups (v w) = [] \<Longrightarrow> n = 1" by simp
  from p n show "db_groups (v w) \<noteq> [] \<Longrightarrow> \<exists>g \<in> set (db_groups (v w)). n = fg_GroupId g + 1 \<and>
       (\<forall>g' \<in> set (db_groups (v w)). sint (fg_GroupId g') \<le> sint (fg_GroupId g))"
    by fastforce
qed

section \<open>Addresses and prefixes\<close>

text \<open>The state in which nothing is left to do for an address: it is there, with a DNS name if one is wanted.\<close>

definition ip_settled ::
  "(string \<Rightarrow> ip_address \<Rightarrow> bool) \<Rightarrow> string \<Rightarrow> string \<Rightarrow> netbox_db \<Rightarrow> bool" where
  "ip_settled matches ip dnsName db \<longleftrightarrow>
     (\<exists>a. index0 (filter (matches ip) (db_ips db)) = Some a \<and> (isHostname dnsName \<longrightarrow> GetDnsName a \<noteq> []))"

lemma index0_filter_map:
  "(\<And>a. P (f a) = P a) \<Longrightarrow> index0 (filter P (map f xs)) = map_option f (index0 (filter P xs))"
  by (induction xs) auto

lemma index0_filter_None [simp]: "index0 xs = None \<longleftrightarrow> xs = []"
  by (cases xs) auto

definition set_dns :: "int32 \<Rightarrow> string \<Rightarrow> netbox_db \<Rightarrow> netbox_db" where
  "set_dns i n db = db\<lparr>db_ips := map (\<lambda>b. if ip_Id b = i then b\<lparr>ip_DnsName := Some n\<rparr> else b) (db_ips db)\<rparr>"

definition ip_create_request :: "string \<Rightarrow> int32 \<Rightarrow> string \<Rightarrow> ip_request" where
  "ip_create_request ip gid dns = \<lparr>ar_Address = (if CHR ''/'' \<notin> set ip then ip @ ''/32'' else ip),
     ar_Status = Some ''active'', ar_AssignedObjectType = Some ''ipam.fhrpgroup'',
     ar_AssignedObjectId = Some (scast gid), ar_DnsName = (if isHostname dns then Some dns else None)\<rparr>"

lemma ip_listing:
  assumes "ip_laws nb v matches"
  obtains (err) e w1 where
      "getOrCreateIPAddress nb ip gid dns w = Some (Inl (Wrapf (''cannot query NetBox IPAM for '' @ ip @ '': '') e), w1)"
      and "v w1 = v w"
    | (none) w1 where "filter (matches ip) (db_ips (v w)) = []" and "v w1 = v w"
      and "getOrCreateIPAddress nb ip gid dns w =
        (case IpamIpAddressesCreate nb (ip_create_request ip gid dns) w1 of
           (Inl e, w) \<Rightarrow> Some (Inl (Wrapf (''cannot create NetBox IP address '' @
               ar_Address (ip_create_request ip gid dns) @ '': '') e), w)
         | (Inr a, w) \<Rightarrow> Some (Inr (a, True), w))"
    | (some) a w1 where "index0 (filter (matches ip) (db_ips (v w))) = Some a" and "v w1 = v w"
      and "getOrCreateIPAddress nb ip gid dns w =
        (if isHostname dns \<and> GetDnsName a = [] then
           (case IpamIpAddressesPatchDnsName nb (ip_Id a) dns w1 of
              (Inl err, w) \<Rightarrow> Some (Inr (a, False), w)
            | (Inr updated, w) \<Rightarrow> Some (Inr (updated, True), w))
         else Some (Inr (a, False), w1))"
proof (cases "IpamIpAddressesList nb (IpAddresses\<lparr>aq_Q := Some ip\<rparr>) w" rule: call_cases)
  case (err e w1)
  with that(1) ip_lawsD(1) [OF assms err] show ?thesis by (simp add: getOrCreateIPAddress_def)
next
  case (ok p w1)
  note v1 = ip_lawsD(1) [OF assms ok] and p = ip_lawsD(2) [OF assms ok]
  show ?thesis
  proof (cases "filter (matches ip) (db_ips (v w))")
    case Nil
    with page_of_Count(1) [OF p] have "\<not> Count p > 0" by simp
    with ok show ?thesis
      by (intro that(2) [OF Nil v1])
        (unfold getOrCreateIPAddress_def ip_create_request_def Let_def ip_request.select_convs, simp)
  next
    case (Cons a as)
    with page_of_Count(1) [OF p] page_of_index0 [OF p] have "Count p > 0" "index0 (Results p) = Some a"
      by auto
    with ok show ?thesis
      using Cons by (intro that(3) [OF _ v1, of a]) (simp_all add: getOrCreateIPAddress_def)
  qed
qed

lemma getOrCreateIPAddress_outcomes:
  assumes "ip_laws nb v matches"
  obtains (err) e w' where "getOrCreateIPAddress nb ip gid dns w = Some (Inl e, w')" and "v w' = v w"
        and "error_message e \<noteq> []"
    | (found) a w' where "getOrCreateIPAddress nb ip gid dns w = Some (Inr (a, False), w')"
        and "v w' = v w" and "index0 (filter (matches ip) (db_ips (v w))) = Some a"
    | (named) a a' w' where "getOrCreateIPAddress nb ip gid dns w = Some (Inr (a', True), w')"
        and "index0 (filter (matches ip) (db_ips (v w))) = Some a"
        and "isHostname dns" and "GetDnsName a = []" and "v w' = set_dns (ip_Id a) dns (v w)"
    | (new) a w' where "getOrCreateIPAddress nb ip gid dns w = Some (Inr (a, True), w')"
        and "filter (matches ip) (db_ips (v w)) = []"
        and "ip_Address a = (if CHR ''/'' \<in> set ip then ip else ip @ ''/32'')"
        and "ip_DnsName a = (if isHostname dns then Some dns else None)"
        and "v w' = (v w)\<lparr>db_ips := db_ips (v w) @ [a]\<rparr>"
  using assms
proof (cases rule: ip_listing [where ip = ip and gid = gid and dns = dns and w = w])
  case (err e w1)
  then show ?thesis by (rule that(1)) simp
next
  case (none w1)
  note W = write_callD [OF ip_lawsD(3) [OF assms, of "ip_create_request ip gid dns"]]
  show ?thesis
  proof (cases "IpamIpAddressesCreate nb (ip_create_request ip gid dns) w1" rule: call_cases)
    case (err e w2)
    show ?thesis
      by (rule that(1) [OF none(3) [unfolded err prod.case sum.case]])
        (use W(2) [OF err] none(2) in simp_all)
  next
    case (ok a w2)
    show ?thesis
      by (rule that(4) [OF none(3) [unfolded ok prod.case sum.case] none(1)])
        (use W(1) [OF ok] none(2) in \<open>auto simp: ip_create_request_def\<close>)
  qed
next
  case (some a w1)
  note W = write_callD [OF ip_lawsD(4) [OF assms, of "ip_Id a" dns]]
  show ?thesis
  proof (cases "isHostname dns \<and> GetDnsName a = []")
    case False
    with some show ?thesis by (intro that(2) [of a w1]) simp_all
  next
    case True
    show ?thesis
    proof (cases "IpamIpAddressesPatchDnsName nb (ip_Id a) dns w1" rule: call_cases)
      case (err e w2)
      with True some W(2) [OF err] show ?thesis by (intro that(2) [of a w2]) simp_all
    next
      case (ok a' w2)
      with True some W(1) [OF ok] show ?thesis
        by (intro that(3) [of a' w2 a]) (simp_all add: set_dns_def)
    qed
  qed
qed

lemma ip_matches_set_dns:
  assumes "ip_laws nb v matches"
  shows "index0 (filter (matches q) (db_ips (set_dns i n db))) =
    map_option (\<lambda>b. if ip_Id b = i then b\<lparr>ip_DnsName := Some n\<rparr> else b) (index0 (filter (matches q) (db_ips db)))"
  unfolding set_dns_def
  by (simp, rule index0_filter_map) (simp add: ip_lawsD(5) [OF assms])

text \<open>A change reported is a change that settles the address.\<close>

lemma getOrCreateIPAddress_settles:
  assumes "ip_laws nb v matches" and "getOrCreateIPAddress nb ip gid dns w = Some (Inr (a, True), w')"
  shows "ip_settled matches ip dns (v w')"
  using assms(1)
proof (cases rule: getOrCreateIPAddress_outcomes [where ip = ip and gid = gid and dns = dns and w = w])
  case (named b a' w1)
  with assms(2) ip_matches_set_dns [OF assms(1), of ip "ip_Id b" dns "v w"] show ?thesis
    by (auto simp: ip_settled_def isHostname_def GetDnsName_def)
next
  case (new b w1)
  with ip_lawsD(6) [OF assms(1), of b ip] have "matches ip b" by (simp split: if_splits)
  with new assms(2) show ?thesis
    by (auto simp: ip_settled_def isHostname_def GetDnsName_def)
qed (use assms(2) in auto)

lemma getOrCreateIPAddress_quiet:
  assumes "ip_laws nb v matches" and "ip_settled matches ip dns (v w)"
    and "getOrCreateIPAddress nb ip gid dns w = Some (r, w')"
  shows "v w' = v w \<and> (\<forall>a b. r = Inr (a, b) \<longrightarrow> \<not> b)"
  using assms(1)
  by (cases rule: getOrCreateIPAddress_outcomes [where ip = ip and gid = gid and dns = dns and w = w])
    (use assms(2,3) in \<open>auto simp: ip_settled_def\<close>)

text \<open>No address is lost, moved or renumbered, and at most one is added, at the end.\<close>

lemma getOrCreateIPAddress_rows:
  assumes "ip_laws nb v matches" and "getOrCreateIPAddress nb ip gid dns w = Some (r, w')"
  shows "\<exists>new. length new \<le> 1 \<and>
    map (\<lambda>a. (ip_Id a, ip_Address a)) (db_ips (v w')) =
    map (\<lambda>a. (ip_Id a, ip_Address a)) (db_ips (v w)) @ new"
  using assms(1)
proof (cases rule: getOrCreateIPAddress_outcomes [where ip = ip and gid = gid and dns = dns and w = w])
  case (named b a' w1)
  with assms(2) show ?thesis by (intro exI [of _ "[]"]) (auto simp: set_dns_def)
next
  case (new a w1)
  with assms(2) show ?thesis by (intro exI [of _ "[(ip_Id a, ip_Address a)]"]) auto
qed (use assms(2) in auto)

lemma getOrCreateIPAMPrefix_outcomes:
  assumes "prefix_laws nb v contains" and "getOrCreateIPAMPrefix nb ip w = (r, w')"
  shows "r = Inr () \<Longrightarrow> \<exists>p \<in> set (db_prefixes (v w')). contains ip p"
    and "filter (contains ip) (db_prefixes (v w)) \<noteq> [] \<or> isl r \<Longrightarrow> v w' = v w"
proof -
  show "\<exists>p \<in> set (db_prefixes (v w')). contains ip p" if "r = Inr ()"
  proof (cases "IpamPrefixesList nb (Prefixes\<lparr>pq_Contains := Some ip\<rparr>) w" rule: call_cases)
    case (err e w1)
    with assms(2) that show ?thesis by (simp add: getOrCreateIPAMPrefix_def)
  next
    case (ok p w1)
    note v1 = prefix_lawsD(1) [OF assms(1) ok] and page = prefix_lawsD(2) [OF assms(1) ok]
    show ?thesis
    proof (cases "filter (contains ip) (db_prefixes (v w)) = []")
      case False
      then obtain x where "x \<in> set (db_prefixes (v w))" "contains ip x" by (auto simp: filter_empty_conv)
      with False page_of_Count(1) [OF page] ok v1 assms(2) show ?thesis
        by (auto simp: getOrCreateIPAMPrefix_def)
    next
      case True
      with page_of_Count(1) [OF page] ok assms(2) that obtain x where
        "IpamPrefixesCreate nb (ip @ ''/32'') w1 = (Inr x, w')"
        by (auto simp: getOrCreateIPAMPrefix_def Let_def split: prod.splits sum.splits)
      from write_callD(1) [OF prefix_lawsD(3) [OF assms(1)] this] prefix_lawsD(4) [OF assms(1), of x ip]
      show ?thesis by auto
    qed
  qed
  show "v w' = v w" if "filter (contains ip) (db_prefixes (v w)) \<noteq> [] \<or> isl r"
  proof (cases "IpamPrefixesList nb (Prefixes\<lparr>pq_Contains := Some ip\<rparr>) w" rule: call_cases)
    case (err e w1)
    with assms(2) prefix_lawsD(1) [OF assms(1) err] show ?thesis by (simp add: getOrCreateIPAMPrefix_def)
  next
    case (ok p w1)
    note v1 = prefix_lawsD(1) [OF assms(1) ok] and page = prefix_lawsD(2) [OF assms(1) ok]
    show ?thesis
      using that page_of_Count(1) [OF page] ok v1 assms(2)
        write_callD(2) [OF prefix_lawsD(3) [OF assms(1)], of "ip @ ''/32''" w1]
      by (auto simp: getOrCreateIPAMPrefix_def Let_def split: prod.splits sum.splits if_splits)
  qed
qed

section \<open>Properties\<close>

text \<open>
  \<open>getOrCreateFHRPGroup\<close> is idempotent: when it succeeds, the group it returns carries the
  cluster's name and is in NetBox, created (with the given number) exactly when no group of that
  name was there; a second call for that name, whatever number it proposes, never panics, writes
  nothing and, if it succeeds, finds the same group.
\<close>
lemma fhrp_group_ensured_once:
  assumes "fhrp_laws nb v" and "getOrCreateFHRPGroup nb name gid w = Some (Inr (g, b), w1)" and "v w2 = v w1"
  shows "fg_Name g = name \<and> g \<in> set (db_groups (v w1)) \<and>
    (b \<longleftrightarrow> name \<notin> fg_Name ` set (db_groups (v w))) \<and> (b \<longrightarrow> fg_GroupId g = gid) \<and>
    (\<exists>r w3. getOrCreateFHRPGroup nb name gid' w2 = Some (r, w3) \<and> v w3 = v w1 \<and>
       (\<forall>g' b'. r = Inr (g', b') \<longrightarrow> g' = g \<and> \<not> b'))"
proof -
  have first: "getOrCreateFHRPGroup nb (fst (name, gid)) (snd (name, gid)) w = Some (Inr (g, b), w1)"
    using assms(2) by simp
  note E = fhrp.ensured [OF assms(1) first] fhrp.ensured_row [OF assms(1) first]
  from fhrp.total [OF assms(1), of "(name, gid')" w2] obtain r w3 where
    again: "getOrCreateFHRPGroup nb name gid' w2 = Some (r, w3)" by auto
  have "index0 (filter (\<lambda>g. fg_Name g = name) (db_groups (v w2))) = Some g"
    using E(2) assms(3) by simp
  then have "v w3 = v w2 \<and> (\<forall>g' b'. r = Inr (g', b') \<longrightarrow> g' = g \<and> \<not> b')"
    using fhrp.settled [OF assms(1), of "(name, gid')" w2 g r w3] again by fastforce
  moreover have "b \<longleftrightarrow> name \<notin> fg_Name ` set (db_groups (v w))"
    using E(3) by (auto simp: filter_empty_conv)
  moreover have "fg_Name g = name" and "g \<in> set (db_groups (v w1))" and "b \<longrightarrow> fg_GroupId g = gid"
    using E(4-6) by simp_all
  ultimately show ?thesis using again assms(3) by (metis (no_types))
qed

text \<open>
  C26. The number \<open>getNextFHRPGroupID\<close> proposes is free: it is greater than the number of every
  group in NetBox, and it is 1 when there is none. The one exception is the wrap-around of
  \<open>int32\<close>: if the greatest number is 2147483647 the proposal is -2147483648.
\<close>
theorem next_group_id_fresh:
  assumes "fhrp_laws nb v" and "fhrp_order_law nb v" and "getNextFHRPGroupID nb w = Some (Inr n, w')"
  shows "v w' = v w \<and> (db_groups (v w) = [] \<longrightarrow> n = 1) \<and>
    (if \<exists>g \<in> set (db_groups (v w)). sint (fg_GroupId g) = 2147483647 then sint n = - 2147483648
     else \<forall>g \<in> set (db_groups (v w)). sint (fg_GroupId g) < sint n)"
proof (cases "db_groups (v w) = []")
  case True
  with getNextFHRPGroupID_spec [OF assms] show ?thesis by simp
next
  case False
  with getNextFHRPGroupID_spec [OF assms] obtain g where g: "g \<in> set (db_groups (v w))"
    "n = fg_GroupId g + 1" "\<forall>g' \<in> set (db_groups (v w)). sint (fg_GroupId g') \<le> sint (fg_GroupId g)"
    and v: "v w' = v w" by auto
  have le: "sint (fg_GroupId g') \<le> 2147483647" for g' :: fhrp_group
    using int32_range_sint [of "fg_GroupId g'"] by (simp add: int32_range_def)
  show ?thesis
  proof (cases "sint (fg_GroupId g) = 2147483647")
    case True
    then have "fg_GroupId g = word_of_int 2147483647"
      by (metis of_int_sint scast_id)
    then have "n = word_of_int (- 2147483648)" using g(2) by simp
    then have "sint n = - 2147483648"
      using sint_word_of_int32 [of "- 2147483648"] by (simp only: int32_range_def) simp
    with True g(1) v False show ?thesis by auto
  next
    case no: False
    with le [of g] have "sint (fg_GroupId g) < 2147483647" by (simp add: less_le)
    moreover from this have "sint n = sint (fg_GroupId g) + 1" using g(2) sint_succ32 by simp
    ultimately show ?thesis using g(3) v False by fastforce
  qed
qed

theorem next_group_id_fresh_witness:
  "\<exists>n. getNextFHRPGroupID mem_netbox (empty_mem\<lparr>m_groups := [\<lparr>fg_Id = 1, fg_Name = ''a'', fg_GroupId = 4\<rparr>,
        \<lparr>fg_Id = 2, fg_Name = ''b'', fg_GroupId = 9\<rparr>]\<rparr>) = Some (Inr n,
        empty_mem\<lparr>m_groups := [\<lparr>fg_Id = 1, fg_Name = ''a'', fg_GroupId = 4\<rparr>,
        \<lparr>fg_Id = 2, fg_Name = ''b'', fg_GroupId = 9\<rparr>]\<rparr>) \<and> 9 < sint n"
proof -
  let ?w = "empty_mem\<lparr>m_groups := [\<lparr>fg_Id = 1, fg_Name = ''a'', fg_GroupId = 4\<rparr>,
        \<lparr>fg_Id = 2, fg_Name = ''b'', fg_GroupId = 9\<rparr>]\<rparr>"
  have call: "getNextFHRPGroupID mem_netbox ?w = Some (Inr 10, ?w)" by code_simp
  from next_group_id_fresh [OF mem_fhrp_laws mem_fhrp_order_law call] call show ?thesis
    by (simp add: mem_view_def)
qed

text \<open>
  \<open>getOrCreateIPAddress\<close> is safe to repeat: it never panics; the addresses already in NetBox
  keep their identity and their text and at most one is added; and once a call has reported a
  change, the address is there (with its DNS name, if the wanted name is a hostname) and any
  further call for it changes nothing and reports no change.
\<close>
lemma ip_address_ensured_once:
  assumes "ip_laws nb v matches" and "getOrCreateIPAddress nb ip gid dns w = Some (r, w1)"
  shows "(\<exists>new. length new \<le> 1 \<and> map (\<lambda>a. (ip_Id a, ip_Address a)) (db_ips (v w1)) =
            map (\<lambda>a. (ip_Id a, ip_Address a)) (db_ips (v w)) @ new) \<and>
    (isl r \<longrightarrow> v w1 = v w) \<and>
    (\<forall>a. r = Inr (a, True) \<longrightarrow> (\<exists>b \<in> set (db_ips (v w1)). matches ip b \<and> (isHostname dns \<longrightarrow> GetDnsName b \<noteq> [])) \<and>
       (\<forall>w2. v w2 = v w1 \<longrightarrow> (\<exists>r' w3. getOrCreateIPAddress nb ip gid' dns w2 = Some (r', w3) \<and> v w3 = v w1 \<and>
          (\<forall>a' b'. r' = Inr (a', b') \<longrightarrow> \<not> b'))))"
proof (intro conjI impI allI)
  show "\<exists>new. length new \<le> 1 \<and> map (\<lambda>a. (ip_Id a, ip_Address a)) (db_ips (v w1)) =
      map (\<lambda>a. (ip_Id a, ip_Address a)) (db_ips (v w)) @ new"
    by (rule getOrCreateIPAddress_rows [OF assms])
  show "v w1 = v w" if "isl r"
    using assms(1) by (cases rule: getOrCreateIPAddress_outcomes [where ip = ip and gid = gid and dns = dns and w = w])
      (use assms(2) that in auto)
  fix a assume r: "r = Inr (a, True)"
  note settled = getOrCreateIPAddress_settles [OF assms(1), of ip gid dns w a w1, unfolded r [symmetric], OF assms(2)]
  then show "\<exists>b \<in> set (db_ips (v w1)). matches ip b \<and> (isHostname dns \<longrightarrow> GetDnsName b \<noteq> [])"
    unfolding ip_settled_def by (elim exE conjE) (drule index0_in_set, auto)
  fix w2 assume w2: "v w2 = v w1"
  obtain r' w3 where again: "getOrCreateIPAddress nb ip gid' dns w2 = Some (r', w3)"
    using assms(1) by (cases rule: getOrCreateIPAddress_outcomes [where ip = ip and gid = gid' and dns = dns and w = w2]) auto
  from settled w2 have "ip_settled matches ip dns (v w2)" by simp
  from getOrCreateIPAddress_quiet [OF assms(1) this again] again w2
  show "\<exists>r' w3. getOrCreateIPAddress nb ip gid' dns w2 = Some (r', w3) \<and> v w3 = v w1 \<and>
      (\<forall>a' b'. r' = Inr (a', b') \<longrightarrow> \<not> b')" by auto
qed

text \<open>
  \<open>getOrCreateIPAMPrefix\<close>, when it succeeds, leaves NetBox with a prefix that contains the
  address; it writes nothing when there already is one, and nothing when it fails.
\<close>
lemma ipam_prefix_ensured:
  assumes "prefix_laws nb v contains" and "getOrCreateIPAMPrefix nb ip w = (r, w')"
  shows "(r = Inr () \<longrightarrow> (\<exists>p \<in> set (db_prefixes (v w')). contains ip p)) \<and>
    ((\<exists>p \<in> set (db_prefixes (v w)). contains ip p) \<or> isl r \<longrightarrow> v w' = v w)"
  using getOrCreateIPAMPrefix_outcomes [OF assms] by (auto simp: filter_empty_conv)

end
