(* ===== verification/Go_Json.thy ===== *)
theory Go_Json
  imports Go_Net
begin

text \<open>
  \<open>json.Unmarshal(data, &ips)\<close> for \<open>ips []string\<close>: an array of strings and nulls, anything else is
  an error (another JSON value inside the array, too: its type does not fit). A null element
  leaves the empty string of the new slice. Escapes are decoded, with surrogate pairs joined
  and lone surrogates replaced by U+FFFD; unescaped bytes are kept as they are.
\<close>

section \<open>Strings\<close>

datatype json_unit = Plain char | Escaped nat

text \<open>The units of a string up to its closing quote, and the text after it.\<close>

fun string_units :: "string \<Rightarrow> (json_unit list \<times> string) option" where
  "string_units [] = None"
| "string_units (c # cs) =
     (if c = CHR 0x22 then Some ([], cs)
      else if c = CHR 0x5C then
        (case cs of
           [] \<Rightarrow> None
         | e # es \<Rightarrow>
             if e = CHR ''u'' then
               (case es of
                  h1 # h2 # h3 # h4 # rest \<Rightarrow>
                    if is_hex h1 \<and> is_hex h2 \<and> is_hex h3 \<and> is_hex h4 then
                      map_option (\<lambda>(us, r). (Escaped (hex_group_val [h1, h2, h3, h4]) # us, r)) (string_units rest)
                    else None
                | _ \<Rightarrow> None)
             else
               (case map_of [(CHR 0x22, 0x22), (CHR 0x5C, 0x5C), (CHR ''/'', 0x2F), (CHR ''b'', 8),
                             (CHR ''f'', 12), (CHR ''n'', 10), (CHR ''r'', 13), (CHR ''t'', 9)] e of
                  None \<Rightarrow> None
                | Some n \<Rightarrow> map_option (\<lambda>(us, r). (Escaped n # us, r)) (string_units es)))
      else if (of_char c :: nat) < 32 then None
      else map_option (\<lambda>(us, r). (Plain c # us, r)) (string_units cs))"

definition utf8 :: "nat \<Rightarrow> string" where
  "utf8 n =
     (if n < 0x80 then [char_of n]
      else if n < 0x800 then [char_of (0xC0 + n div 64), char_of (0x80 + n mod 64)]
      else if n < 0x10000 then
        [char_of (0xE0 + n div 4096), char_of (0x80 + n div 64 mod 64), char_of (0x80 + n mod 64)]
      else [char_of (0xF0 + n div 262144), char_of (0x80 + n div 4096 mod 64),
            char_of (0x80 + n div 64 mod 64), char_of (0x80 + n mod 64)])"

definition is_surrogate :: "nat \<Rightarrow> bool" where
  "is_surrogate n \<longleftrightarrow> 0xD800 \<le> n \<and> n < 0xE000"

fun unit_text :: "json_unit list \<Rightarrow> string" where
  "unit_text [] = []"
| "unit_text (Plain c # us) = c # unit_text us"
| "unit_text (Escaped a # Escaped b # us) =
     (if 0xD800 \<le> a \<and> a < 0xDC00 \<and> 0xDC00 \<le> b \<and> b < 0xE000
      then utf8 (0x10000 + (a - 0xD800) * 1024 + (b - 0xDC00)) @ unit_text us
      else utf8 (if is_surrogate a then 0xFFFD else a) @ unit_text (Escaped b # us))"
| "unit_text (Escaped a # us) = utf8 (if is_surrogate a then 0xFFFD else a) @ unit_text us"

section \<open>Arrays\<close>

definition is_json_space :: "char \<Rightarrow> bool" where
  "is_json_space c \<longleftrightarrow> c \<in> {CHR 0x09, CHR 0x0A, CHR 0x0D, CHR '' ''}"

definition skip_space :: "string \<Rightarrow> string" where
  "skip_space s = dropWhile is_json_space s"

definition json_element :: "string \<Rightarrow> (string \<times> string) option" where
  "json_element s =
     (case s of
        [] \<Rightarrow> None
      | c # cs \<Rightarrow>
          if c = CHR 0x22 then map_option (\<lambda>(us, r). (unit_text us, r)) (string_units cs)
          else if HasPrefix s ''null'' then Some ([], drop 4 s)
          else None)"

lemma string_units_shorter: "string_units s = Some (us, r) \<Longrightarrow> length r < length s"
proof (induction s arbitrary: us r rule: string_units.induct)
  case 1
  then show ?case by simp
next
  case (2 c cs)
  show ?case
  proof (cases "c = CHR 0x22 \<or> c \<noteq> CHR 0x5C")
    case True
    with 2 show ?thesis by (fastforce split: if_splits)
  next
    case esc: False
    with "2.prems" obtain e es where cs: "cs = e # es" by (cases cs) auto
    show ?thesis
    proof (cases "e = CHR ''u''")
      case True
      with esc cs "2.prems" obtain h1 h2 h3 h4 rest us' where
        es: "es = h1 # h2 # h3 # h4 # rest" "is_hex h1 \<and> is_hex h2 \<and> is_hex h3 \<and> is_hex h4"
        and "string_units rest = Some (us', r)"
        by (auto split: list.splits if_splits)
      with "2.IH"(1) esc cs True have "length r < length rest" by auto
      with es cs show ?thesis by simp
    next
      case False
      with esc cs "2.prems" obtain n us' where
        n: "map_of [(CHR 0x22, 0x22), (CHR 0x5C, 0x5C), (CHR ''/'', 0x2F), (CHR ''b'', 8),
             (CHR ''f'', 12), (CHR ''n'', 10), (CHR ''r'', 13), (CHR ''t'', 9 :: nat)] e = Some n"
        and "string_units es = Some (us', r)"
        by (auto simp del: map_of.simps split: option.splits)
      with "2.IH"(2) esc cs False have "length r < length es" by blast
      with cs show ?thesis by simp
    qed
  qed
qed

lemma skip_space_le: "length (skip_space s) \<le> length s"
  unfolding skip_space_def by (rule length_dropWhile_le)

lemma json_element_shorter: "json_element s = Some (v, r) \<Longrightarrow> length r < length s"
  by (auto simp: json_element_def split: list.splits if_splits dest: string_units_shorter)

text \<open>The elements after the opening bracket or a comma.\<close>

function json_elements :: "string \<Rightarrow> string list option" where
  "json_elements s =
     (case json_element (skip_space s) of
        None \<Rightarrow> None
      | Some (v, r) \<Rightarrow>
          (case skip_space r of
             [] \<Rightarrow> None
           | c # rest \<Rightarrow>
               if c = CHR '','' then map_option (\<lambda>vs. v # vs) (json_elements rest)
               else if c = CHR '']'' \<and> skip_space rest = [] then Some [v]
               else None))"
  by pat_completeness auto
termination
proof (relation "measure length")
  fix s x v r c rest
  assume "json_element (skip_space s) = Some x" "(v, r) = x" "skip_space r = c # rest"
  then have "length r < length (skip_space s)" "length (c # rest) \<le> length r"
    using json_element_shorter skip_space_le [of r] by auto
  with skip_space_le [of s] show "(rest, s) \<in> measure length" by simp
qed simp

declare json_elements.simps [simp del]

text \<open>\<open>None\<close> is an error; the value \<open>null\<close> gives a nil slice.\<close>

definition UnmarshalStrings :: "string \<Rightarrow> string list option" where
  "UnmarshalStrings data =
     (let s = skip_space data in
      if HasPrefix s ''null'' \<and> skip_space (drop 4 s) = [] then Some []
      else case s of
        [] \<Rightarrow> None
      | c # cs \<Rightarrow>
          if c \<noteq> CHR ''['' then None
          else (case skip_space cs of
                  [] \<Rightarrow> None
                | d # ds \<Rightarrow>
                    if d = CHR '']'' then (if skip_space ds = [] then Some [] else None)
                    else json_elements cs))"

section \<open>Round trip\<close>

text \<open>Texts that need no escape, as the addresses that Tailscale writes; and their JSON array.\<close>

definition plain_text :: "string \<Rightarrow> bool" where
  "plain_text s \<longleftrightarrow> (\<forall>c \<in> set s. c \<noteq> CHR 0x22 \<and> c \<noteq> CHR 0x5C \<and> \<not> (of_char c :: nat) < 32)"

definition json_quote :: "string \<Rightarrow> string" where
  "json_quote s = CHR 0x22 # s @ [CHR 0x22]"

definition json_array :: "string list \<Rightarrow> string" where
  "json_array ss = ''['' @ Join (map json_quote ss) '','' @ '']''"

lemma string_units_plain: "plain_text s \<Longrightarrow> string_units (s @ CHR 0x22 # r) = Some (map Plain s, r)"
  by (induction s) (auto simp: plain_text_def)

lemma unit_text_plain [simp]: "unit_text (map Plain s) = s"
  by (induction s) auto

lemma json_element_quote: "plain_text s \<Longrightarrow> json_element (json_quote s @ r) = Some (s, r)"
  by (simp add: json_element_def json_quote_def string_units_plain)

lemma skip_space_id [simp]: "\<not> is_json_space c \<Longrightarrow> skip_space (c # s) = c # s"
  by (simp add: skip_space_def)

lemma skip_space_quote [simp]: "skip_space (json_quote s @ r) = json_quote s @ r"
  by (simp add: json_quote_def is_json_space_def)

lemma json_elements_array:
  "ss \<noteq> [] \<Longrightarrow> \<forall>s \<in> set ss. plain_text s \<Longrightarrow>
   json_elements (Join (map json_quote ss) '','' @ '']'') = Some ss"
proof (induction ss)
  case Nil
  then show ?case by simp
next
  case (Cons s ss)
  show ?case
  proof (cases ss)
    case Nil
    with Cons.prems json_element_quote [of s "'']''"] show ?thesis
      by (subst json_elements.simps) (simp add: is_json_space_def skip_space_def [of "[]"])
  next
    case (Cons t ts)
    with Cons.IH Cons.prems have ih: "json_elements (Join (map json_quote ss) '','' @ '']'') = Some ss"
      by simp
    have "Join (map json_quote (s # ss)) '','' @ '']'' =
        json_quote s @ CHR '','' # Join (map json_quote ss) '','' @ '']''"
      using Cons by simp
    with Cons.prems ih json_element_quote [of s "CHR '','' # Join (map json_quote ss) '','' @ '']''"]
    show ?thesis by (subst json_elements.simps) (simp add: is_json_space_def)
  qed
qed

lemma UnmarshalStrings_array:
  assumes "\<forall>s \<in> set ss. plain_text s"
  shows "UnmarshalStrings (json_array ss) = Some ss"
proof (cases ss)
  case Nil
  then show ?thesis by (simp add: UnmarshalStrings_def json_array_def is_json_space_def skip_space_def)
next
  case (Cons s ts)
  let ?body = "Join (map json_quote ss) '','' @ '']''"
  from Cons have "\<exists>r. ?body = json_quote s @ r" by (cases ts) auto
  then obtain r where r: "?body = json_quote s @ r" by blast
  have "skip_space ?body = CHR 0x22 # s @ CHR 0x22 # r"
    unfolding r skip_space_quote by (simp add: json_quote_def)
  moreover have "json_array ss = CHR ''['' # ?body" by (simp add: json_array_def)
  moreover have "json_elements ?body = Some ss" using assms Cons by (intro json_elements_array) auto
  ultimately show ?thesis by (simp add: UnmarshalStrings_def is_json_space_def)
qed

end
