(* ===== verification/Cluster_Endpoints.thy ===== *)
theory Cluster_Endpoints
  imports Cluster_Records Go_Json
begin

text \<open>
  The reading half of \<open>pkg/cluster\<close>: where the control plane of a cluster is reached. A managed
  cluster announces its endpoint in its CAPI and Kamaji objects, and possibly through a
  Tailscale proxy (\<open>tailscale.go\<close>); the endpoint of a standalone cluster is the primary address
  of its head node in NetBox (\<open>sync_status.go\<close>).
\<close>

section \<open>Kinds and annotations\<close>

definition kamajiControlPlaneGVK :: gvk where
  "kamajiControlPlaneGVK = \<lparr>gvk_Group = ''controlplane.cluster.x-k8s.io'', gvk_Version = ''v1alpha1'',
     gvk_Kind = ''KamajiControlPlane''\<rparr>"

definition capiClusterGVK :: gvk where
  "capiClusterGVK = \<lparr>gvk_Group = ''cluster.x-k8s.io'', gvk_Version = ''v1beta1'', gvk_Kind = ''Cluster''\<rparr>"

definition statefulSetListGVK :: gvk where
  "statefulSetListGVK = \<lparr>gvk_Group = ''apps'', gvk_Version = ''v1'', gvk_Kind = ''StatefulSetList''\<rparr>"

definition ciliumLBIPAnnotation :: string where
  "ciliumLBIPAnnotation = ''io.cilium/lb-ipam-ips''"

definition tailscaleExposeAnnotation :: string where
  "tailscaleExposeAnnotation = ''tailscale.com/expose''"

definition tailscaleHostnameAnnotation :: string where
  "tailscaleHostnameAnnotation = ''tailscale.com/hostname''"

definition tailscaleNamespace :: string where
  "tailscaleNamespace = ''tailscale''"

definition tailscaleParentResourceLabel :: string where
  "tailscaleParentResourceLabel = ''tailscale.com/parent-resource''"

definition tailscaleParentResourceNsLabel :: string where
  "tailscaleParentResourceNsLabel = ''tailscale.com/parent-resource-ns''"

definition headnodeRoleSlug :: string where
  "headnodeRoleSlug = ''headnode''"

definition managedKubernetesClusterTypeSlug :: string where
  "managedKubernetesClusterTypeSlug = ''managed-kubernetes''"

definition standaloneKubernetesClusterTypeSlug :: string where
  "standaloneKubernetesClusterTypeSlug = ''standalone-kubernetes''"

definition serviceAnnotations_path :: "string list" where
  "serviceAnnotations_path = [''spec'', ''network'', ''serviceAnnotations'']"

section \<open>Control-plane endpoints (sync\_status.go)\<close>

definition getCAPIClusterEndpoint ::
  "('w, 'o) kube \<Rightarrow> string \<Rightarrow> string \<Rightarrow> ('w, string \<times> int32) call" where
  "getCAPIClusterEndpoint k namespace name w =
     (case ObjectGet k capiClusterGVK namespace name w of
        (Inl err, w) \<Rightarrow>
          (Inl (Wrapf (''cannot get CAPI Cluster '' @ namespace @ ''/'' @ name @ '': '') err), w)
      | (Inr capiCluster, w) \<Rightarrow>
          let host = (case NestedString k capiCluster [''spec'', ''controlPlaneEndpoint'', ''host''] of
                        Inr (Some h) \<Rightarrow> h | _ \<Rightarrow> [])
          in (case NestedInt64 k capiCluster [''spec'', ''controlPlaneEndpoint'', ''port''] of
                Inl portErr \<Rightarrow> (Inr (host, defaultControlPlanePort), w)
              | Inr None \<Rightarrow> (Inr (host, defaultControlPlanePort), w)
              | Inr (Some portVal) \<Rightarrow>
                  if portVal = 0 then (Inr (host, defaultControlPlanePort), w)
                  else (Inr (host, ucast portVal), w)))"

text \<open>
  \<open>HasPrimaryIp4\<close> is true for a field that is present, null or not; a null address reads as the
  empty text.
\<close>

definition primary_address :: "brief_ip nullable \<Rightarrow> brief_ip nullable \<Rightarrow> string" where
  "primary_address ip4 ip =
     (if IsSet ip4 then GetAddress ip4 else if IsSet ip then GetAddress ip else [])"

definition headnode_vms :: "int32 \<Rightarrow> vm_query" where
  "headnode_vms clusterID =
     VirtualMachines\<lparr>vq_ClusterId := Some [clusterID], vq_Role := Some [headnodeRoleSlug]\<rparr>"

definition getHeadnodeVMIP :: "'w netbox \<Rightarrow> int32 \<Rightarrow> ('w, string result) go" where
  "getHeadnodeVMIP nb clusterID w =
     (case VirtualizationVirtualMachinesList nb (headnode_vms clusterID) w of
        (Inl err, w) \<Rightarrow>
          Some (Inl (Wrapf (''cannot list headnode VMs in cluster '' @ Itoa32 clusterID @ '': '') err), w)
      | (Inr result, w) \<Rightarrow>
          if Count result = 0 then
            Some (Inl (Errorf (''no headnode device or VM found in cluster '' @ Itoa32 clusterID)), w)
          else do {
            vm \<leftarrow> index0 (Results result);
            let addr = primary_address (vm_PrimaryIp4 vm) (vm_PrimaryIp vm);
            if addr = [] then Some (Inl (Errorf (''headnode VM '' @ Quote (vm_Name vm) @ '' has no primary IP'')), w)
            else do {
              host \<leftarrow> index0 (SplitN2 addr CHR ''/'');
              Some (Inr host, w)
            }
          })"

definition headnode_devices :: "int32 \<Rightarrow> device_query" where
  "headnode_devices clusterID =
     DcimDevices\<lparr>dq_ClusterId := Some [clusterID], dq_Role := Some [headnodeRoleSlug]\<rparr>"

definition getHeadnodeEndpoint :: "'w netbox \<Rightarrow> int32 \<Rightarrow> ('w, (string \<times> int32) result) go" where
  "getHeadnodeEndpoint nb clusterID w =
     (case DcimDevicesList nb (headnode_devices clusterID) w of
        (Inl err, w) \<Rightarrow>
          Some (Inl (Wrapf (''cannot list headnode devices in cluster '' @ Itoa32 clusterID @ '': '') err), w)
      | (Inr result, w) \<Rightarrow>
          if Count result > 0 then do {
            device \<leftarrow> index0 (Results result);
            let addr = primary_address (dev_PrimaryIp4 device) (dev_PrimaryIp device);
            if addr = [] then
              Some (Inl (Errorf (''headnode device '' @ Quote (DeviceGetName device) @ '' has no primary IP'')), w)
            else do {
              host \<leftarrow> index0 (SplitN2 addr CHR ''/'');
              Some (Inr (host, defaultControlPlanePort), w)
            }
          }
          else do {
            (r, w) \<leftarrow> getHeadnodeVMIP nb clusterID w;
            (case r of
               Inl err \<Rightarrow> Some (Inl err, w)
             | Inr host \<Rightarrow> Some (Inr (host, defaultControlPlanePort), w))
          })"

definition getKamajiControlPlaneIP :: "('w, 'o) kube \<Rightarrow> string \<Rightarrow> string \<Rightarrow> ('w, string) call" where
  "getKamajiControlPlaneIP k namespace name w =
     (case ObjectGet k kamajiControlPlaneGVK namespace name w of
        (Inl err, w) \<Rightarrow>
          (Inl (Wrapf (''cannot get KamajiControlPlane '' @ namespace @ ''/'' @ name @ '': '') err), w)
      | (Inr kcp, w) \<Rightarrow>
          (case NestedStringMap k kcp serviceAnnotations_path of
             Inl err \<Rightarrow>
               (Inl (Wrapf (''cannot read serviceAnnotations from KamajiControlPlane '' @ name @ '': '') err), w)
           | Inr annotations \<Rightarrow>
               (case map_of (case annotations of None \<Rightarrow> [] | Some m \<Rightarrow> m) ciliumLBIPAnnotation of
                  None \<Rightarrow> (Inr [], w)
                | Some rawIPs \<Rightarrow>
                    if rawIPs = [] then (Inr [], w)
                    else (Inr (TrimSpace (hd (SplitN2 rawIPs CHR '',''))), w))))"

text \<open>The first domain of the field that is not a routing-only domain.\<close>

definition first_domain :: "string list \<Rightarrow> string option" where
  "first_domain domains = find (\<lambda>d. \<not> HasPrefix d ''~'') domains"

definition most_specific_prefix :: "string \<Rightarrow> prefix_query" where
  "most_specific_prefix ip =
     Prefixes\<lparr>pq_Contains := Some ip, pq_Ordering := Some ''-mask_length'', pq_Limit := Some 1\<rparr>"

definition getDNSNameFromPrefix :: "'w netbox \<Rightarrow> string \<Rightarrow> string \<Rightarrow> ('w, string result) go" where
  "getDNSNameFromPrefix nb ip clusterName w =
     (case IpamPrefixesList nb (most_specific_prefix ip) w of
        (Inl err, w) \<Rightarrow> Some (Inl (Wrapf (''cannot query NetBox prefixes for '' @ ip @ '': '') err), w)
      | (Inr result, w) \<Rightarrow>
          if Count result = 0 then Some (Inr [], w)
          else do {
            prefix \<leftarrow> index0 (Results result);
            (case map_of (pfx_CustomFields prefix) ''Domains'' of
               Some (CFString domainsStr) \<Rightarrow>
                 if domainsStr = [] then Some (Inr [], w)
                 else (case first_domain (Fields domainsStr) of
                         Some domain \<Rightarrow> Some (Inr (clusterName @ ''.'' @ domain), w)
                       | None \<Rightarrow> Some (Inr [], w))
             | _ \<Rightarrow> Some (Inr [], w))
          })"

section \<open>Tailscale (tailscale.go)\<close>

record tailscaleDevice =
  ts_IP :: string
  ts_FQDN :: string

definition ts_zero :: tailscaleDevice where
  "ts_zero = \<lparr>ts_IP = [], ts_FQDN = []\<rparr>"

definition ts_Address :: "tailscaleDevice \<Rightarrow> string" where
  "ts_Address d = (if ts_FQDN d \<noteq> [] then ts_FQDN d else ts_IP d)"

definition IsTailscaleExposed :: "('w, 'o) kube \<Rightarrow> 'o \<Rightarrow> bool \<times> string" where
  "IsTailscaleExposed k kcp =
     (let annotations = (case NestedStringMap k kcp serviceAnnotations_path of Inr (Some m) \<Rightarrow> m | _ \<Rightarrow> [])
      in if mget annotations tailscaleExposeAnnotation \<noteq> ''true'' then (False, [])
         else let hostname = mget annotations tailscaleHostnameAnnotation
              in (hostname \<noteq> [], hostname))"

definition GetTailscaleDevice ::
  "('w, 'o) kube \<Rightarrow> string \<Rightarrow> string \<Rightarrow> ('w, tailscaleDevice) call" where
  "GetTailscaleDevice k clusterName clusterNamespace w =
     (case ObjectList k statefulSetListGVK tailscaleNamespace
             [(tailscaleParentResourceLabel, clusterName), (tailscaleParentResourceNsLabel, clusterNamespace)] w of
        (Inl err, w) \<Rightarrow>
          (Inl (Wrapf (''cannot list Tailscale StatefulSets for '' @ clusterNamespace @ ''/'' @ clusterName @ '': '') err), w)
      | (Inr items, w) \<Rightarrow>
          (case items of
             [] \<Rightarrow> (Inl (Errorf (''no Tailscale StatefulSet found for '' @ clusterNamespace @ ''/'' @ clusterName @
                      '' in namespace '' @ tailscaleNamespace)), w)
           | ss # _ \<Rightarrow>
               let ssName = ObjectName k ss; secretName = ssName @ ''-0''
               in (case SecretGet k tailscaleNamespace secretName w of
                     (Inl err, w) \<Rightarrow>
                       (Inl (Wrapf (''cannot get Tailscale state Secret '' @ tailscaleNamespace @ ''/'' @
                          secretName @ '': '') err), w)
                   | (Inr secret, w) \<Rightarrow>
                       let fqdn = TrimRight (TrimSpace (mget secret ''device_fqdn'')) CHR ''.'';
                           raw = mget secret ''device_ips'';
                           ip = (if raw = [] then []
                                 else case UnmarshalStrings raw of
                                        Some (i # _) \<Rightarrow> i
                                      | _ \<Rightarrow> [])
                       in if ip = [] \<and> fqdn = [] then
                            (Inl (Errorf (''tailscale secret '' @ tailscaleNamespace @ ''/'' @ ssName @
                               '' contains no device address'')), w)
                          else (Inr \<lparr>ts_IP = ip, ts_FQDN = fqdn\<rparr>, w))))"

definition getKamajiTailscaleDevice ::
  "('w, 'o) kube \<Rightarrow> string \<Rightarrow> string \<Rightarrow> ('w, tailscaleDevice) call" where
  "getKamajiTailscaleDevice k namespace name w =
     (case ObjectGet k kamajiControlPlaneGVK namespace name w of
        (Inl err, w) \<Rightarrow> (Inr ts_zero, w)
      | (Inr kcp, w) \<Rightarrow>
          if \<not> fst (IsTailscaleExposed k kcp) then (Inr ts_zero, w)
          else GetTailscaleDevice k name namespace w)"

definition syncTailscaleIPAM ::
  "'w netbox \<Rightarrow> int32 \<Rightarrow> tailscaleDevice \<Rightarrow> ('w, (ip_address \<times> bool) result) go" where
  "syncTailscaleIPAM nb fhrpGroupID dev w =
     (if ts_IP dev = [] then
        Some (Inl (Errorf ''tailscale device has no IP address to sync to NetBox''), w)
      else
        let (_, w) = getOrCreateIPAMPrefix nb (ts_IP dev) w
        in getOrCreateIPAddress nb (ts_IP dev) fhrpGroupID (ts_FQDN dev) w)"

end
