(* ===== verification/Cluster_Sync.thy ===== *)
theory Cluster_Sync
  imports Cluster_Endpoints
begin

text \<open>
  \<open>SyncStatus\<close> of \<open>pkg/cluster/sync_status.go\<close>: for every Kubernetes cluster that NetBox knows,
  make sure that its FHRP group, service template, service and addresses are recorded. The loop
  body is split into the blocks of the code: the endpoint (the \<open>switch\<close>), the Cilium address, the
  Tailscale address, and the template and service.
\<close>

section \<open>The code\<close>

record cluster_sync_result =
  cr_ClusterName :: string
  cr_FHRPGroupID :: int32
  cr_ServiceID :: int32
  cr_IPAddressID :: int32
  cr_TailscaleAddress :: string
  cr_Updated :: bool
  cr_Error :: string

definition new_result :: "string \<Rightarrow> cluster_sync_result" where
  "new_result name = \<lparr>cr_ClusterName = name, cr_FHRPGroupID = 0, cr_ServiceID = 0, cr_IPAddressID = 0,
     cr_TailscaleAddress = [], cr_Updated = False, cr_Error = []\<rparr>"

definition mark_updated :: "bool \<Rightarrow> cluster_sync_result \<Rightarrow> cluster_sync_result" where
  "mark_updated created result = (if created then result\<lparr>cr_Updated := True\<rparr> else result)"

text \<open>The \<open>switch\<close> on the type of the cluster; the inner \<open>None\<close> is its default, a \<open>continue\<close>.\<close>

definition cluster_endpoint ::
  "('w, 'o) kube \<Rightarrow> string \<Rightarrow> 'w netbox \<Rightarrow> nb_cluster \<Rightarrow> ('w, (string \<times> int32) result option) go" where
  "cluster_endpoint k namespace nb nbCluster w =
     (if cl_TypeSlug nbCluster = managedKubernetesClusterTypeSlug then
        let (r, w) = getCAPIClusterEndpoint k namespace (cl_Name nbCluster) w in Some (Some r, w)
      else if cl_TypeSlug nbCluster = standaloneKubernetesClusterTypeSlug then do {
        (r, w) \<leftarrow> getHeadnodeEndpoint nb (cl_Id nbCluster) w;
        Some (Some r, w)
      }
      else Some (None, w))"

text \<open>The Cilium address; \<open>Inl\<close> is a result that ends the iteration.\<close>

definition sync_cilium_address ::
  "('w, 'o) kube \<Rightarrow> string \<Rightarrow> 'w netbox \<Rightarrow> nb_cluster \<Rightarrow> string \<Rightarrow> int32 \<Rightarrow> cluster_sync_result \<Rightarrow>
   ('w, cluster_sync_result + cluster_sync_result) go" where
  "sync_cilium_address k namespace nb nbCluster host gid result w =
     (case getKamajiControlPlaneIP k namespace (cl_Name nbCluster) w of
        (Inl err, w) \<Rightarrow> Some (Inr result, w)
      | (Inr ciliumIP, w) \<Rightarrow>
          if ciliumIP = [] then Some (Inr result, w)
          else do {
            (dnsName, w) \<leftarrow> (if \<not> isHostname host then do {
                (r, w) \<leftarrow> getDNSNameFromPrefix nb ciliumIP (cl_Name nbCluster) w;
                Some (case r of Inl _ \<Rightarrow> [] | Inr n \<Rightarrow> n, w)
              } else Some (host, w));
            (r, w) \<leftarrow> getOrCreateIPAddress nb ciliumIP gid dnsName w;
            (case r of
               Inl err \<Rightarrow> Some (Inl (result\<lparr>cr_Error := error_message err\<rparr>), w)
             | Inr (ipAddr, ipCreated) \<Rightarrow>
                 Some (Inr ((mark_updated ipCreated result)\<lparr>cr_IPAddressID := ip_Id ipAddr\<rparr>), w))
          })"

definition sync_tailscale_address ::
  "('w, 'o) kube \<Rightarrow> string \<Rightarrow> 'w netbox \<Rightarrow> nb_cluster \<Rightarrow> int32 \<Rightarrow> cluster_sync_result \<Rightarrow>
   ('w, cluster_sync_result) go" where
  "sync_tailscale_address k namespace nb nbCluster gid result w =
     (case getKamajiTailscaleDevice k namespace (cl_Name nbCluster) w of
        (Inl tsErr, w) \<Rightarrow> Some (result, w)
      | (Inr tsDev, w) \<Rightarrow>
          if ts_Address tsDev = [] then Some (result, w)
          else do {
            (r, w) \<leftarrow> syncTailscaleIPAM nb gid tsDev w;
            (case r of
               Inl tsIPErr \<Rightarrow> Some (result, w)
             | Inr (tsIPAddr, tsCreated) \<Rightarrow>
                 Some (mark_updated tsCreated (result\<lparr>cr_TailscaleAddress := ts_Address tsDev\<rparr>), w))
          })"

definition sync_service ::
  "'w netbox \<Rightarrow> nb_cluster \<Rightarrow> int32 \<Rightarrow> int32 \<Rightarrow> cluster_sync_result \<Rightarrow> ('w, cluster_sync_result) go" where
  "sync_service nb nbCluster gid port result w = do {
     (t, w) \<leftarrow> getOrCreateServiceTemplate nb port w;
     (case t of
        Inl err \<Rightarrow> Some (result\<lparr>cr_Error := error_message err\<rparr>, w)
      | Inr (_, templateCreated) \<Rightarrow> do {
          let result = mark_updated templateCreated result;
          (s, w) \<leftarrow> getOrCreateService nb gid (cl_Name nbCluster) port w;
          (case s of
             Inl err \<Rightarrow> Some (result\<lparr>cr_Error := error_message err\<rparr>, w)
           | Inr (svc, svcCreated) \<Rightarrow>
               Some ((mark_updated svcCreated result)\<lparr>cr_ServiceID := sv_Id svc\<rparr>, w))
        })
   }"

text \<open>What follows the FHRP group in an iteration.\<close>

definition sync_records ::
  "('w, 'o) kube \<Rightarrow> string \<Rightarrow> 'w netbox \<Rightarrow> nb_cluster \<Rightarrow> string \<Rightarrow> int32 \<Rightarrow> int32 \<Rightarrow>
   cluster_sync_result \<Rightarrow> ('w, cluster_sync_result) go" where
  "sync_records k namespace nb nbCluster host port gid result w =
     (if cl_TypeSlug nbCluster = managedKubernetesClusterTypeSlug then do {
        (r, w) \<leftarrow> sync_cilium_address k namespace nb nbCluster host gid result w;
        (case r of
           Inl result \<Rightarrow> Some (result, w)
         | Inr result \<Rightarrow> do {
             (result, w) \<leftarrow> sync_tailscale_address k namespace nb nbCluster gid result w;
             sync_service nb nbCluster gid port result w
           })
      }
      else sync_service nb nbCluster gid port result w)"

definition sync_cluster ::
  "('w, 'o) kube \<Rightarrow> string \<Rightarrow> 'w netbox \<Rightarrow> nb_cluster \<Rightarrow> int32 \<Rightarrow>
   ('w, cluster_sync_result option \<times> int32) go" where
  "sync_cluster k namespace nb nbCluster nextID w = do {
     let result = new_result (cl_Name nbCluster);
     (endpoint, w) \<leftarrow> cluster_endpoint k namespace nb nbCluster w;
     (case endpoint of
        None \<Rightarrow> Some ((None, nextID), w)
      | Some (Inl err) \<Rightarrow> Some ((Some (result\<lparr>cr_Error := error_message err\<rparr>), nextID), w)
      | Some (Inr (host, port)) \<Rightarrow> do {
          (g, w) \<leftarrow> getOrCreateFHRPGroup nb (cl_Name nbCluster) nextID w;
          (case g of
             Inl err \<Rightarrow> Some ((Some (result\<lparr>cr_Error := error_message err\<rparr>), nextID), w)
           | Inr (fhrpGroup, created) \<Rightarrow> do {
               let nextID = (if created then nextID + 1 else nextID);
               let result = (mark_updated created result)\<lparr>cr_FHRPGroupID := fg_Id fhrpGroup\<rparr>;
               (result, w) \<leftarrow> sync_records k namespace nb nbCluster host port (fg_Id fhrpGroup) result w;
               Some ((Some result, nextID), w)
             })
        })
   }"

fun sync_clusters ::
  "('w, 'o) kube \<Rightarrow> string \<Rightarrow> 'w netbox \<Rightarrow> nb_cluster list \<Rightarrow> int32 \<Rightarrow> ('w, cluster_sync_result list) go" where
  "sync_clusters k namespace nb [] nextID w = Some ([], w)"
| "sync_clusters k namespace nb (c # cs) nextID w = do {
     ((r, nextID), w) \<leftarrow> sync_cluster k namespace nb c nextID w;
     (rs, w) \<leftarrow> sync_clusters k namespace nb cs nextID w;
     Some (case r of None \<Rightarrow> rs | Some result \<Rightarrow> result # rs, w)
   }"

definition clusters_request :: "string list \<Rightarrow> cluster_query" where
  "clusters_request clusterNames =
     (let req = VirtualizationClusters\<lparr>cq_Type :=
            Some [managedKubernetesClusterTypeSlug, standaloneKubernetesClusterTypeSlug]\<rparr>
      in case clusterNames of
           [] \<Rightarrow> req
         | n # _ \<Rightarrow> if n \<noteq> [] then req\<lparr>cq_Name := Some clusterNames\<rparr> else req)"

definition Cluster_SyncStatus ::
  "('w, 'o) kube \<Rightarrow> string \<Rightarrow> 'w netbox \<Rightarrow> string list \<Rightarrow> ('w, cluster_sync_result list result) go" where
  "Cluster_SyncStatus k namespace nb clusterNames w =
     (case VirtualizationClustersList nb (clusters_request clusterNames) w of
        (Inl err, w) \<Rightarrow> Some (Inl (Wrapf ''cannot list NetBox clusters: '' err), w)
      | (Inr netboxClusters, w) \<Rightarrow>
          if Count netboxClusters = 0 then Some (Inr [], w)
          else do {
            (n, w) \<leftarrow> getNextFHRPGroupID nb w;
            (case n of
               Inl err \<Rightarrow> Some (Inl (Wrapf ''cannot determine next FHRP group ID: '' err), w)
             | Inr nextID \<Rightarrow> do {
                 (results, w) \<leftarrow> sync_clusters k namespace nb (Results netboxClusters) nextID w;
                 Some (Inr results, w)
               })
          })"

section \<open>Names of the results\<close>

definition supported :: "nb_cluster \<Rightarrow> bool" where
  "supported c \<longleftrightarrow>
     cl_TypeSlug c = managedKubernetesClusterTypeSlug \<or> cl_TypeSlug c = standaloneKubernetesClusterTypeSlug"

lemma cr_ClusterName_mark [simp]: "cr_ClusterName (mark_updated b r) = cr_ClusterName r"
  and cr_Error_mark [simp]: "cr_Error (mark_updated b r) = cr_Error r"
  and cr_FHRPGroupID_mark [simp]: "cr_FHRPGroupID (mark_updated b r) = cr_FHRPGroupID r"
  and cr_ServiceID_mark [simp]: "cr_ServiceID (mark_updated b r) = cr_ServiceID r"
  and cr_Updated_mark [simp]: "cr_Updated (mark_updated b r) \<longleftrightarrow> b \<or> cr_Updated r"
  and cr_ClusterName_new [simp]: "cr_ClusterName (new_result n) = n"
  and cr_Error_new [simp]: "cr_Error (new_result n) = []"
  by (simp_all add: mark_updated_def new_result_def)

text \<open>The steps of an iteration, as elimination rules.\<close>

lemma sync_service_name:
  "sync_service nb c gid port result w = Some (r, w') \<Longrightarrow>
   cr_ClusterName r = cr_ClusterName result \<and> cr_FHRPGroupID r = cr_FHRPGroupID result"
  by (auto simp: sync_service_def Let_def elim!: bind_SomeE split: sum.split_asm prod.split_asm)

lemma sync_cilium_name:
  "sync_cilium_address k ns nb c host gid result w = Some (r, w') \<Longrightarrow>
   case r of Inl x \<Rightarrow> cr_ClusterName x = cr_ClusterName result \<and> cr_FHRPGroupID x = cr_FHRPGroupID result
     | Inr x \<Rightarrow> cr_ClusterName x = cr_ClusterName result \<and> cr_FHRPGroupID x = cr_FHRPGroupID result \<and>
        cr_Error x = cr_Error result"
  by (auto simp: sync_cilium_address_def elim!: bind_SomeE split: sum.split_asm prod.split_asm if_split_asm)

lemma sync_tailscale_name:
  "sync_tailscale_address k ns nb c gid result w = Some (r, w') \<Longrightarrow>
   cr_ClusterName r = cr_ClusterName result \<and> cr_FHRPGroupID r = cr_FHRPGroupID result \<and>
   cr_Error r = cr_Error result"
  by (auto simp: sync_tailscale_address_def elim!: bind_SomeE split: sum.split_asm prod.split_asm if_split_asm)

lemma sync_records_name:
  "sync_records k ns nb c host port gid result w = Some (r, w') \<Longrightarrow>
   cr_ClusterName r = cr_ClusterName result \<and> cr_FHRPGroupID r = cr_FHRPGroupID result"
  by (fastforce simp: sync_records_def elim!: bind_SomeE split: sum.split_asm prod.split_asm if_split_asm
      dest: sync_service_name sync_cilium_name sync_tailscale_name)

section \<open>The laws of the world\<close>

text \<open>
  The reading calls leave NetBox as it is, and a listing that counts a match shows at least one.
\<close>

definition reads_pure :: "'w netbox \<Rightarrow> ('w, 'o) kube \<Rightarrow> ('w \<Rightarrow> netbox_db) \<Rightarrow> bool" where
  "reads_pure nb k v \<longleftrightarrow>
     (\<forall>q. pure_call v (DcimDevicesList nb q)) \<and>
     (\<forall>q. pure_call v (VirtualizationVirtualMachinesList nb q)) \<and>
     (\<forall>g ns n. pure_call v (ObjectGet k g ns n)) \<and>
     (\<forall>g ns ls. pure_call v (ObjectList k g ns ls)) \<and>
     (\<forall>ns n. pure_call v (SecretGet k ns n))"

definition non_empty_pages :: "('w, 'a page) call \<Rightarrow> bool" where
  "non_empty_pages f \<longleftrightarrow> (\<forall>w p w'. f w = (Inr p, w') \<longrightarrow> Count p \<noteq> 0 \<longrightarrow> Results p \<noteq> [])"

definition paged :: "'w netbox \<Rightarrow> bool" where
  "paged nb \<longleftrightarrow>
     (\<forall>q. non_empty_pages (DcimDevicesList nb q)) \<and>
     (\<forall>q. non_empty_pages (VirtualizationVirtualMachinesList nb q)) \<and>
     non_empty_pages (IpamFhrpGroupsList nb (FhrpGroups\<lparr>fq_Limit := Some 1, fq_Ordering := Some ''-group_id''\<rparr>)) \<and>
     (\<forall>ip. non_empty_pages (IpamPrefixesList nb (most_specific_prefix ip)))"

definition cluster_laws ::
  "'w netbox \<Rightarrow> ('w, 'o) kube \<Rightarrow> ('w \<Rightarrow> netbox_db) \<Rightarrow> (string \<Rightarrow> ip_address \<Rightarrow> bool) \<Rightarrow>
   (string \<Rightarrow> ipam_prefix \<Rightarrow> bool) \<Rightarrow> bool" where
  "cluster_laws nb k v matches contains \<longleftrightarrow>
     fhrp_laws nb v \<and> template_laws nb v \<and> service_laws nb v \<and> ip_laws nb v matches \<and>
     prefix_laws nb v contains \<and> reads_pure nb k v \<and> paged nb"

lemma cluster_lawsD:
  assumes "cluster_laws nb k v matches contains"
  shows "fhrp_laws nb v" "template_laws nb v" "service_laws nb v" "ip_laws nb v matches"
    "prefix_laws nb v contains" "reads_pure nb k v" "paged nb"
  using assms unfolding cluster_laws_def by auto

lemma reads_pureD:
  assumes "reads_pure nb k v"
  shows "DcimDevicesList nb dq w = (r1, w') \<Longrightarrow> v w' = v w"
    and "VirtualizationVirtualMachinesList nb vq w = (r2, w') \<Longrightarrow> v w' = v w"
    and "ObjectGet k g ns n w = (r3, w') \<Longrightarrow> v w' = v w"
    and "ObjectList k g ns ls w = (r4, w') \<Longrightarrow> v w' = v w"
    and "SecretGet k ns n w = (r5, w') \<Longrightarrow> v w' = v w"
  using assms unfolding reads_pure_def by (blast dest: pure_callD)+

lemma non_empty_pagesD:
  assumes "non_empty_pages f" and "f w = (Inr p, w')" and "Count p \<noteq> 0"
  obtains x where "index0 (Results p) = Some x"
  using assms unfolding non_empty_pages_def by (cases "Results p") auto

section \<open>Reading the endpoints\<close>

lemma getCAPIClusterEndpoint_pure:
  "reads_pure nb k v \<Longrightarrow> getCAPIClusterEndpoint k ns n w = (r, w') \<Longrightarrow>
   v w' = v w \<and> (\<forall>e. r = Inl e \<longrightarrow> error_message e \<noteq> [])"
  by (cases "ObjectGet k capiClusterGVK ns n w" rule: call_cases)
    (auto simp: getCAPIClusterEndpoint_def Let_def reads_pureD(3)
      split: sum.split_asm option.split_asm if_split_asm)

lemma getHeadnodeVMIP_pure:
  assumes "reads_pure nb k v" and "paged nb"
  shows "\<exists>r w'. getHeadnodeVMIP nb i w = Some (r, w') \<and> v w' = v w \<and> (\<forall>e. r = Inl e \<longrightarrow> error_message e \<noteq> [])"
proof (cases "VirtualizationVirtualMachinesList nb (headnode_vms i) w" rule: call_cases)
  case (err e w1)
  with reads_pureD(2) [OF assms(1) err] show ?thesis by (auto simp: getHeadnodeVMIP_def)
next
  case (ok p w1)
  show ?thesis
  proof (cases "Count p = 0")
    case True
    with ok reads_pureD(2) [OF assms(1) ok] show ?thesis by (auto simp: getHeadnodeVMIP_def)
  next
    case False
    from assms(2) have "non_empty_pages (VirtualizationVirtualMachinesList nb (headnode_vms i))"
      by (simp add: paged_def)
    then obtain vm where "index0 (Results p) = Some vm" using ok False by (rule non_empty_pagesD)
    with False ok reads_pureD(2) [OF assms(1) ok] show ?thesis by (auto simp: getHeadnodeVMIP_def Let_def)
  qed
qed

lemma getHeadnodeEndpoint_pure:
  assumes "reads_pure nb k v" and "paged nb"
  shows "\<exists>r w'. getHeadnodeEndpoint nb i w = Some (r, w') \<and> v w' = v w \<and> (\<forall>e. r = Inl e \<longrightarrow> error_message e \<noteq> [])"
proof (cases "DcimDevicesList nb (headnode_devices i) w" rule: call_cases)
  case (err e w1)
  with reads_pureD(1) [OF assms(1) err] show ?thesis by (auto simp: getHeadnodeEndpoint_def)
next
  case (ok p w1)
  note v1 = reads_pureD(1) [OF assms(1) ok]
  show ?thesis
  proof (cases "Count p > 0")
    case False
    from getHeadnodeVMIP_pure [OF assms, of i w1] False ok v1 show ?thesis
      by (auto simp: getHeadnodeEndpoint_def split: sum.split)
  next
    case True
    from assms(2) have "non_empty_pages (DcimDevicesList nb (headnode_devices i))" by (simp add: paged_def)
    with ok True obtain d where "index0 (Results p) = Some d" by (auto elim: non_empty_pagesD)
    with True ok v1 show ?thesis by (auto simp: getHeadnodeEndpoint_def Let_def)
  qed
qed

lemma cluster_endpoint_pure:
  assumes "reads_pure nb k v" and "paged nb"
  obtains r w' where "cluster_endpoint k ns nb c w = Some (r, w')" and "v w' = v w"
    and "\<And>e. r = Some (Inl e) \<Longrightarrow> error_message e \<noteq> []" and "r = None \<longleftrightarrow> \<not> supported c"
proof -
  consider (managed) "cl_TypeSlug c = managedKubernetesClusterTypeSlug"
    | (standalone) "cl_TypeSlug c \<noteq> managedKubernetesClusterTypeSlug"
      "cl_TypeSlug c = standaloneKubernetesClusterTypeSlug"
    | (other) "\<not> supported c" unfolding supported_def by blast
  then show ?thesis
  proof cases
    case managed
    obtain r w' where call: "getCAPIClusterEndpoint k ns (cl_Name c) w = (r, w')" by fastforce
    from getCAPIClusterEndpoint_pure [OF assms(1) call] call managed show ?thesis
      by (intro that [of "Some r" w']) (auto simp: cluster_endpoint_def supported_def)
  next
    case standalone
    from getHeadnodeEndpoint_pure [OF assms, of "cl_Id c" w] obtain r w' where
      "getHeadnodeEndpoint nb (cl_Id c) w = Some (r, w')" "v w' = v w"
      "\<forall>e. r = Inl e \<longrightarrow> error_message e \<noteq> []" by blast
    with standalone show ?thesis
      by (intro that [of "Some r" w']) (auto simp: cluster_endpoint_def supported_def)
  next
    case other
    then show ?thesis by (intro that [of None w]) (auto simp: cluster_endpoint_def supported_def)
  qed
qed

lemma getKamajiControlPlaneIP_pure:
  "reads_pure nb k v \<Longrightarrow> getKamajiControlPlaneIP k ns n w = (r, w') \<Longrightarrow> v w' = v w"
  by (cases "ObjectGet k kamajiControlPlaneGVK ns n w" rule: call_cases)
    (auto simp: getKamajiControlPlaneIP_def reads_pureD(3) split: sum.split_asm option.split_asm if_split_asm)

lemma getDNSNameFromPrefix_pure:
  assumes "prefix_laws nb v contains" and "paged nb"
  shows "\<exists>r w'. getDNSNameFromPrefix nb ip n w = Some (r, w') \<and> v w' = v w"
proof (cases "IpamPrefixesList nb (most_specific_prefix ip) w" rule: call_cases)
  case (err e w1)
  with prefix_lawsD(1) [OF assms(1) err] show ?thesis by (auto simp: getDNSNameFromPrefix_def)
next
  case (ok p w1)
  note v1 = prefix_lawsD(1) [OF assms(1) ok]
  show ?thesis
  proof (cases "Count p = 0")
    case True
    with ok v1 show ?thesis by (auto simp: getDNSNameFromPrefix_def)
  next
    case False
    from assms(2) have "non_empty_pages (IpamPrefixesList nb (most_specific_prefix ip))" by (simp add: paged_def)
    then obtain x where "index0 (Results p) = Some x" using ok False by (rule non_empty_pagesD)
    with False ok v1 show ?thesis
      by (auto simp: getDNSNameFromPrefix_def split: option.split custom_value.split)
  qed
qed

lemma GetTailscaleDevice_pure:
  assumes "reads_pure nb k v" and "GetTailscaleDevice k n ns w = (r, w')"
  shows "v w' = v w"
  using assms(2) reads_pureD(4,5) [OF assms(1)]
  by (fastforce simp: GetTailscaleDevice_def Let_def split: prod.split_asm sum.split_asm list.split_asm if_split_asm)

lemma getKamajiTailscaleDevice_pure:
  assumes "reads_pure nb k v" and "getKamajiTailscaleDevice k ns n w = (r, w')"
  shows "v w' = v w"
  using assms(2) reads_pureD(3) [OF assms(1)] GetTailscaleDevice_pure [OF assms(1)]
  by (fastforce simp: getKamajiTailscaleDevice_def split: prod.split_asm sum.split_asm if_split_asm)

section \<open>The address blocks keep groups, templates and services\<close>

definition same_records :: "netbox_db \<Rightarrow> netbox_db \<Rightarrow> bool" where
  "same_records db db' \<longleftrightarrow>
     db_groups db' = db_groups db \<and> db_templates db' = db_templates db \<and> db_services db' = db_services db"

lemma same_records_refl [simp]: "same_records db db"
  by (simp add: same_records_def)

lemma same_records_trans: "same_records a b \<Longrightarrow> same_records b c \<Longrightarrow> same_records a c"
  by (simp add: same_records_def)

lemma getOrCreateIPAddress_records:
  assumes "ip_laws nb v matches"
  obtains r w' where "getOrCreateIPAddress nb ip gid dns w = Some (r, w')" and "same_records (v w) (v w')"
    and "\<And>e. r = Inl e \<Longrightarrow> error_message e \<noteq> []"
  using assms
  by (cases rule: getOrCreateIPAddress_outcomes [where ip = ip and gid = gid and dns = dns and w = w])
    (auto simp: same_records_def set_dns_def)

lemma getOrCreateIPAMPrefix_records:
  assumes "prefix_laws nb v contains" and "getOrCreateIPAMPrefix nb ip w = (r, w')"
  shows "same_records (v w) (v w')"
proof (cases "IpamPrefixesList nb (Prefixes\<lparr>pq_Contains := Some ip\<rparr>) w" rule: call_cases)
  case (err e w1)
  with assms(2) prefix_lawsD(1) [OF assms(1) err] show ?thesis by (simp add: getOrCreateIPAMPrefix_def)
next
  case (ok p w1)
  note v1 = prefix_lawsD(1) [OF assms(1) ok] and W = write_callD [OF prefix_lawsD(3) [OF assms(1)]]
  show ?thesis
    using assms(2) ok v1 W(1,2) [of "ip @ ''/32''" w1]
    by (cases "IpamPrefixesCreate nb (ip @ ''/32'') w1" rule: call_cases)
      (auto simp: getOrCreateIPAMPrefix_def Let_def same_records_def split: if_split_asm)
qed

lemma sync_cilium_records:
  assumes "cluster_laws nb k v matches contains"
  obtains r w' where "sync_cilium_address k ns nb c host gid result w = Some (r, w')"
    and "same_records (v w) (v w')" and "\<And>x. r = Inl x \<Longrightarrow> cr_Error x \<noteq> []"
proof -
  note L = cluster_lawsD [OF assms]
  show ?thesis
  proof (cases "getKamajiControlPlaneIP k ns (cl_Name c) w" rule: call_cases)
    case (err e w1)
    with getKamajiControlPlaneIP_pure [OF L(6) err] show ?thesis
      by (intro that [of "Inr result" w1]) (auto simp: sync_cilium_address_def)
  next
    case (ok ip w1)
    note v1 = getKamajiControlPlaneIP_pure [OF L(6) ok]
    show ?thesis
    proof (cases "ip = []")
      case True
      with ok v1 show ?thesis by (intro that [of "Inr result" w1]) (auto simp: sync_cilium_address_def)
    next
      case False
      obtain dns w2 where dns: "(if \<not> isHostname host then Option.bind (getDNSNameFromPrefix nb ip (cl_Name c) w1)
          (\<lambda>(r, w). Some (case r of Inl _ \<Rightarrow> [] | Inr n \<Rightarrow> n, w)) else Some (host, w1)) = Some (dns, w2)"
        and v2: "v w2 = v w1"
        using getDNSNameFromPrefix_pure [OF L(5,7), of ip "cl_Name c" w1] by (cases "isHostname host") auto
      from getOrCreateIPAddress_records [OF L(4), of ip gid dns w2] obtain r w3 where
        addr: "getOrCreateIPAddress nb ip gid dns w2 = Some (r, w3)" and rec: "same_records (v w2) (v w3)"
        and msg: "\<And>e. r = Inl e \<Longrightarrow> error_message e \<noteq> []" by metis
      have "sync_cilium_address k ns nb c host gid result w = (case r of
          Inl err \<Rightarrow> Some (Inl (result\<lparr>cr_Error := error_message err\<rparr>), w3)
        | Inr (a, b) \<Rightarrow> Some (Inr ((mark_updated b result)\<lparr>cr_IPAddressID := ip_Id a\<rparr>), w3))"
        using ok False addr by (simp add: sync_cilium_address_def dns)
      with rec v1 v2 msg show ?thesis by (cases r) (auto intro: that split: prod.splits)
    qed
  qed
qed

lemma sync_tailscale_records:
  assumes "cluster_laws nb k v matches contains"
  obtains r w' where "sync_tailscale_address k ns nb c gid result w = Some (r, w')"
    and "same_records (v w) (v w')"
proof -
  note L = cluster_lawsD [OF assms]
  show ?thesis
  proof (cases "getKamajiTailscaleDevice k ns (cl_Name c) w" rule: call_cases)
    case (err e w1)
    with getKamajiTailscaleDevice_pure [OF L(6) err] show ?thesis
      by (intro that [of result w1]) (auto simp: sync_tailscale_address_def)
  next
    case (ok d w1)
    note v1 = getKamajiTailscaleDevice_pure [OF L(6) ok]
    show ?thesis
    proof (cases "ts_IP d = []")
      case True
      with ok v1 show ?thesis
        by (intro that [of result w1]) (auto simp: sync_tailscale_address_def syncTailscaleIPAM_def)
    next
      case False
      then have ne: "ts_Address d \<noteq> []" by (simp add: ts_Address_def)
      obtain r2 w2 where pfx: "getOrCreateIPAMPrefix nb (ts_IP d) w1 = (r2, w2)" by fastforce
      note v2 = getOrCreateIPAMPrefix_records [OF L(5) pfx]
      from getOrCreateIPAddress_records [OF L(4), of "ts_IP d" gid "ts_FQDN d" w2] obtain r w3 where
        addr: "getOrCreateIPAddress nb (ts_IP d) gid (ts_FQDN d) w2 = Some (r, w3)"
        and v3: "same_records (v w2) (v w3)" by metis
      have "sync_tailscale_address k ns nb c gid result w = (case r of Inl e \<Rightarrow> Some (result, w3)
        | Inr (a, b) \<Rightarrow> Some (mark_updated b (result\<lparr>cr_TailscaleAddress := ts_Address d\<rparr>), w3))"
        using ok False ne pfx addr by (simp add: sync_tailscale_address_def syncTailscaleIPAM_def)
      moreover from v1 v2 v3 have "same_records (v w) (v w3)" by (auto intro: same_records_trans)
      ultimately show ?thesis by (cases r) (auto intro: that split: prod.splits)
    qed
  qed
qed

section \<open>What an iteration records\<close>

text \<open>
  The records of a cluster, as a result without error announces them: its group, the service
  template, and its service.
\<close>

definition service_recorded :: "netbox_db \<Rightarrow> string \<Rightarrow> cluster_sync_result \<Rightarrow> bool" where
  "service_recorded db name x \<longleftrightarrow>
     index0 (filter (\<lambda>t. st_Name t = serviceTemplateName) (db_templates db)) \<noteq> None \<and>
     map_option sv_Id (index0 (filter (\<lambda>s. sv_Description s = service_description name) (db_services db))) =
       Some (cr_ServiceID x)"

definition group_recorded :: "netbox_db \<Rightarrow> string \<Rightarrow> cluster_sync_result \<Rightarrow> bool" where
  "group_recorded db name x \<longleftrightarrow>
     map_option fg_Id (index0 (filter (\<lambda>g. fg_Name g = name) (db_groups db))) = Some (cr_FHRPGroupID x)"

text \<open>The state in which a run has nothing to create for a cluster.\<close>

definition service_ready :: "netbox_db \<Rightarrow> string \<Rightarrow> bool" where
  "service_ready db name \<longleftrightarrow>
     index0 (filter (\<lambda>t. st_Name t = serviceTemplateName) (db_templates db)) \<noteq> None \<and>
     index0 (filter (\<lambda>s. sv_Description s = service_description name) (db_services db)) \<noteq> None"

definition group_ready :: "netbox_db \<Rightarrow> string \<Rightarrow> bool" where
  "group_ready db name \<longleftrightarrow> index0 (filter (\<lambda>g. fg_Name g = name) (db_groups db)) \<noteq> None"

lemma recorded_ready:
  "service_recorded db name x \<Longrightarrow> service_ready db name"
  "group_recorded db name x \<Longrightarrow> group_ready db name"
  by (auto simp: service_recorded_def service_ready_def group_recorded_def group_ready_def)

lemma ready_same_records:
  "same_records db db' \<Longrightarrow> service_ready db' name \<longleftrightarrow> service_ready db name"
  "same_records db db' \<Longrightarrow> group_ready db' name \<longleftrightarrow> group_ready db name"
  by (simp_all add: same_records_def service_ready_def group_ready_def)

text \<open>The tables only grow, at their end.\<close>

definition grown :: "netbox_db \<Rightarrow> netbox_db \<Rightarrow> bool" where
  "grown db db' \<longleftrightarrow>
     (\<exists>gs. db_groups db' = db_groups db @ gs) \<and> (\<exists>ts. db_templates db' = db_templates db @ ts) \<and>
     (\<exists>ss. db_services db' = db_services db @ ss)"

lemma same_records_grown: "same_records a b \<Longrightarrow> grown a b"
  by (simp add: same_records_def grown_def)

lemma grown_refl [simp]: "grown a a"
  by (simp add: grown_def)

lemma grown_trans: "grown a b \<Longrightarrow> grown b c \<Longrightarrow> grown a c"
  by (auto simp: grown_def)

lemma index0_append: "index0 (xs @ ys) = (case index0 xs of None \<Rightarrow> index0 ys | Some x \<Rightarrow> Some x)"
  by (cases xs) auto

lemma service_recorded_grown: "grown db db' \<Longrightarrow> service_recorded db n x \<Longrightarrow> service_recorded db' n x"
  unfolding grown_def service_recorded_def by (auto simp: index0_append)

lemma group_recorded_grown: "grown db db' \<Longrightarrow> group_recorded db n x \<Longrightarrow> group_recorded db' n x"
  unfolding grown_def group_recorded_def by (auto simp: index0_append)

lemma getOrCreateServiceTemplate_effect:
  assumes "template_laws nb v"
  obtains r w' where "getOrCreateServiceTemplate nb port w = Some (r, w')"
    and "db_groups (v w') = db_groups (v w)" and "grown (v w) (v w')" and "db_services (v w') = db_services (v w)"
    and "\<And>e. r = Inl e \<Longrightarrow> error_message e \<noteq> []"
    and "\<And>x. r = Inr x \<Longrightarrow> index0 (filter (\<lambda>t. st_Name t = serviceTemplateName) (db_templates (v w'))) \<noteq> None"
    and "index0 (filter (\<lambda>t. st_Name t = serviceTemplateName) (db_templates (v w))) \<noteq> None \<Longrightarrow> v w' = v w"
proof -
  have msg: "error_message e \<noteq> []" if "getOrCreateServiceTemplate nb port w = Some (Inl e, w')" for e w'
    using that by (auto simp: tmpl.shape elim!: bind_SomeE split: prod.split_asm sum.split_asm if_split_asm)
  show ?thesis
    using assms
  proof (cases rule: tmpl.outcomes [where r = port and w = w])
    case (err e w')
    then show ?thesis by (intro that [of "Inl e" w']) (auto dest: msg)
  next
    case (found x w')
    then show ?thesis by (intro that [of "Inr (x, False)" w']) auto
  next
    case (new x w')
    then show ?thesis by (intro that [of "Inr (x, True)" w']) (auto simp: grown_def)
  qed
qed

lemma getOrCreateService_effect:
  assumes "service_laws nb v"
  obtains r w' where "getOrCreateService nb gid name port w = Some (r, w')"
    and "db_groups (v w') = db_groups (v w)" and "grown (v w) (v w')" and "db_templates (v w') = db_templates (v w)"
    and "\<And>e. r = Inl e \<Longrightarrow> error_message e \<noteq> []"
    and "\<And>x b. r = Inr (x, b) \<Longrightarrow>
      index0 (filter (\<lambda>s. sv_Description s = service_description name) (db_services (v w'))) = Some x"
    and "index0 (filter (\<lambda>s. sv_Description s = service_description name) (db_services (v w))) \<noteq> None \<Longrightarrow> v w' = v w"
proof -
  have msg: "error_message e \<noteq> []" if "getOrCreateService nb gid name port w = Some (Inl e, w')" for e w'
    using that
    by (auto simp: svc.shape [of nb "(gid, name, port)", simplified] elim!: bind_SomeE
        split: prod.split_asm sum.split_asm if_split_asm)
  show ?thesis
    using assms
  proof (cases rule: svc.outcomes [where r = "(gid, name, port)" and w = w])
    case (err e w')
    then show ?thesis by (intro that [of "Inl e" w']) (auto dest: msg)
  next
    case (found x w')
    then show ?thesis by (intro that [of "Inr (x, False)" w']) auto
  next
    case (new x w')
    then show ?thesis by (intro that [of "Inr (x, True)" w']) (auto simp: grown_def)
  qed
qed

lemma sync_service_effect:
  assumes "template_laws nb v" and "service_laws nb v"
  obtains x w' where "sync_service nb c gid port result w = Some (x, w')"
    and "db_groups (v w') = db_groups (v w)" and "grown (v w) (v w')"
    and "cr_Error x = [] \<Longrightarrow> service_recorded (v w') (cl_Name c) x"
    and "service_ready (v w) (cl_Name c) \<Longrightarrow> same_records (v w) (v w')"
proof -
  from getOrCreateServiceTemplate_effect [OF assms(1), of port w] obtain t w1 where
    t: "getOrCreateServiceTemplate nb port w = Some (t, w1)" "db_groups (v w1) = db_groups (v w)"
      "grown (v w) (v w1)" "\<And>e. t = Inl e \<Longrightarrow> error_message e \<noteq> []"
      "\<And>x. t = Inr x \<Longrightarrow> index0 (filter (\<lambda>t. st_Name t = serviceTemplateName) (db_templates (v w1))) \<noteq> None"
      "index0 (filter (\<lambda>t. st_Name t = serviceTemplateName) (db_templates (v w))) \<noteq> None \<Longrightarrow> v w1 = v w"
    by metis
  show ?thesis
  proof (cases t)
    case (Inl e)
    with t show ?thesis
      by (intro that [of "result\<lparr>cr_Error := error_message e\<rparr>" w1]) (auto simp: sync_service_def service_ready_def)
  next
    case (Inr tb)
    obtain tmpl b where tb: "tb = (tmpl, b)" by fastforce
    from getOrCreateService_effect [OF assms(2), of gid "cl_Name c" port w1] obtain s w2 where
      s: "getOrCreateService nb gid (cl_Name c) port w1 = Some (s, w2)" "db_groups (v w2) = db_groups (v w1)"
        "grown (v w1) (v w2)" "db_templates (v w2) = db_templates (v w1)"
        "\<And>e. s = Inl e \<Longrightarrow> error_message e \<noteq> []"
        "\<And>x b. s = Inr (x, b) \<Longrightarrow>
          index0 (filter (\<lambda>s. sv_Description s = service_description (cl_Name c)) (db_services (v w2))) = Some x"
        "index0 (filter (\<lambda>s. sv_Description s = service_description (cl_Name c)) (db_services (v w1))) \<noteq> None \<Longrightarrow>
          v w2 = v w1"
      by metis
    have quiet: "same_records (v w) (v w2)" if "service_ready (v w) (cl_Name c)"
      using that t(6) s(7) by (simp add: service_ready_def)
    have run: "sync_service nb c gid port result w = (case s of
        Inl err \<Rightarrow> Some ((mark_updated b result)\<lparr>cr_Error := error_message err\<rparr>, w2)
      | Inr (svc, svcCreated) \<Rightarrow>
          Some ((mark_updated svcCreated (mark_updated b result))\<lparr>cr_ServiceID := sv_Id svc\<rparr>, w2))"
      using t(1) s(1) Inr tb by (simp add: sync_service_def Let_def)
    have grown: "grown (v w) (v w2)" using t(3) s(3) by (rule grown_trans)
    show ?thesis
    proof (cases s)
      case (Inl e)
      with run s t grown quiet show ?thesis
        by (intro that [of "(mark_updated b result)\<lparr>cr_Error := error_message e\<rparr>" w2]) auto
    next
      case svc: (Inr sb)
      obtain x d where sb: "sb = (x, d)" by fastforce
      with run svc s t Inr grown quiet show ?thesis
        by (intro that [of "(mark_updated d (mark_updated b result))\<lparr>cr_ServiceID := sv_Id x\<rparr>" w2])
          (auto simp: service_recorded_def)
    qed
  qed
qed

lemma sync_records_effect:
  assumes "cluster_laws nb k v matches contains"
  obtains x w' where "sync_records k ns nb c host port gid result w = Some (x, w')"
    and "db_groups (v w') = db_groups (v w)" and "grown (v w) (v w')"
    and "cr_Error x = [] \<Longrightarrow> service_recorded (v w') (cl_Name c) x"
    and "service_ready (v w) (cl_Name c) \<Longrightarrow> same_records (v w) (v w')"
proof (cases "cl_TypeSlug c = managedKubernetesClusterTypeSlug")
  note L = cluster_lawsD [OF assms]
  case False
  with sync_service_effect [OF L(2,3), of c gid port result w] that show ?thesis
    by (auto simp: sync_records_def)
next
  note L = cluster_lawsD [OF assms]
  case True
  from sync_cilium_records [OF assms, of ns c host gid result w] obtain r w1 where
    r: "sync_cilium_address k ns nb c host gid result w = Some (r, w1)" "same_records (v w) (v w1)"
      "\<And>x. r = Inl x \<Longrightarrow> cr_Error x \<noteq> []" by metis
  show ?thesis
  proof (cases r)
    case (Inl x)
    with True r show ?thesis
      by (intro that [of x w1]) (auto simp: sync_records_def same_records_def grown_def)
  next
    case (Inr y)
    from sync_tailscale_records [OF assms, of ns c gid y w1] obtain z w2 where
      z: "sync_tailscale_address k ns nb c gid y w1 = Some (z, w2)" "same_records (v w1) (v w2)" by metis
    from sync_service_effect [OF L(2,3), of c gid port z w2] obtain x w3 where
      x: "sync_service nb c gid port z w2 = Some (x, w3)" "db_groups (v w3) = db_groups (v w2)"
        "grown (v w2) (v w3)" "cr_Error x = [] \<Longrightarrow> service_recorded (v w3) (cl_Name c) x"
        "service_ready (v w2) (cl_Name c) \<Longrightarrow> same_records (v w2) (v w3)" by metis
    from r(2) z(2) have same: "same_records (v w) (v w2)" by (rule same_records_trans)
    have "same_records (v w) (v w3)" if "service_ready (v w) (cl_Name c)"
      using that x(5) same ready_same_records(1) [OF same] by (auto intro: same_records_trans)
    moreover from same have "db_groups (v w3) = db_groups (v w)" "grown (v w) (v w3)"
      using x(2,3) by (auto simp: same_records_def grown_def)
    ultimately show ?thesis using True r(1) Inr z(1) x(1,4)
      by (intro that [of x w3]) (auto simp: sync_records_def)
  qed
qed

text \<open>One iteration: the groups it adds (none or one), the numbers it uses up, and its result.\<close>

definition group_added :: "netbox_db \<Rightarrow> string \<Rightarrow> int32 \<Rightarrow> int32 \<Rightarrow> netbox_db \<Rightarrow> bool" where
  "group_added db name n n' db' \<longleftrightarrow>
     db_groups db' = db_groups db \<and> n' = n \<or>
     (\<exists>g. db_groups db' = db_groups db @ [g] \<and> fg_Name g = name \<and> fg_GroupId g = n \<and> n' = n + 1 \<and>
        name \<notin> fg_Name ` set (db_groups db))"

lemma getOrCreateFHRPGroup_effect:
  assumes "fhrp_laws nb v"
  obtains r w' where "getOrCreateFHRPGroup nb name n w = Some (r, w')" and "grown (v w) (v w')"
    and "\<And>e. r = Inl e \<Longrightarrow> error_message e \<noteq> [] \<and> db_groups (v w') = db_groups (v w)"
    and "\<And>g b. r = Inr (g, b) \<Longrightarrow> group_added (v w) name n (if b then n + 1 else n) (v w') \<and>
      index0 (filter (\<lambda>g. fg_Name g = name) (db_groups (v w'))) = Some g"
    and "group_ready (v w) name \<Longrightarrow> v w' = v w"
proof -
  have msg: "error_message e \<noteq> []" if "getOrCreateFHRPGroup nb name n w = Some (Inl e, w')" for e w'
    using that
    by (auto simp: fhrp.shape [of nb "(name, n)", simplified] elim!: bind_SomeE
        split: prod.split_asm sum.split_asm if_split_asm)
  show ?thesis
    using assms
  proof (cases rule: fhrp.outcomes [where r = "(name, n)" and w = w])
    case (err e w')
    then show ?thesis by (intro that [of "Inl e" w']) (auto dest: msg)
  next
    case (found x w')
    then show ?thesis by (intro that [of "Inr (x, False)" w']) (auto simp: group_added_def)
  next
    case (new x w')
    then show ?thesis
      by (intro that [of "Inr (x, True)" w']) (auto simp: grown_def group_added_def group_ready_def filter_empty_conv)
  qed
qed

text \<open>The turn of a cluster whose endpoint is known.\<close>

lemma sync_reached_effect:
  assumes "cluster_laws nb k v matches contains"
    and e: "cluster_endpoint k ns nb c w = Some (Some (Inr (host, port)), w1)" "v w1 = v w"
  obtains x n' w' where "sync_cluster k ns nb c n w = Some ((Some x, n'), w')" and "grown (v w) (v w')"
    and "group_added (v w) (cl_Name c) n n' (v w')" and "cr_ClusterName x = cl_Name c"
    and "cr_Error x = [] \<Longrightarrow> group_recorded (v w') (cl_Name c) x \<and> service_recorded (v w') (cl_Name c) x"
    and "group_ready (v w) (cl_Name c) \<Longrightarrow> service_ready (v w) (cl_Name c) \<Longrightarrow> same_records (v w) (v w')"
proof -
  note L = cluster_lawsD [OF assms(1)]
  let ?new = "new_result (cl_Name c)"
  from getOrCreateFHRPGroup_effect [OF L(1), of "cl_Name c" n w1] obtain g w2 where
    g: "getOrCreateFHRPGroup nb (cl_Name c) n w1 = Some (g, w2)" "grown (v w1) (v w2)"
      "\<And>e. g = Inl e \<Longrightarrow> error_message e \<noteq> [] \<and> db_groups (v w2) = db_groups (v w1)"
      "\<And>x b. g = Inr (x, b) \<Longrightarrow> group_added (v w1) (cl_Name c) n (if b then n + 1 else n) (v w2) \<and>
        index0 (filter (\<lambda>g. fg_Name g = cl_Name c) (db_groups (v w2))) = Some x"
      "group_ready (v w1) (cl_Name c) \<Longrightarrow> v w2 = v w1" by metis
  show ?thesis
  proof (cases g)
    case (Inl err)
    with e g show ?thesis
      by (intro that [of "?new\<lparr>cr_Error := error_message err\<rparr>" n w2]) (auto simp: sync_cluster_def group_added_def Let_def)
  next
    case (Inr xb)
    obtain x b where xb: "xb = (x, b)" by fastforce
    let ?r = "(mark_updated b ?new)\<lparr>cr_FHRPGroupID := fg_Id x\<rparr>"
    from sync_records_effect [OF assms(1), of ns c host port "fg_Id x" ?r w2] obtain y w3 where
      y: "sync_records k ns nb c host port (fg_Id x) ?r w2 = Some (y, w3)"
        "db_groups (v w3) = db_groups (v w2)" "grown (v w2) (v w3)"
        "cr_Error y = [] \<Longrightarrow> service_recorded (v w3) (cl_Name c) y"
        "service_ready (v w2) (cl_Name c) \<Longrightarrow> same_records (v w2) (v w3)" by metis
    have name: "cr_ClusterName y = cl_Name c \<and> cr_FHRPGroupID y = fg_Id x"
      using sync_records_name [OF y(1)] by simp
    have "sync_cluster k ns nb c n w = Some ((Some y, if b then n + 1 else n), w3)"
      using e(1) g(1) Inr xb y(1) by (simp add: sync_cluster_def Let_def)
    moreover have "group_added (v w) (cl_Name c) n (if b then n + 1 else n) (v w3)"
      using g(4) [of x b] Inr xb e(2) y(2) by (simp add: group_added_def)
    moreover have "grown (v w) (v w3)" using grown_trans [OF g(2) y(3)] e(2) by simp
    moreover have "group_recorded (v w3) (cl_Name c) y"
      using g(4) [of x b] Inr xb y(2) name by (simp add: group_recorded_def)
    moreover have "same_records (v w) (v w3)" if "group_ready (v w) (cl_Name c)" "service_ready (v w) (cl_Name c)"
      using that g(5) y(5) e(2) by simp
    ultimately show ?thesis using y(4) name by (intro that [of y "if b then n + 1 else n" w3]) auto
  qed
qed

lemma sync_cluster_effect:
  assumes "cluster_laws nb k v matches contains"
  obtains r n' w' where "sync_cluster k ns nb c n w = Some ((r, n'), w')" and "grown (v w) (v w')"
    and "group_added (v w) (cl_Name c) n n' (v w')" and "r = None \<longleftrightarrow> \<not> supported c"
    and "\<And>x. r = Some x \<Longrightarrow> cr_ClusterName x = cl_Name c \<and>
      (cr_Error x = [] \<longrightarrow> group_recorded (v w') (cl_Name c) x \<and> service_recorded (v w') (cl_Name c) x)"
    and "supported c \<Longrightarrow> group_ready (v w) (cl_Name c) \<Longrightarrow> service_ready (v w) (cl_Name c) \<Longrightarrow> same_records (v w) (v w')"
proof -
  note L = cluster_lawsD [OF assms]
  let ?new = "new_result (cl_Name c)"
  from cluster_endpoint_pure [OF L(6,7), of ns c w] obtain e w1 where
    e: "cluster_endpoint k ns nb c w = Some (e, w1)" "v w1 = v w" "e = None \<longleftrightarrow> \<not> supported c"
      "\<And>x. e = Some (Inl x) \<Longrightarrow> error_message x \<noteq> []" by metis
  consider "e = None" | x where "e = Some (Inl x)" | host port where "e = Some (Inr (host, port))"
    by (cases e) (auto simp: sum.exhaust_sel, metis sum.exhaust surj_pair)
  then show ?thesis
  proof cases
    case 1
    with e show ?thesis by (intro that [of None n w1]) (auto simp: sync_cluster_def group_added_def Let_def)
  next
    case (2 x)
    with e show ?thesis
      by (intro that [of "Some (?new\<lparr>cr_Error := error_message x\<rparr>)" n w1])
        (auto simp: sync_cluster_def group_added_def Let_def)
  next
    case (3 host port)
    from sync_reached_effect [OF assms e(1,2) [unfolded 3], of n] obtain x n' w' where
      "sync_cluster k ns nb c n w = Some ((Some x, n'), w')" "grown (v w) (v w')"
      "group_added (v w) (cl_Name c) n n' (v w')" "cr_ClusterName x = cl_Name c"
      "cr_Error x = [] \<Longrightarrow> group_recorded (v w') (cl_Name c) x \<and> service_recorded (v w') (cl_Name c) x"
      "group_ready (v w) (cl_Name c) \<Longrightarrow> service_ready (v w) (cl_Name c) \<Longrightarrow> same_records (v w) (v w')" by metis
    with 3 e(3) show ?thesis by (intro that [of "Some x" n' w']) auto
  qed
qed

section \<open>The loop\<close>

definition cluster_recorded :: "netbox_db \<Rightarrow> nb_cluster \<Rightarrow> cluster_sync_result \<Rightarrow> bool" where
  "cluster_recorded db c x \<longleftrightarrow> cr_ClusterName x = cl_Name c \<and>
     (cr_Error x = [] \<longrightarrow> group_recorded db (cl_Name c) x \<and> service_recorded db (cl_Name c) x)"

lemma cluster_recorded_grown: "grown db db' \<Longrightarrow> cluster_recorded db c x \<Longrightarrow> cluster_recorded db' c x"
  by (auto simp: cluster_recorded_def intro: group_recorded_grown service_recorded_grown)

lemma cluster_recorded_rows:
  assumes "cluster_recorded db c x"
  shows "cr_ClusterName x = cl_Name c \<and> (cr_Error x = [] \<longrightarrow>
    (\<exists>g \<in> set (db_groups db). fg_Name g = cl_Name c \<and> fg_Id g = cr_FHRPGroupID x) \<and>
    (\<exists>t \<in> set (db_templates db). st_Name t = serviceTemplateName) \<and>
    (\<exists>s \<in> set (db_services db). sv_Description s = service_description (cl_Name c) \<and> sv_Id s = cr_ServiceID x))"
  using assms unfolding cluster_recorded_def group_recorded_def service_recorded_def
  by (auto simp: filter_empty_conv dest!: index0_in_set)

text \<open>The groups a run adds: numbered from \<open>n\<close> on, one per name, for names that had none.\<close>

definition numbered :: "netbox_db \<Rightarrow> int32 \<Rightarrow> netbox_db \<Rightarrow> bool" where
  "numbered db n db' \<longleftrightarrow>
     (\<exists>gs. db_groups db' = db_groups db @ gs \<and>
        map fg_GroupId gs = map (\<lambda>i. n + of_nat i) [0..<length gs] \<and>
        distinct (map fg_Name gs) \<and> fg_Name ` set gs \<inter> fg_Name ` set (db_groups db) = {})"

lemma numbered_refl: "db_groups db' = db_groups db \<Longrightarrow> numbered db n db'"
  unfolding numbered_def by (intro exI [of _ "[]"]) simp

lemma numbered_step:
  assumes "group_added db name n n' db1" and "numbered db1 n' db2"
  shows "numbered db n db2"
  using assms(1) unfolding group_added_def
proof
  assume "db_groups db1 = db_groups db \<and> n' = n"
  with assms(2) show ?thesis by (simp add: numbered_def)
next
  assume "\<exists>g. db_groups db1 = db_groups db @ [g] \<and> fg_Name g = name \<and> fg_GroupId g = n \<and> n' = n + 1 \<and>
      name \<notin> fg_Name ` set (db_groups db)"
  then obtain g where g: "db_groups db1 = db_groups db @ [g]" "fg_Name g = name" "fg_GroupId g = n"
    "n' = n + 1" "name \<notin> fg_Name ` set (db_groups db)" by blast
  from assms(2) obtain gs where gs: "db_groups db2 = db_groups db1 @ gs"
    "map fg_GroupId gs = map (\<lambda>i. n' + of_nat i) [0..<length gs]" "distinct (map fg_Name gs)"
    "fg_Name ` set gs \<inter> fg_Name ` set (db_groups db1) = {}" unfolding numbered_def by blast
  have "map fg_GroupId (g # gs) = map (\<lambda>i. n + of_nat i) [0..<length (g # gs)]"
    using g(3,4) gs(2) by (simp add: upt_conv_Cons map_Suc_upt [symmetric] o_def add.assoc del: upt_Suc)
  with g gs show ?thesis unfolding numbered_def by (intro exI [of _ "g # gs"]) auto
qed

lemma sync_clusters_effect:
  assumes "cluster_laws nb k v matches contains"
  shows "\<exists>rs w'. sync_clusters k ns nb cs n w = Some (rs, w') \<and> grown (v w) (v w') \<and>
    numbered (v w) n (v w') \<and> list_all2 (cluster_recorded (v w')) (filter supported cs) rs"
proof (induction cs arbitrary: n w)
  case Nil
  then show ?case by (simp add: numbered_refl)
next
  case (Cons c cs)
  from sync_cluster_effect [OF assms, of ns c n w] obtain r n' w1 where
    c: "sync_cluster k ns nb c n w = Some ((r, n'), w1)" "grown (v w) (v w1)"
      "group_added (v w) (cl_Name c) n n' (v w1)" "r = None \<longleftrightarrow> \<not> supported c"
      "\<And>x. r = Some x \<Longrightarrow> cluster_recorded (v w1) c x" unfolding cluster_recorded_def by metis
  from Cons [of n' w1] obtain rs w2 where
    cs: "sync_clusters k ns nb cs n' w1 = Some (rs, w2)" "grown (v w1) (v w2)"
      "numbered (v w1) n' (v w2)" "list_all2 (cluster_recorded (v w2)) (filter supported cs) rs" by blast
  let ?rs = "case r of None \<Rightarrow> rs | Some x \<Rightarrow> x # rs"
  have "sync_clusters k ns nb (c # cs) n w = Some (?rs, w2)" using c(1) cs(1) by simp
  moreover have "grown (v w) (v w2)" using c(2) cs(2) by (rule grown_trans)
  moreover have "numbered (v w) n (v w2)" using c(3) cs(3) by (rule numbered_step)
  moreover have "list_all2 (cluster_recorded (v w2)) (filter supported (c # cs)) ?rs"
    using c(4,5) cs(4) cluster_recorded_grown [OF cs(2)] by (cases r) auto
  ultimately show ?case by blast
qed

lemma sync_clusters_quiet:
  assumes "cluster_laws nb k v matches contains"
    and "\<forall>c \<in> set cs. supported c \<longrightarrow> group_ready (v w) (cl_Name c) \<and> service_ready (v w) (cl_Name c)"
    and "sync_clusters k ns nb cs n w = Some (rs, w')"
  shows "same_records (v w) (v w')"
  using assms(2,3)
proof (induction cs arbitrary: n w rs)
  case Nil
  then show ?case by simp
next
  case (Cons c cs)
  from sync_cluster_effect [OF assms(1), of ns c n w] obtain r n' w1 where
    c: "sync_cluster k ns nb c n w = Some ((r, n'), w1)"
      "supported c \<Longrightarrow> group_ready (v w) (cl_Name c) \<Longrightarrow> service_ready (v w) (cl_Name c) \<Longrightarrow> same_records (v w) (v w1)"
    by metis
  have same: "same_records (v w) (v w1)"
  proof (cases "supported c")
    case True
    with Cons.prems(1) c(2) show ?thesis by simp
  next
    case False
    with c(1) have "w1 = w" by (auto simp: sync_cluster_def cluster_endpoint_def supported_def Let_def)
    then show ?thesis by simp
  qed
  from Cons.prems(2) c(1) obtain rs' where "sync_clusters k ns nb cs n' w1 = Some (rs', w')"
    by (auto elim!: bind_SomeE)
  moreover have "\<forall>c \<in> set cs. supported c \<longrightarrow> group_ready (v w1) (cl_Name c) \<and> service_ready (v w1) (cl_Name c)"
    using Cons.prems(1) ready_same_records [OF same] by simp
  ultimately have "same_records (v w1) (v w')" using Cons.IH by blast
  with same show ?case by (rule same_records_trans)
qed

lemma getNextFHRPGroupID_total:
  assumes "fhrp_laws nb v" and "paged nb"
  obtains r w' where "getNextFHRPGroupID nb w = Some (r, w')" and "v w' = v w"
proof (cases "IpamFhrpGroupsList nb (FhrpGroups\<lparr>fq_Limit := Some 1, fq_Ordering := Some ''-group_id''\<rparr>) w"
    rule: call_cases)
  case (err e w1)
  with fhrp_lawsD(1) [OF assms(1) err] that show ?thesis by (auto simp: getNextFHRPGroupID_def)
next
  case (ok p w1)
  note v1 = fhrp_lawsD(1) [OF assms(1) ok]
  show ?thesis
  proof (cases "Count p = 0")
    case True
    with ok v1 that show ?thesis by (auto simp: getNextFHRPGroupID_def)
  next
    case False
    from assms(2) obtain g where "index0 (Results p) = Some g"
      unfolding paged_def using ok False by (auto elim: non_empty_pagesD)
    with False ok v1 that show ?thesis by (auto simp: getNextFHRPGroupID_def)
  qed
qed

lemma Cluster_SyncStatus_runs:
  assumes "cluster_laws nb k v matches contains"
    and "VirtualizationClustersList nb (clusters_request names) w = (Inr p, w1)" and "Count p \<noteq> 0"
  obtains (failed) e w' where "Cluster_SyncStatus k ns nb names w = Some (Inl e, w')" and "v w' = v w1"
    | (run) n w2 rs w' where "getNextFHRPGroupID nb w1 = Some (Inr n, w2)" and "v w2 = v w1"
      and "sync_clusters k ns nb (Results p) n w2 = Some (rs, w')"
      and "Cluster_SyncStatus k ns nb names w = Some (Inr rs, w')"
proof -
  note L = cluster_lawsD [OF assms(1)]
  from getNextFHRPGroupID_total [OF L(1,7), of w1] obtain r w2 where
    r: "getNextFHRPGroupID nb w1 = Some (r, w2)" "v w2 = v w1" by metis
  show ?thesis
  proof (cases r)
    case (Inl e)
    with r assms(2,3) show ?thesis
      by (intro that(1) [of "Wrapf ''cannot determine next FHRP group ID: '' e" w2])
        (simp_all add: Cluster_SyncStatus_def)
  next
    case (Inr n)
    from sync_clusters_effect [OF assms(1), of ns "Results p" n w2] obtain rs w' where
      "sync_clusters k ns nb (Results p) n w2 = Some (rs, w')" by blast
    with r Inr assms(2,3) show ?thesis
      by (intro that(2) [of n w2 rs w']) (simp_all add: Cluster_SyncStatus_def)
  qed
qed

section \<open>Sample world\<close>

definition head_device :: device where
  "head_device = blank_device\<lparr>dev_Id := 5, dev_Name := Value ''head'', dev_Role := ''headnode'',
     dev_PrimaryIp4 := Value \<lparr>bip_Id = 1, bip_Address = ''10.1.0.5/24'', bip_Display = ''10.1.0.5/24''\<rparr>\<rparr>"

definition capi_c2 :: mem_object where
  "capi_c2 = \<lparr>mo_Gvk = capiClusterGVK, mo_Namespace = ''prod'', mo_Name = ''c2'', mo_Labels = [],
     mo_Annotations = [], mo_Strings = [([''spec'', ''controlPlaneEndpoint'', ''host''], ''c2.example.org'')],
     mo_Ints = [([''spec'', ''controlPlaneEndpoint'', ''port''], 8443)], mo_Maps = [], mo_Slices = []\<rparr>"

definition kcp_c2 :: mem_object where
  "kcp_c2 = \<lparr>mo_Gvk = kamajiControlPlaneGVK, mo_Namespace = ''prod'', mo_Name = ''c2'', mo_Labels = [],
     mo_Annotations = [], mo_Strings = [], mo_Ints = [],
     mo_Maps = [(serviceAnnotations_path, [(ciliumLBIPAnnotation, ''192.0.2.7, 192.0.2.8'')])], mo_Slices = []\<rparr>"

definition two_clusters :: mem where
  "two_clusters = empty_mem\<lparr>m_devices := [head_device],
     m_clusters := [\<lparr>cl_Id = 1, cl_Name = ''c1'', cl_TypeSlug = ''standalone-kubernetes'', cl_Status = None\<rparr>,
       \<lparr>cl_Id = 2, cl_Name = ''c2'', cl_TypeSlug = ''managed-kubernetes'', cl_Status = None\<rparr>],
     m_groups := [\<lparr>fg_Id = 1, fg_Name = ''other'', fg_GroupId = 41\<rparr>],
     m_objects := [capi_c2, kcp_c2]\<rparr>"

lemma mem_reads_pure: "reads_pure mem_netbox mem_kube mem_view"
  unfolding reads_pure_def pure_call_def
  by (auto simp: mem_netbox_def mem_kube_def split: option.splits)

lemma page_non_empty:
  "Count (page xs) \<noteq> 0 \<Longrightarrow> Results (page xs) \<noteq> []"
  "Count (limited (Some 1) xs) \<noteq> 0 \<Longrightarrow> Results (limited (Some 1) xs) \<noteq> []"
  by (simp_all add: page_def limited_def)

lemma mem_paged: "paged mem_netbox"
  unfolding paged_def non_empty_pages_def
proof (intro conjI allI impI)
  fix w p w' ip
  assume "IpamPrefixesList mem_netbox (most_specific_prefix ip) w = (Inr p, w')" and "Count p \<noteq> 0"
  then show "Results p \<noteq> []"
    using page_non_empty(2) by (auto simp: most_specific_prefix_def Prefixes_def)
next
  fix w p w'
  assume "IpamFhrpGroupsList mem_netbox (FhrpGroups\<lparr>fq_Limit := Some 1, fq_Ordering := Some ''-group_id''\<rparr>) w
      = (Inr p, w')" and "Count p \<noteq> 0"
  then show "Results p \<noteq> []"
    using page_non_empty(2) by (auto simp: FhrpGroups_def Let_def)
qed (auto simp: mem_netbox_def page_def)

lemma mem_cluster_laws: "cluster_laws mem_netbox mem_kube mem_view mem_matches mem_contains"
  unfolding cluster_laws_def
  using mem_fhrp_laws mem_template_laws mem_service_laws mem_ip_laws mem_prefix_laws mem_reads_pure mem_paged
  by blast

lemma two_clusters_listing:
  "VirtualizationClustersList mem_netbox (clusters_request []) two_clusters =
     (Inr (page (m_clusters two_clusters)), two_clusters)"
  by code_simp

lemma two_clusters_run:
  obtains rs w where "Cluster_SyncStatus mem_kube ''prod'' mem_netbox [] two_clusters = Some (Inr rs, w)"
    and "map (\<lambda>x. (cr_ClusterName x, cr_FHRPGroupID x, cr_ServiceID x, cr_Error x)) rs =
      [(''c1'', 2, 1, []), (''c2'', 3, 2, [])]"
    and "m_clusters w = m_clusters two_clusters"
proof -
  have run: "case Cluster_SyncStatus mem_kube ''prod'' mem_netbox [] two_clusters of
      Some (Inr rs, w) \<Rightarrow> map (\<lambda>x. (cr_ClusterName x, cr_FHRPGroupID x, cr_ServiceID x, cr_Error x)) rs =
        [(''c1'', 2, 1, []), (''c2'', 3, 2, [])] \<and> m_clusters w = m_clusters two_clusters
    | _ \<Rightarrow> False"
    by code_simp
  show ?thesis
  proof (cases "Cluster_SyncStatus mem_kube ''prod'' mem_netbox [] two_clusters")
    case None
    with run show ?thesis by simp
  next
    case (Some rw)
    obtain r w where "rw = (r, w)" by fastforce
    with run Some that show ?thesis by (cases r) auto
  qed
qed

lemma two_clusters_count: "Count (page (m_clusters two_clusters)) \<noteq> 0"
  by (simp add: page_def two_clusters_def)

section \<open>Properties\<close>



text \<open>
  C11. The FHRP groups that a run of \<open>SyncStatus\<close> adds are numbered consecutively from one above
  the greatest number in NetBox, each for a different name that had no group before; the groups
  already there are untouched. A failed creation does not use up a number.
\<close>
theorem cluster_sync_numbering:
  assumes "cluster_laws nb k v matches contains" and "fhrp_order_law nb v"
    and "VirtualizationClustersList nb (clusters_request names) w = (Inr p, w1)" and "Count p \<noteq> 0"
    and "v w1 = v w" and "Cluster_SyncStatus k ns nb names w = Some (Inr rs, w')"
  shows "\<exists>n gs. db_groups (v w') = db_groups (v w) @ gs \<and>
    (db_groups (v w) = [] \<longrightarrow> n = 1) \<and>
    (db_groups (v w) \<noteq> [] \<longrightarrow> (\<exists>g \<in> set (db_groups (v w)). n = fg_GroupId g + 1 \<and>
       (\<forall>g' \<in> set (db_groups (v w)). sint (fg_GroupId g') \<le> sint (fg_GroupId g)))) \<and>
    map fg_GroupId gs = map (\<lambda>i. n + of_nat i) [0..<length gs] \<and>
    distinct (map fg_Name gs) \<and> fg_Name ` set gs \<inter> fg_Name ` set (db_groups (v w)) = {}"
  using assms(1,3,4)
proof (cases rule: Cluster_SyncStatus_runs [where ns = ns])
  case (failed e w')
  with assms(6) show ?thesis by simp
next
  case (run n w2 rs' w'')
  with assms(6) sync_clusters_effect [OF assms(1), of ns "Results p" n w2] have "numbered (v w2) n (v w')"
    by auto
  then have "numbered (v w) n (v w')" using run(2) assms(5) by simp
  moreover note getNextFHRPGroupID_spec(2,3) [OF cluster_lawsD(1) [OF assms(1)] assms(2) run(1)]
  ultimately show ?thesis using assms(5) unfolding numbered_def by (intro exI [of _ n]) auto
qed

theorem cluster_sync_numbering_witness:
  "\<exists>rs w. Cluster_SyncStatus mem_kube ''prod'' mem_netbox [] two_clusters = Some (Inr rs, w) \<and>
     (\<exists>gs. m_groups w = m_groups two_clusters @ gs \<and> distinct (map fg_Name gs) \<and> ''other'' \<notin> fg_Name ` set gs)"
proof -
  obtain rs w where call: "Cluster_SyncStatus mem_kube ''prod'' mem_netbox [] two_clusters = Some (Inr rs, w)"
    by (rule two_clusters_run)
  from cluster_sync_numbering [OF mem_cluster_laws mem_fhrp_order_law two_clusters_listing two_clusters_count
      refl call] call
  show ?thesis by (auto simp: mem_view_def two_clusters_def)
qed

text \<open>
  C4. \<open>SyncStatus\<close> is idempotent on its records: after a run in which every cluster succeeded, a
  further run over the same clusters, whatever the world answers, adds no FHRP group, no service
  template and no service and changes none.
\<close>
theorem cluster_sync_idempotent:
  assumes "cluster_laws nb k v matches contains"
    and "VirtualizationClustersList nb (clusters_request names) w = (Inr p, w1)" and "Count p \<noteq> 0"
    and "Cluster_SyncStatus k ns nb names w = Some (Inr rs, w2)" and "\<forall>r \<in> set rs. cr_Error r = []"
    and "v w3 = v w2" and "VirtualizationClustersList nb (clusters_request names) w3 = (Inr p, w4)" and "v w4 = v w3"
    and "Cluster_SyncStatus k ns nb names w3 = Some (out, w5)"
  shows "db_groups (v w5) = db_groups (v w2) \<and> db_templates (v w5) = db_templates (v w2) \<and>
    db_services (v w5) = db_services (v w2)"
proof -
  have ready: "\<forall>c \<in> set (Results p). supported c \<longrightarrow> group_ready (v w2) (cl_Name c) \<and> service_ready (v w2) (cl_Name c)"
    using assms(1-3)
  proof (cases rule: Cluster_SyncStatus_runs [where ns = ns])
    case (run n u rs' u')
    with assms(4) sync_clusters_effect [OF assms(1), of ns "Results p" n u]
    have "list_all2 (cluster_recorded (v w2)) (filter supported (Results p)) rs" by auto
    with assms(5) show ?thesis
      by (fastforce simp: cluster_recorded_def dest: list_all2_in_set1 intro: recorded_ready)
  qed (use assms(4) in simp)
  from assms(1,7,3) have "same_records (v w2) (v w5)"
  proof (cases rule: Cluster_SyncStatus_runs [where ns = ns])
    case (failed e u)
    with assms(6,8,9) show ?thesis by simp
  next
    case (run n u rs' u')
    with assms(6,8,9) ready sync_clusters_quiet [OF assms(1), of "Results p" u ns n rs' u'] show ?thesis by simp
  qed
  then show ?thesis by (simp add: same_records_def)
qed

theorem cluster_sync_idempotent_witness:
  "\<exists>rs w out w'. Cluster_SyncStatus mem_kube ''prod'' mem_netbox [] two_clusters = Some (Inr rs, w) \<and>
     Cluster_SyncStatus mem_kube ''prod'' mem_netbox [] w = Some (out, w') \<and> m_services w' = m_services w"
proof -
  obtain rs w where call: "Cluster_SyncStatus mem_kube ''prod'' mem_netbox [] two_clusters = Some (Inr rs, w)"
    and rs: "map (\<lambda>x. (cr_ClusterName x, cr_FHRPGroupID x, cr_ServiceID x, cr_Error x)) rs =
      [(''c1'', 2, 1, []), (''c2'', 3, 2, [])]"
    and same: "m_clusters w = m_clusters two_clusters" by (rule two_clusters_run)
  then have ok: "\<forall>r \<in> set rs. cr_Error r = []" by auto
  from same have list: "VirtualizationClustersList mem_netbox (clusters_request []) w =
      (Inr (page (m_clusters two_clusters)), w)"
    using two_clusters_listing by (simp add: mem_netbox_def)
  from Cluster_SyncStatus_runs [OF mem_cluster_laws list two_clusters_count, of "''prod''"] obtain out w' where
    again: "Cluster_SyncStatus mem_kube ''prod'' mem_netbox [] w = Some (out, w')" by metis
  from cluster_sync_idempotent [OF mem_cluster_laws two_clusters_listing two_clusters_count call ok refl list
      refl again] call again show ?thesis by (auto simp: mem_view_def)
qed

end
