(* ===== verification/Common_NetBox.thy ===== *)
theory Common_NetBox
  imports NetBox_API
begin

text \<open>
  The package \<open>pkg/common\<close>: the device filters shared by the command line and the controllers,
  the device listing they drive, and the small helpers on tags, VLANs and addresses that every
  generator uses.
\<close>

section \<open>Filters (filters.go)\<close>

record device_filters =
  f_Regions :: "string list"
  f_Sites :: "string list"
  f_Locations :: "string list"
  f_Racks :: "int32 list"
  f_Tenants :: "string list"
  f_Roles :: "string list"
  f_Virtualisation :: bool
  f_Clusters :: "string list"
  f_Status :: "string list"

definition no_filters :: device_filters where
  "no_filters = \<lparr>f_Regions = [], f_Sites = [], f_Locations = [], f_Racks = [], f_Tenants = [], f_Roles = [],
     f_Virtualisation = False, f_Clusters = [], f_Status = []\<rparr>"

section \<open>Device listing (netbox.go)\<close>

text \<open>\<open>len(xs) > 0 && xs[0] != ""\<close>, the guard of every filter.\<close>

definition filter_given :: "string list \<Rightarrow> bool" where
  "filter_given xs = (case xs of [] \<Rightarrow> False | x # _ \<Rightarrow> x \<noteq> [])"

definition rack_filter_given :: "int32 list \<Rightarrow> bool" where
  "rack_filter_given xs = (case xs of [] \<Rightarrow> False | x # _ \<Rightarrow> x \<noteq> 0)"

definition resolveClusterIDs :: "'w netbox \<Rightarrow> string list \<Rightarrow> ('w, int32 list) call" where
  "resolveClusterIDs nb clusterNames w =
     (case VirtualizationClustersList nb (VirtualizationClusters\<lparr>cq_Name := Some clusterNames\<rparr>) w of
        (Inl err, w) \<Rightarrow> (Inl (Wrapf ''cannot resolve cluster names to IDs: '' err), w)
      | (Inr result, w) \<Rightarrow> (Inr (map cl_Id (Results result)), w))"

text \<open>The request as \<open>GetDevices\<close> builds it, before the cluster filter.\<close>

definition device_request :: "device_filters \<Rightarrow> device_query" where
  "device_request filters =
     (let req = DcimDevices\<lparr>dq_HasPrimaryIp := Some True, dq_Status := Some (f_Status filters)\<rparr>;
          req = (if filter_given (f_Sites filters) then req\<lparr>dq_Site := Some (f_Sites filters)\<rparr> else req);
          req = (if filter_given (f_Roles filters) then req\<lparr>dq_Role := Some (f_Roles filters)\<rparr> else req);
          req = (if filter_given (f_Regions filters) then req\<lparr>dq_Region := Some (f_Regions filters)\<rparr> else req);
          req = (if filter_given (f_Locations filters) then req\<lparr>dq_Location := Some (f_Locations filters)\<rparr> else req);
          req = (if filter_given (f_Tenants filters) then req\<lparr>dq_Tenant := Some (f_Tenants filters)\<rparr> else req);
          req = (if rack_filter_given (f_Racks filters) then req\<lparr>dq_RackId := Some (f_Racks filters)\<rparr> else req)
      in req)"

definition GetDevices :: "'w netbox \<Rightarrow> device_filters \<Rightarrow> ('w, device page) call" where
  "GetDevices nb filters w =
     (let req = device_request filters in
      if filter_given (f_Clusters filters) then
        (case resolveClusterIDs nb (f_Clusters filters) w of
           (Inl clusterErr, w) \<Rightarrow> (Inl clusterErr, w)
         | (Inr clusterIDs, w) \<Rightarrow>
             if clusterIDs = [] then (Inr \<lparr>Count = 0, Results = []\<rparr>, w)
             else DcimDevicesList nb (req\<lparr>dq_ClusterId := Some clusterIDs\<rparr>) w)
      else DcimDevicesList nb req w)"

definition GetSystemDiskInventoryItems :: "'w netbox \<Rightarrow> int32 \<Rightarrow> ('w, inventory_item list) call" where
  "GetSystemDiskInventoryItems nb deviceID w =
     (case DcimInventoryItemsList nb
             (DcimInventoryItems\<lparr>nq_DeviceId := Some [deviceID], nq_Role := Some [''system-disk'']\<rparr>) w of
        (Inl err, w) \<Rightarrow>
          (Inl (Wrapf (''cannot list inventory items for device '' @ Itoa32 deviceID @ '': '') err), w)
      | (Inr result, w) \<Rightarrow> (Inr (Results result), w))"

section \<open>Tagged addresses\<close>

definition addresses_by_tag :: "string \<Rightarrow> ipam_prefix \<Rightarrow> ip_query" where
  "addresses_by_tag tag prefix = IpAddresses\<lparr>aq_Parent := Some [pfx_Display prefix], aq_Tag := Some [tag]\<rparr>"

text \<open>
  On an error of the prefix listing the code logs it and then reads \<open>prefixes.Count\<close> through
  the nil pointer that the client returned: a panic.
\<close>

definition GetTaggedAddressesFromPrefixOfAddr ::
  "'w netbox \<Rightarrow> string \<Rightarrow> string \<Rightarrow> ('w, ip_address list) go" where
  "GetTaggedAddressesFromPrefixOfAddr nb tag address w =
     (case IpamPrefixesList nb (Prefixes\<lparr>pq_Contains := Some address\<rparr>) w of
        (Inl err, w) \<Rightarrow> None
      | (Inr prefixes, w) \<Rightarrow>
          if Count prefixes = 0 then Some ([], w)
          else do {
            prefix \<leftarrow> index0 (Results prefixes);
            (case IpamIpAddressesList nb (addresses_by_tag tag prefix) w of
               (Inl err, w) \<Rightarrow> Some ([], w)
             | (Inr addresses, w) \<Rightarrow> Some (Results addresses, w))
          })"

definition GetTaggedAddressesFromPrefix ::
  "'w netbox \<Rightarrow> string \<Rightarrow> ipam_prefix \<Rightarrow> 'w \<Rightarrow> ip_address list \<times> 'w" where
  "GetTaggedAddressesFromPrefix nb tag prefix w =
     (case IpamIpAddressesList nb (addresses_by_tag tag prefix) w of
        (Inl err, w) \<Rightarrow> ([], w)
      | (Inr addresses, w) \<Rightarrow> (Results addresses, w))"

section \<open>Helpers on tags, VLANs and addresses\<close>

definition HasDHCPTag :: "string list \<Rightarrow> bool" where
  "HasDHCPTag tags = foldl (\<lambda>answer tag. if ToLower tag = ''dhcp'' then True else answer) False tags"

definition IsVlanIDInVlanList :: "int32 \<Rightarrow> vlan list \<Rightarrow> bool" where
  "IsVlanIDInVlanList vlanID vlans =
     foldl (\<lambda>result v. if vl_Vid v = vlanID then True else result) False vlans"

text \<open>\<open>strings.Split(addr, "/")[0]\<close>\<close>

definition strip_cidr :: "string \<Rightarrow> string" where
  "strip_cidr addr = hd (Split addr CHR ''/'')"

definition FromIPAddressesToStrings :: "ip_address list \<Rightarrow> string list" where
  "FromIPAddressesToStrings addresses =
     foldl (\<lambda>result addr. result @ [strip_cidr (ip_Address addr)]) [] addresses"

section \<open>Facts\<close>

lemma filter_given_simps [simp]:
  "\<not> filter_given []" "filter_given (x # xs) \<longleftrightarrow> x \<noteq> []"
  by (simp_all add: filter_given_def)

lemma foldl_any: "foldl (\<lambda>b x. if P x then True else b) b xs \<longleftrightarrow> b \<or> (\<exists>x \<in> set xs. P x)"
  by (induction xs arbitrary: b) auto

lemma HasDHCPTag_iff: "HasDHCPTag tags \<longleftrightarrow> (\<exists>t \<in> set tags. ToLower t = ''dhcp'')"
  by (simp add: HasDHCPTag_def foldl_any)

lemma IsVlanIDInVlanList_iff: "IsVlanIDInVlanList vid vlans \<longleftrightarrow> vid \<in> vl_Vid ` set vlans"
  by (auto simp: IsVlanIDInVlanList_def foldl_any)

lemma foldl_snoc_map: "foldl (\<lambda>r x. r @ [f x]) r xs = r @ map f xs"
  by (induction xs arbitrary: r) auto

lemma FromIPAddressesToStrings_map:
  "FromIPAddressesToStrings addrs = map (\<lambda>a. strip_cidr (ip_Address a)) addrs"
  by (simp add: FromIPAddressesToStrings_def foldl_snoc_map)

lemma strip_cidr_takeWhile: "strip_cidr a = takeWhile (\<lambda>c. c \<noteq> CHR ''/'') a"
  by (simp add: strip_cidr_def hd_Split)

lemma strip_cidr_append [simp]:
  "CHR ''/'' \<notin> set a \<Longrightarrow> strip_cidr (a @ CHR ''/'' # p) = a"
  by (simp add: strip_cidr_takeWhile takeWhile_sep)

lemma strip_cidr_no_slash: "CHR ''/'' \<notin> set (strip_cidr a)"
  by (auto simp: strip_cidr_takeWhile dest: set_takeWhileD)

text \<open>
  The request a set of filters stands for: the filters that are given, everything else open.
\<close>

definition given :: "string list \<Rightarrow> string list option" where
  "given xs = (if filter_given xs then Some xs else None)"

definition given_racks :: "int32 list \<Rightarrow> int32 list option" where
  "given_racks xs = (if rack_filter_given xs then Some xs else None)"

lemma device_request_fields:
  "dq_HasPrimaryIp (device_request f) = Some True"
  "dq_Status (device_request f) = Some (f_Status f)"
  "dq_Site (device_request f) = given (f_Sites f)"
  "dq_Role (device_request f) = given (f_Roles f)"
  "dq_Region (device_request f) = given (f_Regions f)"
  "dq_Location (device_request f) = given (f_Locations f)"
  "dq_Tenant (device_request f) = given (f_Tenants f)"
  "dq_RackId (device_request f) = given_racks (f_Racks f)"
  "dq_ClusterId (device_request f) = None"
  "dq_Id (device_request f) = None"
  "dq_Name (device_request f) = None"
  by (simp_all add: device_request_def given_def given_racks_def DcimDevices_def Let_def)

text \<open>
  Two sets of filters ask for the same devices when they give the same filters: this is what
  makes the blank options of the command line (\<open>[""]\<close>) and the absent keys of the controller
  (nil) interchangeable.
\<close>

definition same_filters :: "device_filters \<Rightarrow> device_filters \<Rightarrow> bool" where
  "same_filters f g \<longleftrightarrow>
     f_Status f = f_Status g \<and> given (f_Sites f) = given (f_Sites g) \<and>
     given (f_Roles f) = given (f_Roles g) \<and> given (f_Regions f) = given (f_Regions g) \<and>
     given (f_Locations f) = given (f_Locations g) \<and> given (f_Tenants f) = given (f_Tenants g) \<and>
     given_racks (f_Racks f) = given_racks (f_Racks g) \<and>
     given (f_Clusters f) = given (f_Clusters g)"

lemma device_query_eqI:
  fixes p q :: device_query
  assumes "dq_HasPrimaryIp p = dq_HasPrimaryIp q" "dq_Status p = dq_Status q" "dq_Site p = dq_Site q"
    "dq_Role p = dq_Role q" "dq_Region p = dq_Region q" "dq_Location p = dq_Location q"
    "dq_Tenant p = dq_Tenant q" "dq_RackId p = dq_RackId q" "dq_ClusterId p = dq_ClusterId q"
    "dq_Id p = dq_Id q" "dq_Name p = dq_Name q"
  shows "p = q"
  by (rule device_query.equality) (simp_all add: assms)

lemma same_filters_request: "same_filters f g \<Longrightarrow> device_request f = device_request g"
  by (rule device_query_eqI) (simp_all add: device_request_fields same_filters_def)

lemma given_eq_cases:
  "given xs = given ys \<Longrightarrow> (filter_given xs \<longleftrightarrow> filter_given ys) \<and> (filter_given xs \<longrightarrow> xs = ys)"
  by (auto simp: given_def split: if_splits)

lemma GetDevices_same_filters: "same_filters f g \<Longrightarrow> GetDevices nb f w = GetDevices nb g w"
proof -
  assume sf: "same_filters f g"
  then have "given (f_Clusters f) = given (f_Clusters g)" by (simp add: same_filters_def)
  then have c: "filter_given (f_Clusters f) \<longleftrightarrow> filter_given (f_Clusters g)"
    "filter_given (f_Clusters f) \<Longrightarrow> f_Clusters f = f_Clusters g"
    by (auto dest: given_eq_cases)
  show ?thesis
  proof (cases "filter_given (f_Clusters f)")
    case True
    with c have "f_Clusters f = f_Clusters g" by blast
    with True show ?thesis by (simp add: GetDevices_def same_filters_request [OF sf])
  next
    case False
    with c show ?thesis by (simp add: GetDevices_def same_filters_request [OF sf])
  qed
qed

section \<open>Collecting the results of a loop over devices\<close>

text \<open>
  The shape of the loops of \<open>CreateFlatcars\<close> and \<open>CreateTalosConfigs\<close>: extract every device in
  turn, keep what succeeds under the device's name and collect the errors of the rest.
\<close>

definition kept :: "('c \<Rightarrow> string \<Rightarrow> 'r) \<Rightarrow> (device \<Rightarrow> string option) \<Rightarrow> device \<Rightarrow> 'c result \<Rightarrow> 'r list" where
  "kept mk name d out = (case out of Inl e \<Rightarrow> [] | Inr c \<Rightarrow> (case name d of None \<Rightarrow> [] | Some n \<Rightarrow> [mk c n]))"

definition refused :: "'c result \<Rightarrow> go_error list" where
  "refused out = (case out of Inl e \<Rightarrow> [e] | Inr c \<Rightarrow> [])"

lemma kept_simps [simp]:
  "kept mk name d (Inl e) = []" "name d = Some n \<Longrightarrow> kept mk name d (Inr c) = [mk c n]"
  by (simp_all add: kept_def)

lemma refused_simps [simp]: "refused (Inl e) = [e]" "refused (Inr c) = []"
  by (simp_all add: refused_def)

locale collector =
  fixes produce :: "'w netbox \<Rightarrow> device \<Rightarrow> ('w, 'c result) go"
    and name :: "device \<Rightarrow> string option"
    and mk :: "'c \<Rightarrow> string \<Rightarrow> 'r"
    and loop :: "'w netbox \<Rightarrow> device list \<Rightarrow> 'r list \<Rightarrow> go_error list \<Rightarrow> ('w, 'r list \<times> go_error list) go"
  assumes loop_Nil: "loop nb [] rs es w = Some ((rs, es), w)"
    and loop_Cons: "loop nb (d # ds) rs es w =
      Option.bind (produce nb d w) (\<lambda>(out, w). case out of
          Inl e \<Rightarrow> loop nb ds rs (es @ [e]) w
        | Inr c \<Rightarrow> Option.bind (name d) (\<lambda>n. loop nb ds (rs @ [mk c n]) es w))"
begin

text \<open>Every device has its outcome, and nothing is lost or invented.\<close>

lemma accounts:
  assumes "loop nb ds rs es w = Some ((rs', es'), w')"
  shows "\<exists>outs. length outs = length ds \<and> rs' = rs @ concat (map2 (kept mk name) ds outs) \<and>
    es' = es @ concat (map refused outs) \<and>
    length (concat (map2 (kept mk name) ds outs)) + length (concat (map refused outs)) = length ds"
  using assms
proof (induction ds arbitrary: rs es w)
  case Nil
  then show ?case by (simp add: loop_Nil)
next
  case (Cons d ds)
  from Cons.prems obtain out w1 where ex: "produce nb d w = Some (out, w1)" and
    rest: "(case out of Inl e \<Rightarrow> loop nb ds rs (es @ [e]) w1
      | Inr c \<Rightarrow> Option.bind (name d) (\<lambda>n. loop nb ds (rs @ [mk c n]) es w1)) = Some ((rs', es'), w')"
    by (auto simp: loop_Cons elim!: bind_SomeE)
  show ?case
  proof (cases out)
    case (Inl e)
    with rest have "loop nb ds rs (es @ [e]) w1 = Some ((rs', es'), w')" by simp
    from Cons.IH [OF this] obtain outs where "length outs = length ds"
      "rs' = rs @ concat (map2 (kept mk name) ds outs)" "es' = (es @ [e]) @ concat (map refused outs)"
      "length (concat (map2 (kept mk name) ds outs)) + length (concat (map refused outs)) = length ds" by blast
    with Inl show ?thesis by (intro exI [of _ "out # outs"]) simp
  next
    case (Inr c)
    with rest obtain n where n: "name d = Some n"
      and "loop nb ds (rs @ [mk c n]) es w1 = Some ((rs', es'), w')" by (auto elim!: bind_SomeE)
    from Cons.IH [OF this(2)] obtain outs where "length outs = length ds"
      "rs' = (rs @ [mk c n]) @ concat (map2 (kept mk name) ds outs)" "es' = es @ concat (map refused outs)"
      "length (concat (map2 (kept mk name) ds outs)) + length (concat (map refused outs)) = length ds" by blast
    with Inr n show ?thesis by (intro exI [of _ "out # outs"]) simp
  qed
qed

text \<open>The error that is returned is nil exactly when every device was kept.\<close>

corollary complete:
  assumes "loop nb ds [] [] w = Some ((rs, es), w')"
  shows "length rs + length es = length ds" and "errors_Join es = None \<longleftrightarrow> length rs = length ds"
proof -
  from accounts [OF assms] show len: "length rs + length es = length ds" by auto
  from len show "errors_Join es = None \<longleftrightarrow> length rs = length ds" by (cases es) auto
qed

corollary kept_from_devices:
  assumes "loop nb ds [] [] w = Some ((rs, es), w')" and "r \<in> set rs"
  shows "\<exists>d \<in> set ds. \<exists>c n. name d = Some n \<and> r = mk c n"
proof -
  from accounts [OF assms(1)] assms(2) obtain outs where
    "r \<in> set (concat (map2 (kept mk name) ds outs))" by auto
  then show ?thesis
    by (auto simp: kept_def split: sum.split_asm option.split_asm dest!: set_zip_leftD) metis
qed

end

end
