(* ===== verification/Butane.thy ===== *)
theory Butane
  imports Common_NetBox Memory_World
begin

text \<open>
  The package \<open>pkg/butane\<close>: the Butane configurations of Flatcar (\<open>flatcar.go\<close>, files for
  systemd-networkd) and Fedora CoreOS (\<open>fcos.go\<close>, files for NetworkManager) generated from the
  interfaces and addresses of a NetBox device. The translation of a Butane configuration into
  Ignition and its JSON text belong to the package \<open>coreos/butane\<close>: they are the parameter
  \<open>ToIgn\<close> of the definitions that use them.
\<close>

section \<open>Data\<close>

record butane_file =
  file_Path :: string
  file_Inline :: string

record butane_config =
  bc_Version :: string
  bc_Variant :: string
  bc_Files :: "butane_file list"

record generated =
  gen_Config :: butane_config
  gen_Hostname :: string

record networkd_section =
  ns_Addresses :: "string list"
  ns_Gateway :: string
  ns_DNS :: "string list"
  ns_Domains :: "string list"
  ns_DHCP :: string
  ns_DNSDefaultRoute :: string

record networkd_device =
  sd_Name :: string
  sd_MACAddress :: string
  sd_Network :: networkd_section

record networkd_netdev =
  nd_Name :: string
  nd_Kind :: string
  nd_ID :: int32

definition zero_networkd_device :: networkd_device where
  "zero_networkd_device = \<lparr>sd_Name = [], sd_MACAddress = [],
     sd_Network = \<lparr>ns_Addresses = [], ns_Gateway = [], ns_DNS = [], ns_Domains = [], ns_DHCP = [],
       ns_DNSDefaultRoute = []\<rparr>\<rparr>"

section \<open>Shared helpers (common.go)\<close>

definition getHostname :: "'w netbox \<Rightarrow> device \<Rightarrow> ('w, string) go" where
  "getHostname nb dev w =
     (let fallback = Get (dev_Name dev);
          primaryIPID = (case Get (dev_PrimaryIp4 dev) of
                           Some ip \<Rightarrow> Some (bip_Id ip)
                         | None \<Rightarrow> (case Get (dev_PrimaryIp dev) of
                                     Some ip \<Rightarrow> Some (bip_Id ip)
                                   | None \<Rightarrow> None))
      in case primaryIPID of
           None \<Rightarrow> do { n \<leftarrow> fallback; Some (n, w) }
         | Some i \<Rightarrow>
             (case IpamIpAddressesRetrieve nb i w of
                (Inl err, w) \<Rightarrow> do { n \<leftarrow> fallback; Some (n, w) }
              | (Inr ipAddr, w) \<Rightarrow>
                  if GetDnsName ipAddr \<noteq> [] then Some (GetDnsName ipAddr, w)
                  else do { n \<leftarrow> fallback; Some (n, w) }))"

text \<open>\<open>*device.Serial\<close> panics when the serial number is nil.\<close>

definition createDCIMFile :: "device \<Rightarrow> string option" where
  "createDCIMFile dev =
     do {
       serial \<leftarrow> dev_Serial dev;
       Some (''---'' @ nl @ ''generated-by: machinecfg'' @ nl @
             ''serial: '' @ serial @ nl @
             ''model: '' @ dev_DeviceTypeSlug dev @ nl @
             ''role: '' @ dev_Role dev @ nl @
             ''site: '' @ dev_Site dev @ nl @
             ''location: '' @ GetName (dev_Location dev) @ nl @
             ''racks: '' @ GetName (dev_Rack dev) @ nl @
             ''tenant: '' @ GetName (dev_Tenant dev) @ nl @
             ''status: '' @ dev_StatusLabel dev)
     }"

section \<open>Flatcar (flatcar.go)\<close>

definition setValuesToNetworkDevice ::
  "'w netbox \<Rightarrow> interface \<Rightarrow> ip_address \<Rightarrow> ipam_prefix \<Rightarrow> 'w \<Rightarrow> networkd_device \<times> 'w" where
  "setValuesToNetworkDevice nb iface ipAddr prefix w =
     (let result = zero_networkd_device\<lparr>sd_Name := if_Name iface,
            sd_MACAddress := (case Get (if_MacAddress iface) of None \<Rightarrow> [] | Some m \<Rightarrow> m)\<rparr>;
          net = sd_Network result
      in if HasDHCPTag (ip_Tags ipAddr) then
           (result\<lparr>sd_Network := net\<lparr>ns_DHCP := ''yes''\<rparr>\<rparr>, w)
         else
           let (gatewayAddresses, w) = GetTaggedAddressesFromPrefix nb ''gateway'' prefix w;
               (dnsAddresses, w) = GetTaggedAddressesFromPrefix nb ''dns'' prefix w;
               net = net\<lparr>ns_DHCP := ''no'', ns_Addresses := ns_Addresses net @ [ip_Address ipAddr]\<rparr>;
               net = foldl (\<lambda>net addr. net\<lparr>ns_Gateway := ip_Address addr\<rparr>) net gatewayAddresses;
               net = foldl (\<lambda>net addr. net\<lparr>ns_DNS := ns_DNS net @ [strip_cidr (ip_Address addr)],
                                           ns_DNSDefaultRoute := ''no''\<rparr>) net dnsAddresses;
               net = (case map_of (pfx_CustomFields prefix) ''Domains'' of
                        None \<Rightarrow> net
                      | Some d \<Rightarrow> if dnsAddresses \<noteq> []
                                  then net\<lparr>ns_Domains := ns_Domains net @ [fmt_Sprint d]\<rparr> else net)
           in (result\<lparr>sd_Network := net\<rparr>, w))"

definition network_path :: "string \<Rightarrow> string" where
  "network_path n = ''/etc/systemd/network/01-'' @ n @ ''.network''"

definition netdev_path :: "string \<Rightarrow> string" where
  "netdev_path n = ''/etc/systemd/network/00-'' @ n @ ''.netdev''"

definition iface_network_text :: "networkd_device \<Rightarrow> networkd_netdev list \<Rightarrow> string" where
  "iface_network_text networkDevice netDevs =
     (let net = sd_Network networkDevice in
      ''[Match]'' @ nl @ ''Name='' @ sd_Name networkDevice @ nl @
      (if sd_MACAddress networkDevice \<noteq> [] then ''MACAddress='' @ sd_MACAddress networkDevice @ nl else []) @
      nl @ ''[Network]'' @ nl @ ''LLDP=yes'' @ nl @ ''EmitLLDP=yes'' @ nl @
      (if ns_DHCP net = ''yes'' then ''DHCP=yes'' @ nl
       else
         nl @ ''DHCP=no'' @ nl @
         concat (map (\<lambda>addr. nl @ ''Address='' @ addr @ nl) (ns_Addresses net)) @
         (if ns_Gateway net \<noteq> [] then ''Gateway='' @ ns_Gateway net @ nl else []) @
         concat (map (\<lambda>addr. ''DNS='' @ addr @ nl) (ns_DNS net)) @
         (if ns_Domains net = [] then nl @ ''DNSDefaultRoute=yes'' @ nl
          else nl @ ''Domains='' @ Join (ns_Domains net) '' '' @ nl @ ''DNSDefaultRoute=no'' @ nl)) @
      concat (map (\<lambda>d. if nd_Kind d = ''vlan'' then ''VLAN='' @ nd_Name d @ nl else []) netDevs))"

definition appendSystemdNetworkFileForIface ::
  "butane_file list \<Rightarrow> networkd_device \<Rightarrow> networkd_netdev list \<Rightarrow> butane_file list" where
  "appendSystemdNetworkFileForIface files networkDevice netDevs =
     files @ [\<lparr>file_Path = network_path (sd_Name networkDevice),
               file_Inline = iface_network_text networkDevice netDevs\<rparr>]"

definition appendSystemdNetworkFileForVlan ::
  "'w netbox \<Rightarrow> butane_file list \<Rightarrow> networkd_netdev \<Rightarrow> ip_address \<Rightarrow> ipam_prefix \<Rightarrow> 'w \<Rightarrow>
   butane_file list \<times> 'w" where
  "appendSystemdNetworkFileForVlan nb files netDev ipAddr prefix w =
     (let (gatewayAddresses, w) = GetTaggedAddressesFromPrefix nb ''gateway'' prefix w;
          (dnsAddresses, w) = GetTaggedAddressesFromPrefix nb ''dns'' prefix w;
          content =
            ''[Match]'' @ nl @ ''Name='' @ nd_Name netDev @ nl @ ''[Network]'' @ nl @ ''DHCP=no'' @ nl @
            ''Address='' @ ip_Address ipAddr @ nl @
            concat (map (\<lambda>a. nl @ ''Gateway='' @ strip_cidr (ip_Address a) @ nl) gatewayAddresses) @
            concat (map (\<lambda>a. nl @ ''DNS='' @ strip_cidr (ip_Address a) @ nl) dnsAddresses) @
            (if dnsAddresses = [] then []
             else case map_of (pfx_CustomFields prefix) ''Domains'' of
                    Some d \<Rightarrow> nl @ ''Domains='' @ fmt_verb_s d @ nl @ ''DNSDefaultRoute=no'' @ nl
                  | None \<Rightarrow> ''DNSDefaultRoute=yes'' @ nl)
      in (files @ [\<lparr>file_Path = network_path (nd_Name netDev), file_Inline = content\<rparr>], w))"

definition appendSystemdNetdevConfs :: "butane_file list \<Rightarrow> networkd_netdev list \<Rightarrow> butane_file list" where
  "appendSystemdNetdevConfs files vlans =
     foldl (\<lambda>files vlan. files @ [\<lparr>file_Path = netdev_path (nd_Name vlan),
        file_Inline = ''[NetDev]'' @ nl @ ''Name='' @ nd_Name vlan @ nl @ ''Kind='' @ nd_Kind vlan @ nl @
          ''[VLAN]'' @ nl @ ''Id='' @ Itoa32 (nd_ID vlan) @ nl\<rparr>]) files vlans"

text \<open>The variables of the loops of \<open>extractFlatcarData\<close>.\<close>

record flatcar_state =
  fs_files :: "butane_file list"
  fs_netDevConfs :: "networkd_netdev list"
  fs_physical :: networkd_device

fun flatcar_addresses ::
  "'w netbox \<Rightarrow> interface \<Rightarrow> ip_address list \<Rightarrow> flatcar_state \<Rightarrow> ('w, flatcar_state) go" where
  "flatcar_addresses nb iface [] s w = Some (s, w)"
| "flatcar_addresses nb iface (ipAddr # ipAddrs) s w =
     (case IpamPrefixesList nb (Prefixes\<lparr>pq_Contains := Some (ip_Address ipAddr)\<rparr>) w of
        (Inl err, w) \<Rightarrow> flatcar_addresses nb iface ipAddrs s w
      | (Inr prefixes, w) \<Rightarrow>
          if Count prefixes > 0 then do {
            prefix \<leftarrow> index0 (Results prefixes);
            (case Get (pfx_Vlan prefix) of
               Some vlan \<Rightarrow>
                 if IsVlanIDInVlanList (vl_Vid vlan) (if_TaggedVlans iface) then
                   let netDevConf = \<lparr>nd_Name = vl_Name vlan, nd_Kind = ''vlan'', nd_ID = vl_Vid vlan\<rparr>;
                       (files, w) = appendSystemdNetworkFileForVlan nb (fs_files s) netDevConf ipAddr prefix w
                   in flatcar_addresses nb iface ipAddrs
                        (s\<lparr>fs_netDevConfs := fs_netDevConfs s @ [netDevConf], fs_files := files\<rparr>) w
                 else
                   let (dev, w) = setValuesToNetworkDevice nb iface ipAddr prefix w
                   in flatcar_addresses nb iface ipAddrs (s\<lparr>fs_physical := dev\<rparr>) w
             | None \<Rightarrow>
                 let (dev, w) = setValuesToNetworkDevice nb iface ipAddr prefix w
                 in flatcar_addresses nb iface ipAddrs (s\<lparr>fs_physical := dev\<rparr>) w)
          }
          else flatcar_addresses nb iface ipAddrs s w)"

fun flatcar_interfaces ::
  "'w netbox \<Rightarrow> interface list \<Rightarrow> flatcar_state \<Rightarrow> ('w, flatcar_state result) go" where
  "flatcar_interfaces nb [] s w = Some (Inr s, w)"
| "flatcar_interfaces nb (iface # ifaces) s w =
     (case IpamIpAddressesList nb (IpAddresses\<lparr>aq_InterfaceId := Some [if_Id iface]\<rparr>) w of
        (Inl err, w) \<Rightarrow> Some (Inl err, w)
      | (Inr ipAddresses, w) \<Rightarrow> do {
          (s, w) \<leftarrow> flatcar_addresses nb iface (Results ipAddresses) s w;
          flatcar_interfaces nb ifaces s w
        })"

definition extractFlatcarData :: "'w netbox \<Rightarrow> device \<Rightarrow> ('w, butane_config result) go" where
  "extractFlatcarData nb dev w =
     (case DcimInterfacesList nb (DcimInterfaces\<lparr>iq_DeviceId := Some [dev_Id dev]\<rparr>) w of
        (Inl err, w) \<Rightarrow> Some (Inl err, w)
      | (Inr interfaces, w) \<Rightarrow> do {
          (r, w) \<leftarrow> flatcar_interfaces nb (Results interfaces)
            \<lparr>fs_files = [], fs_netDevConfs = [], fs_physical = zero_networkd_device\<rparr> w;
          (case r of
             Inl err \<Rightarrow> Some (Inl err, w)
           | Inr s \<Rightarrow> do {
               let files = appendSystemdNetdevConfs (fs_files s) (fs_netDevConfs s);
               let files = appendSystemdNetworkFileForIface files (fs_physical s) (fs_netDevConfs s);
               dcimFile \<leftarrow> createDCIMFile dev;
               let files = files @ [\<lparr>file_Path = ''/etc/dcim.yaml'', file_Inline = dcimFile\<rparr>];
               (hostname, w) \<leftarrow> getHostname nb dev w;
               let files = files @ [\<lparr>file_Path = ''/etc/hostname'', file_Inline = hostname\<rparr>];
               Some (Inr \<lparr>bc_Version = ''1.1.0'', bc_Variant = ''flatcar'', bc_Files = files\<rparr>, w)
             })
        })"

text \<open>
  \<open>generateFlatcarIgnition\<close> answers no bytes when the translation fails.
\<close>

definition generateFlatcarIgnition :: "(butane_config \<Rightarrow> string result) \<Rightarrow> butane_config \<Rightarrow> string" where
  "generateFlatcarIgnition ToIgn cfg = (case ToIgn cfg of Inl err \<Rightarrow> [] | Inr blob \<Rightarrow> blob)"

definition GetFlatcarIgnition :: "(butane_config \<Rightarrow> string result) \<Rightarrow> butane_config \<Rightarrow> string" where
  "GetFlatcarIgnition ToIgn cfg = generateFlatcarIgnition ToIgn cfg"

text \<open>What is written: the place and the text.\<close>

definition PrintFlatcarIgnitionFile ::
  "(butane_config \<Rightarrow> string result) \<Rightarrow> butane_config \<Rightarrow> sink \<Rightarrow> (sink \<times> string) list" where
  "PrintFlatcarIgnitionFile ToIgn cfg fileDescriptor = [(fileDescriptor, generateFlatcarIgnition ToIgn cfg)]"

text \<open>
  After an extraction error the code logs it and still calls \<open>GetFlatcarIgnition(butane)\<close> with
  the nil pointer it was given, which panics in the translation.
\<close>

definition CreateFlatcarIgnition ::
  "(butane_config \<Rightarrow> string result) \<Rightarrow> 'w netbox \<Rightarrow> int32 \<Rightarrow> ('w, string result) go" where
  "CreateFlatcarIgnition ToIgn nb deviceID w =
     (case DcimDevicesList nb (DcimDevices\<lparr>dq_Id := Some [deviceID]\<rparr>) w of
        (Inl err, w) \<Rightarrow> Some (Inl err, w)
      | (Inr device, w) \<Rightarrow> do {
          dev \<leftarrow> index0 (Results device);
          (butane, w) \<leftarrow> extractFlatcarData nb dev w;
          (case butane of
             Inl err \<Rightarrow> None
           | Inr cfg \<Rightarrow> Some (Inr (GetFlatcarIgnition ToIgn cfg), w))
        })"

fun create_flatcars ::
  "'w netbox \<Rightarrow> device list \<Rightarrow> generated list \<Rightarrow> go_error list \<Rightarrow>
   ('w, generated list \<times> go_error list) go" where
  "create_flatcars nb [] result extractErrs w = Some ((result, extractErrs), w)"
| "create_flatcars nb (dev # devs) result extractErrs w = do {
     (butane, w) \<leftarrow> extractFlatcarData nb dev w;
     (case butane of
        Inl extractErr \<Rightarrow> create_flatcars nb devs result (extractErrs @ [extractErr]) w
      | Inr cfg \<Rightarrow> do {
          name \<leftarrow> Get (dev_Name dev);
          create_flatcars nb devs (result @ [\<lparr>gen_Config = cfg, gen_Hostname = name\<rparr>]) extractErrs w
        })
   }"

definition CreateFlatcars ::
  "'w netbox \<Rightarrow> device_filters \<Rightarrow> ('w, generated list \<times> go_error option) go" where
  "CreateFlatcars nb filters w =
     (case GetDevices nb (filters\<lparr>f_Status := [''staged'']\<rparr>) w of
        (Inl err, w) \<Rightarrow> Some (([], Some err), w)
      | (Inr devices, w) \<Rightarrow> do {
          ((result, extractErrs), w) \<leftarrow> create_flatcars nb (Results devices) [] [] w;
          Some ((result, errors_Join extractErrs), w)
        })"

section \<open>Fedora CoreOS (fcos.go)\<close>

definition nm_path :: "string \<Rightarrow> string" where
  "nm_path n = ''/etc/NetworkManager/system-connections/'' @ n @ ''.nmconnection''"

definition appendNetworkManagerFileForIface ::
  "'w netbox \<Rightarrow> butane_file list \<Rightarrow> interface \<Rightarrow> ip_address \<Rightarrow> ('w, butane_file list) go" where
  "appendNetworkManagerFileForIface nb files iface ipAddr w =
     (let content = ''[connection]'' @ nl @ ''id='' @ if_Name iface @ nl @ ''type=ethernet'' @ nl @
            ''interface-name='' @ if_Name iface @ nl
      in if HasDHCPTag (ip_Tags ipAddr) then
           Some (files @ [\<lparr>file_Path = nm_path (if_Name iface),
             file_Inline = content @ nl @ ''[ipv4]method=auto''\<rparr>], w)
         else do {
           let content = content @ nl @ ''[ipv4]address1='' @ ip_Address ipAddr @ '','';
           (gatewayAddresses, w) \<leftarrow> GetTaggedAddressesFromPrefixOfAddr nb ''gateway'' (ip_Address ipAddr) w;
           let content = content @ Join (map ip_Address gatewayAddresses) '','' @ nl;
           let content = content @ nl @ ''dhcp-hostname='' @ if_Name iface;
           (dnsAddresses, w) \<leftarrow> GetTaggedAddressesFromPrefixOfAddr nb ''dns'' (ip_Address ipAddr) w;
           let content = content @ nl @ ''dns='' @ Join (map ip_Address dnsAddresses) '','' @ '';'' @ nl @
                 ''may-fail=false'' @ nl @ ''method=manual'';
           Some (files @ [\<lparr>file_Path = nm_path (if_Name iface), file_Inline = content\<rparr>], w)
         })"

definition appendNetworkManagerFileForVlan ::
  "butane_file list \<Rightarrow> int32 \<Rightarrow> interface \<Rightarrow> butane_file list" where
  "appendNetworkManagerFileForVlan files vlanID iface =
     (let dotted = if_Name iface @ ''.'' @ Itoa32 vlanID in
      files @ [\<lparr>file_Path = nm_path dotted,
        file_Inline = ''[connection]'' @ nl @ ''id='' @ dotted @ nl @ ''type=vlan'' @ nl @
          ''interface-name='' @ dotted @ nl @ ''[vlan]egress-priority-map='' @ nl @ ''flags=1'' @ nl @
          ''id='' @ Itoa32 vlanID @ nl @ ''ingress-priority-map='' @ nl @ ''parent='' @ if_Name iface\<rparr>])"

text \<open>\<open>prefix.Results[0].Vlan.Get().Vid\<close> panics when the prefix has no VLAN.\<close>

fun fcos_addresses ::
  "'w netbox \<Rightarrow> interface \<Rightarrow> ip_address list \<Rightarrow> butane_file list \<Rightarrow> ('w, butane_file list) go" where
  "fcos_addresses nb iface [] files w = Some (files, w)"
| "fcos_addresses nb iface (ipAddr # ipAddrs) files w =
     (case IpamPrefixesList nb (Prefixes\<lparr>pq_Contains := Some (ip_Address ipAddr)\<rparr>) w of
        (Inl err, w) \<Rightarrow> fcos_addresses nb iface ipAddrs files w
      | (Inr prefix, w) \<Rightarrow>
          if Count prefix > 0 then do {
            p \<leftarrow> index0 (Results prefix);
            vlan \<leftarrow> Get (pfx_Vlan p);
            (if IsVlanIDInVlanList (vl_Vid vlan) (if_TaggedVlans iface) then
               fcos_addresses nb iface ipAddrs (appendNetworkManagerFileForVlan files (vl_Vid vlan) iface) w
             else do {
               (files, w) \<leftarrow> appendNetworkManagerFileForIface nb files iface ipAddr w;
               fcos_addresses nb iface ipAddrs files w
             })
          }
          else fcos_addresses nb iface ipAddrs files w)"

fun fcos_interfaces ::
  "'w netbox \<Rightarrow> interface list \<Rightarrow> butane_file list \<Rightarrow> ('w, butane_file list result) go" where
  "fcos_interfaces nb [] files w = Some (Inr files, w)"
| "fcos_interfaces nb (iface # ifaces) files w =
     (case IpamIpAddressesList nb (IpAddresses\<lparr>aq_InterfaceId := Some [if_Id iface]\<rparr>) w of
        (Inl err, w) \<Rightarrow> Some (Inl err, w)
      | (Inr ipAddresses, w) \<Rightarrow> do {
          (files, w) \<leftarrow> fcos_addresses nb iface (Results ipAddresses) files w;
          fcos_interfaces nb ifaces files w
        })"

definition extractFCOSData :: "'w netbox \<Rightarrow> device \<Rightarrow> ('w, butane_config result) go" where
  "extractFCOSData nb dev w =
     (case DcimInterfacesList nb (DcimInterfaces\<lparr>iq_DeviceId := Some [dev_Id dev]\<rparr>) w of
        (Inl err, w) \<Rightarrow> Some (Inl err, w)
      | (Inr interfaces, w) \<Rightarrow> do {
          (r, w) \<leftarrow> fcos_interfaces nb (Results interfaces) [] w;
          (case r of
             Inl err \<Rightarrow> Some (Inl err, w)
           | Inr files \<Rightarrow> do {
               dcimFile \<leftarrow> createDCIMFile dev;
               let files = files @ [\<lparr>file_Path = ''/etc/dcim.yaml'', file_Inline = dcimFile\<rparr>];
               (hostname, w) \<leftarrow> getHostname nb dev w;
               let files = files @ [\<lparr>file_Path = ''/etc/hostname'', file_Inline = hostname\<rparr>];
               Some (Inr \<lparr>bc_Version = ''1.6.0'', bc_Variant = ''fcos'', bc_Files = files\<rparr>, w)
             })
        })"

definition generateFCOSIgnition :: "(butane_config \<Rightarrow> string result) \<Rightarrow> butane_config \<Rightarrow> string" where
  "generateFCOSIgnition ToIgn cfg = (case ToIgn cfg of Inl err \<Rightarrow> [] | Inr blob \<Rightarrow> blob)"

definition GetFCOSIgnition :: "(butane_config \<Rightarrow> string result) \<Rightarrow> butane_config \<Rightarrow> string" where
  "GetFCOSIgnition ToIgn cfg = generateFCOSIgnition ToIgn cfg"

definition PrintFCOSIgnitionFile ::
  "(butane_config \<Rightarrow> string result) \<Rightarrow> butane_config \<Rightarrow> sink \<Rightarrow> (sink \<times> string) list" where
  "PrintFCOSIgnitionFile ToIgn cfg fileDescriptor = [(fileDescriptor, generateFCOSIgnition ToIgn cfg)]"

definition CreateFCOSIgnition ::
  "(butane_config \<Rightarrow> string result) \<Rightarrow> 'w netbox \<Rightarrow> int32 \<Rightarrow> ('w, string result) go" where
  "CreateFCOSIgnition ToIgn nb deviceID w =
     (case DcimDevicesList nb (DcimDevices\<lparr>dq_Id := Some [deviceID]\<rparr>) w of
        (Inl err, w) \<Rightarrow> Some (Inl err, w)
      | (Inr device, w) \<Rightarrow> do {
          dev \<leftarrow> index0 (Results device);
          (butane, w) \<leftarrow> extractFCOSData nb dev w;
          (case butane of
             Inl err \<Rightarrow> None
           | Inr cfg \<Rightarrow> Some (Inr (GetFCOSIgnition ToIgn cfg), w))
        })"

text \<open>The loop of \<open>CreateFCOSs\<close> logs an extraction error and drops it.\<close>

fun create_fcoss :: "'w netbox \<Rightarrow> device list \<Rightarrow> generated list \<Rightarrow> ('w, generated list) go" where
  "create_fcoss nb [] result w = Some (result, w)"
| "create_fcoss nb (dev # devs) result w = do {
     (butane, w) \<leftarrow> extractFCOSData nb dev w;
     (case butane of
        Inl err \<Rightarrow> create_fcoss nb devs result w
      | Inr cfg \<Rightarrow> do {
          name \<leftarrow> Get (dev_Name dev);
          create_fcoss nb devs (result @ [\<lparr>gen_Config = cfg, gen_Hostname = name\<rparr>]) w
        })
   }"

definition CreateFCOSs :: "'w netbox \<Rightarrow> device_filters \<Rightarrow> ('w, generated list \<times> go_error option) go" where
  "CreateFCOSs nb filters w =
     (case GetDevices nb (filters\<lparr>f_Status := [''staged'']\<rparr>) w of
        (Inl err, w) \<Rightarrow> Some (([], Some err), w)
      | (Inr devices, w) \<Rightarrow> do {
          (result, w) \<leftarrow> create_fcoss nb (Results devices) [] w;
          Some ((result, None), w)
        })"

section \<open>Facts\<close>

interpretation flatcar_loop: collector extractFlatcarData "\<lambda>d. Get (dev_Name d)"
  "\<lambda>cfg n. \<lparr>gen_Config = cfg, gen_Hostname = n\<rparr>" create_flatcars
  by unfold_locales (simp, unfold create_flatcars.simps, rule refl)

text \<open>
  The invariant of the loops of \<open>extractFlatcarData\<close>: so far one network file per VLAN device, in
  step with the list of VLAN devices, each of them tagged on one of the interfaces.
\<close>

definition flatcar_inv :: "interface list \<Rightarrow> flatcar_state \<Rightarrow> bool" where
  "flatcar_inv ifaces s \<longleftrightarrow>
     map file_Path (fs_files s) = map (\<lambda>d. network_path (nd_Name d)) (fs_netDevConfs s) \<and>
     (\<forall>d \<in> set (fs_netDevConfs s). nd_Kind d = ''vlan'' \<and>
        (\<exists>iface \<in> set ifaces. nd_ID d \<in> vl_Vid ` set (if_TaggedVlans iface)))"

lemma appendSystemdNetworkFileForVlan_path:
  "appendSystemdNetworkFileForVlan nb files d a p w = (files', w') \<Longrightarrow>
   map file_Path files' = map file_Path files @ [network_path (nd_Name d)]"
  by (auto simp: appendSystemdNetworkFileForVlan_def Let_def split: prod.split_asm)

lemma flatcar_addresses_inv:
  assumes "flatcar_inv ifaces s" and "iface \<in> set ifaces"
    and "flatcar_addresses nb iface addrs s w = Some (s', w')"
  shows "flatcar_inv ifaces s'"
  using assms(1,3)
proof (induction addrs arbitrary: s w)
  case Nil
  then show ?case by simp
next
  case (Cons a as)
  show ?case
  proof (cases "IpamPrefixesList nb (Prefixes\<lparr>pq_Contains := Some (ip_Address a)\<rparr>) w" rule: call_cases)
    case (err e w1)
    with Cons show ?thesis by auto
  next
    case (ok p w1)
    show ?thesis
    proof (cases "Count p > 0")
      case False
      with ok Cons show ?thesis by auto
    next
      case True
      with ok Cons.prems(2) obtain x where x: "index0 (Results p) = Some x" by (auto elim!: bind_SomeE)
      consider (tagged) vl where "pfx_Vlan x = Value vl" "IsVlanIDInVlanList (vl_Vid vl) (if_TaggedVlans iface)"
        | (plain) "\<And>vl. pfx_Vlan x = Value vl \<Longrightarrow> \<not> IsVlanIDInVlanList (vl_Vid vl) (if_TaggedVlans iface)"
        by blast
      then show ?thesis
      proof cases
        case tagged
        let ?d = "\<lparr>nd_Name = vl_Name vl, nd_Kind = ''vlan'', nd_ID = vl_Vid vl\<rparr>"
        obtain files w2 where app: "appendSystemdNetworkFileForVlan nb (fs_files s) ?d a x w1 = (files, w2)"
          by fastforce
        let ?s = "s\<lparr>fs_netDevConfs := fs_netDevConfs s @ [?d], fs_files := files\<rparr>"
        have "flatcar_inv ifaces ?s"
          using Cons.prems(1) appendSystemdNetworkFileForVlan_path [OF app] tagged(2) assms(2)
          by (auto simp: flatcar_inv_def IsVlanIDInVlanList_iff)
        with Cons.IH [of ?s w2] Cons.prems(2) ok True x tagged app show ?thesis by (simp add: Let_def)
      next
        case plain
        obtain d w2 where set: "setValuesToNetworkDevice nb iface a x w1 = (d, w2)" by fastforce
        have "flatcar_inv ifaces (s\<lparr>fs_physical := d\<rparr>)" using Cons.prems(1) by (simp add: flatcar_inv_def)
        moreover have "flatcar_addresses nb iface as (s\<lparr>fs_physical := d\<rparr>) w2 = Some (s', w')"
          using Cons.prems(2) ok True x plain set by (auto split: option.split_asm)
        ultimately show ?thesis by (rule Cons.IH)
      qed
    qed
  qed
qed

lemma flatcar_interfaces_inv:
  assumes "set ifs \<subseteq> set ifaces" and "flatcar_inv ifaces s"
    and "flatcar_interfaces nb ifs s w = Some (Inr s', w')"
  shows "flatcar_inv ifaces s'"
  using assms
proof (induction ifs arbitrary: s w)
  case Nil
  then show ?case by simp
next
  case (Cons i ifs)
  from Cons.prems(3) obtain as :: "ip_address page" and w1 s1 w2 where
    addrs: "flatcar_addresses nb i (Results as) s w1 = Some (s1, w2)"
    and rest: "flatcar_interfaces nb ifs s1 w2 = Some (Inr s', w')"
    by (auto elim!: bind_SomeE split: prod.split_asm sum.split_asm)
  from Cons.prems(1) have i: "i \<in> set ifaces" and sub: "set ifs \<subseteq> set ifaces" by simp_all
  from flatcar_addresses_inv [OF Cons.prems(2) i addrs] have "flatcar_inv ifaces s1" .
  from Cons.IH [OF sub this rest] show ?case .
qed

lemma appendSystemdNetdevConfs_append:
  "appendSystemdNetdevConfs files vlans = files @ map (\<lambda>v. \<lparr>file_Path = netdev_path (nd_Name v),
     file_Inline = ''[NetDev]'' @ nl @ ''Name='' @ nd_Name v @ nl @ ''Kind='' @ nd_Kind v @ nl @
       ''[VLAN]'' @ nl @ ''Id='' @ Itoa32 (nd_ID v) @ nl\<rparr>) vlans"
  unfolding appendSystemdNetdevConfs_def by (rule foldl_snoc_map)

lemma last_foldl: "foldl (\<lambda>net a. net\<lparr>ns_Gateway := ip_Address a\<rparr>) net as =
    (if as = [] then net else net\<lparr>ns_Gateway := ip_Address (last as)\<rparr>)"
  by (induction as arbitrary: net) auto

lemma dns_foldl:
  "foldl (\<lambda>net a. net\<lparr>ns_DNS := ns_DNS net @ [strip_cidr (ip_Address a)], ns_DNSDefaultRoute := ''no''\<rparr>) net as =
    net\<lparr>ns_DNS := ns_DNS net @ map (\<lambda>a. strip_cidr (ip_Address a)) as,
        ns_DNSDefaultRoute := (if as = [] then ns_DNSDefaultRoute net else ''no'')\<rparr>"
proof (induction as arbitrary: net)
  case Nil
  then show ?case by simp
next
  case (Cons a as)
  then show ?case by (simp only: foldl_Cons) simp
qed

section \<open>Properties\<close>

text \<open>
  C28. The files of a Flatcar configuration, whatever NetBox answers, as long as the extraction
  succeeds: one systemd network file per tagged VLAN, then one netdev file per VLAN in the same
  order, then the network file of the physical interface, then the DCIM file and the hostname.
  Every VLAN device is of kind \<open>vlan\<close>, carries the number of a VLAN tagged on one of the device's
  interfaces, and its netdev file announces exactly that number.
\<close>
theorem flatcar_file_layout:
  assumes "DcimInterfacesList nb (DcimInterfaces\<lparr>iq_DeviceId := Some [dev_Id dev]\<rparr>) w = (Inr ifaces, w1)"
    and "extractFlatcarData nb dev w = Some (Inr cfg, w')"
  shows "\<exists>vlans phys dcim host.
    map file_Path (bc_Files cfg) =
      map (\<lambda>d. network_path (nd_Name d)) vlans @ map (\<lambda>d. netdev_path (nd_Name d)) vlans @
      [network_path (sd_Name phys), ''/etc/dcim.yaml'', ''/etc/hostname''] \<and>
    map file_Inline (drop (length vlans) (bc_Files cfg)) =
      map (\<lambda>d. ''[NetDev]'' @ nl @ ''Name='' @ nd_Name d @ nl @ ''Kind=vlan'' @ nl @ ''[VLAN]'' @ nl @
             ''Id='' @ Itoa32 (nd_ID d) @ nl) vlans @ [iface_network_text phys vlans, dcim, host] \<and>
    (\<forall>d \<in> set vlans. \<exists>iface \<in> set (Results ifaces). nd_ID d \<in> vl_Vid ` set (if_TaggedVlans iface)) \<and>
    createDCIMFile dev = Some dcim \<and> bc_Variant cfg = ''flatcar''"
proof -
  from assms obtain s w2 dcim host w3 where
    loop: "flatcar_interfaces nb (Results ifaces)
      \<lparr>fs_files = [], fs_netDevConfs = [], fs_physical = zero_networkd_device\<rparr> w1 = Some (Inr s, w2)"
    and dcim: "createDCIMFile dev = Some dcim"
    and cfg: "cfg = \<lparr>bc_Version = ''1.1.0'', bc_Variant = ''flatcar'', bc_Files =
      appendSystemdNetworkFileForIface (appendSystemdNetdevConfs (fs_files s) (fs_netDevConfs s))
        (fs_physical s) (fs_netDevConfs s) @
      [\<lparr>file_Path = ''/etc/dcim.yaml'', file_Inline = dcim\<rparr>] @ [\<lparr>file_Path = ''/etc/hostname'', file_Inline = host\<rparr>]\<rparr>"
    by (auto simp: extractFlatcarData_def Let_def elim!: bind_SomeE split: prod.split_asm sum.split_asm)
  have "flatcar_inv (Results ifaces) \<lparr>fs_files = [], fs_netDevConfs = [], fs_physical = zero_networkd_device\<rparr>"
    by (simp add: flatcar_inv_def)
  from flatcar_interfaces_inv [OF subset_refl this loop] have inv: "flatcar_inv (Results ifaces) s" .
  then have len: "length (fs_files s) = length (fs_netDevConfs s)"
    unfolding flatcar_inv_def by (metis length_map)
  show ?thesis
    using inv dcim len
    by (intro exI [of _ "fs_netDevConfs s"] exI [of _ "fs_physical s"] exI [of _ dcim] exI [of _ host])
      (auto simp: cfg appendSystemdNetworkFileForIface_def appendSystemdNetdevConfs_append flatcar_inv_def)
qed

lemma rack_interfaces:
  "DcimInterfacesList mem_netbox (DcimInterfaces\<lparr>iq_DeviceId := Some [dev_Id rack_node]\<rparr>) rack_world =
     (Inr (page [snd (hd (m_interfaces rack_world))]), rack_world)"
  by code_simp

lemma rack_flatcar:
  obtains cfg w where "extractFlatcarData mem_netbox rack_node rack_world = Some (Inr cfg, w)"
    and "map file_Path (bc_Files cfg) = [network_path ''storage'', netdev_path ''storage'', network_path ''eth0'',
      ''/etc/dcim.yaml'', ''/etc/hostname'']"
proof -
  have run: "case extractFlatcarData mem_netbox rack_node rack_world of
      Some (Inr cfg, w) \<Rightarrow> map file_Path (bc_Files cfg) = [network_path ''storage'', netdev_path ''storage'',
        network_path ''eth0'', ''/etc/dcim.yaml'', ''/etc/hostname'']
    | _ \<Rightarrow> False" by code_simp
  show ?thesis
  proof (cases "extractFlatcarData mem_netbox rack_node rack_world")
    case None
    with run show ?thesis by simp
  next
    case (Some rw)
    obtain r w where "rw = (r, w)" by fastforce
    with run Some that show ?thesis by (cases r) auto
  qed
qed

theorem flatcar_file_layout_witness:
  "\<exists>cfg w. extractFlatcarData mem_netbox rack_node rack_world = Some (Inr cfg, w) \<and>
     (\<exists>(vlans :: networkd_netdev list) (phys :: networkd_device). map file_Path (bc_Files cfg) = map (\<lambda>d. network_path (nd_Name d)) vlans @
        map (\<lambda>d. netdev_path (nd_Name d)) vlans @ [network_path (sd_Name phys), ''/etc/dcim.yaml'', ''/etc/hostname''])"
proof -
  obtain cfg w where call: "extractFlatcarData mem_netbox rack_node rack_world = Some (Inr cfg, w)"
    by (rule rack_flatcar)
  with flatcar_file_layout [OF rack_interfaces call] show ?thesis by blast
qed

definition mac_text :: "string nullable \<Rightarrow> string" where
  "mac_text m = (case Get m of None \<Rightarrow> [] | Some a \<Rightarrow> a)"

lemma setValues_dhcp:
  "HasDHCPTag (ip_Tags addr) \<Longrightarrow> setValuesToNetworkDevice nb iface addr prefix w =
    (\<lparr>sd_Name = if_Name iface, sd_MACAddress = mac_text (if_MacAddress iface),
      sd_Network = \<lparr>ns_Addresses = [], ns_Gateway = [], ns_DNS = [], ns_Domains = [], ns_DHCP = ''yes'',
        ns_DNSDefaultRoute = []\<rparr>\<rparr>, w)"
  by (simp add: setValuesToNetworkDevice_def zero_networkd_device_def mac_text_def)

lemma setValues_static:
  assumes "\<not> HasDHCPTag (ip_Tags addr)" and "GetTaggedAddressesFromPrefix nb ''gateway'' prefix w = (gws, w1)"
    and "GetTaggedAddressesFromPrefix nb ''dns'' prefix w1 = (dns, w2)"
  shows "setValuesToNetworkDevice nb iface addr prefix w =
    (\<lparr>sd_Name = if_Name iface, sd_MACAddress = mac_text (if_MacAddress iface),
      sd_Network = \<lparr>ns_Addresses = [ip_Address addr],
        ns_Gateway = (if gws = [] then [] else ip_Address (last gws)),
        ns_DNS = map (\<lambda>a. strip_cidr (ip_Address a)) dns,
        ns_Domains = (case map_of (pfx_CustomFields prefix) ''Domains'' of None \<Rightarrow> []
           | Some d \<Rightarrow> if dns \<noteq> [] then [fmt_Sprint d] else []),
        ns_DHCP = ''no'', ns_DNSDefaultRoute = (if dns = [] then [] else ''no'')\<rparr>\<rparr>, w2)"
  using assms
  by (cases "map_of (pfx_CustomFields prefix) ''Domains''")
    (simp_all add: setValuesToNetworkDevice_def zero_networkd_device_def mac_text_def last_foldl dns_foldl)


text \<open>
  C30. \<open>CreateFlatcars\<close> accounts for every staged device: configurations and errors add up to the
  devices listed, the joined error is nil exactly when no device was lost, and every configuration
  is named after one of the listed devices.
\<close>
theorem flatcars_account:
  assumes "GetDevices nb (filters\<lparr>f_Status := [''staged'']\<rparr>) w = (Inr devices, w1)"
    and "CreateFlatcars nb filters w = Some ((result, err), w')"
  shows "\<exists>errs. length result + length errs = length (Results devices) \<and> err = errors_Join errs \<and>
    (err = None \<longleftrightarrow> length result = length (Results devices)) \<and>
    Some ` set (map gen_Hostname result) \<subseteq> (\<lambda>d. Get (dev_Name d)) ` set (Results devices)"
proof -
  from assms obtain errs where loop: "create_flatcars nb (Results devices) [] [] w1 = Some ((result, errs), w')"
    and err: "err = errors_Join errs"
    by (auto simp: CreateFlatcars_def elim!: bind_SomeE)
  have "Some (gen_Hostname r) \<in> (\<lambda>d. Get (dev_Name d)) ` set (Results devices)" if "r \<in> set result" for r
    using flatcar_loop.kept_from_devices [OF loop that] by (force simp del: Get_eq_Some)
  with flatcar_loop.complete [OF loop] err show ?thesis by (intro exI [of _ errs]) auto
qed

theorem flatcars_account_witness:
  "\<exists>result err w. CreateFlatcars mem_netbox no_filters
      (rack_world\<lparr>m_devices := [rack_node\<lparr>dev_StatusValue := ''staged''\<rparr>]\<rparr>) = Some ((result, err), w) \<and>
    (err = None \<longleftrightarrow> length result = 1)"
proof -
  let ?d = "rack_node\<lparr>dev_StatusValue := ''staged''\<rparr>"
  let ?w = "rack_world\<lparr>m_devices := [?d]\<rparr>"
  have list: "GetDevices mem_netbox (no_filters\<lparr>f_Status := [''staged'']\<rparr>) ?w = (Inr (page [?d]), ?w)"
    by code_simp
  have "CreateFlatcars mem_netbox no_filters ?w \<noteq> None" by code_simp
  then obtain result err w where call: "CreateFlatcars mem_netbox no_filters ?w = Some ((result, err), w)" by auto
  from flatcars_account [OF list call] call show ?thesis by (auto simp: page_def)
qed



text \<open>
  The two generators disagree on an address whose prefix has no VLAN: the Flatcar loop takes it
  as the address of the physical interface, the Fedora CoreOS loop panics.
\<close>
lemma fcos_needs_vlan:
  assumes "IpamPrefixesList nb (Prefixes\<lparr>pq_Contains := Some (ip_Address a)\<rparr>) w = (Inr p, w1)"
    and "Count p > 0" and "Results p = x # xs" and "Get (pfx_Vlan x) = None"
  shows "fcos_addresses nb iface (a # as) files w = None \<and>
    flatcar_addresses nb iface [a] s w =
      (let (d, w2) = setValuesToNetworkDevice nb iface a x w1 in Some (s\<lparr>fs_physical := d\<rparr>, w2))"
  using assms by (simp add: Let_def case_prod_beta)

end
