(* ===== verification/Talos.thy ===== *)
theory Talos
  imports Common_NetBox Memory_World
begin

text \<open>
  The package \<open>pkg/talos\<close>: the Talos machine configuration of a NetBox device
  (\<open>talosconfig.go\<close>). The document is the record of the fields that the code sets; its YAML text
  is given by the YAML package, a parameter.
\<close>

section \<open>Data\<close>

record talos_vlan =
  tv_Addresses :: "string list"
  tv_DHCP :: bool
  tv_ID :: uint16

record talos_device =
  td_CIDR :: string
  td_Vlans :: "talos_vlan list"
  td_DHCP :: bool
  td_Interface :: string

record talos_document =
  doc_Version :: string
  doc_Hostname :: string
  doc_Interfaces :: "talos_device list"
  doc_NodeLabels :: "(string \<times> string) list"

record talos =
  tal_Config :: "talos_document list"
  tal_Hostname :: string

section \<open>The code\<close>

text \<open>The VLAN number of the first prefix that contains the address; 0 stands for no VLAN.\<close>

definition prefix_vlan :: "ipam_prefix \<Rightarrow> int32" where
  "prefix_vlan prefix = (case Get (pfx_Vlan prefix) of None \<Rightarrow> 0 | Some v \<Rightarrow> vl_Vid v)"

fun talos_addresses ::
  "'w netbox \<Rightarrow> interface \<Rightarrow> ip_address list \<Rightarrow> talos_vlan list \<Rightarrow> string \<Rightarrow> ('w, talos_vlan list \<times> string) go" where
  "talos_addresses nb iface [] talosVlans deviceCIDR w = Some ((talosVlans, deviceCIDR), w)"
| "talos_addresses nb iface (ipAddr # ipAddrs) talosVlans deviceCIDR w =
     (case IpamPrefixesList nb (Prefixes\<lparr>pq_Contains := Some (ip_Address ipAddr)\<rparr>) w of
        (Inl err, w) \<Rightarrow> talos_addresses nb iface ipAddrs talosVlans deviceCIDR w
      | (Inr prefix, w) \<Rightarrow>
          if Count prefix > 0 then do {
            p \<leftarrow> index0 (Results prefix);
            let vlanID = prefix_vlan p;
            if IsVlanIDInVlanList vlanID (if_TaggedVlans iface) then
              talos_addresses nb iface ipAddrs
                (talosVlans @ [\<lparr>tv_Addresses = [ip_Address ipAddr], tv_DHCP = False, tv_ID = ucast vlanID\<rparr>])
                deviceCIDR w
            else talos_addresses nb iface ipAddrs talosVlans (ip_Address ipAddr) w
          }
          else talos_addresses nb iface ipAddrs talosVlans deviceCIDR w)"

fun talos_interfaces ::
  "'w netbox \<Rightarrow> interface list \<Rightarrow> talos_device list \<Rightarrow> ('w, talos_device list result) go" where
  "talos_interfaces nb [] talosInterfaces w = Some (Inr talosInterfaces, w)"
| "talos_interfaces nb (iface # ifaces) talosInterfaces w =
     (case IpamIpAddressesList nb (IpAddresses\<lparr>aq_InterfaceId := Some [if_Id iface]\<rparr>) w of
        (Inl err, w) \<Rightarrow> Some (Inl err, w)
      | (Inr ipAddresses, w) \<Rightarrow> do {
          ((talosVlans, deviceCIDR), w) \<leftarrow>
            (if \<not> HasDHCPTag (if_Tags iface) then talos_addresses nb iface (Results ipAddresses) [] [] w
             else Some (([], []), w));
          talos_interfaces nb ifaces
            (talosInterfaces @ [\<lparr>td_CIDR = deviceCIDR, td_Vlans = talosVlans, td_DHCP = False,
               td_Interface = if_Name iface\<rparr>]) w
        })"

definition talos_labels :: "device \<Rightarrow> string \<Rightarrow> (string \<times> string) list" where
  "talos_labels dev serial =
     [(''generated-by'', ''machinecfg''),
      (''device.netbox.org/serial'', serial),
      (''device.netbox.org/model'', dev_DeviceTypeSlug dev),
      (''device.netbox.org/role'', dev_Role dev),
      (''device.netbox.org/status'', dev_StatusLabel dev),
      (''topology.kubernetes.io/region'', dev_Site dev),
      (''topology.kubernetes.io/site'', dev_Site dev),
      (''topology.netbox.org/location'', GetName (dev_Location dev)),
      (''topology.netbox.org/racks'', GetName (dev_Rack dev)),
      (''topology.netbox.org/tenant'', GetName (dev_Tenant dev))]"

definition extractTalosData :: "'w netbox \<Rightarrow> device \<Rightarrow> ('w, talos_document list result) go" where
  "extractTalosData nb dev w =
     (case DcimInterfacesList nb (DcimInterfaces\<lparr>iq_DeviceId := Some [dev_Id dev]\<rparr>) w of
        (Inl err, w) \<Rightarrow> Some (Inl err, w)
      | (Inr netboxInterfaces, w) \<Rightarrow> do {
          (r, w) \<leftarrow> talos_interfaces nb (Results netboxInterfaces) [] w;
          (case r of
             Inl err \<Rightarrow> Some (Inl err, w)
           | Inr talosInterfaces \<Rightarrow> do {
               hostname \<leftarrow> Get (dev_Name dev);
               serial \<leftarrow> dev_Serial dev;
               Some (Inr [\<lparr>doc_Version = ''v1alpha1'', doc_Hostname = hostname,
                 doc_Interfaces = talosInterfaces, doc_NodeLabels = talos_labels dev serial\<rparr>], w)
             })
        })"

fun create_talos ::
  "'w netbox \<Rightarrow> device list \<Rightarrow> talos list \<Rightarrow> go_error list \<Rightarrow> ('w, talos list \<times> go_error list) go" where
  "create_talos nb [] result extractErrs w = Some ((result, extractErrs), w)"
| "create_talos nb (dev # devs) result extractErrs w = do {
     (talos, w) \<leftarrow> extractTalosData nb dev w;
     (case talos of
        Inl extractErr \<Rightarrow> create_talos nb devs result (extractErrs @ [extractErr]) w
      | Inr docs \<Rightarrow>
          create_talos nb devs (result @ [\<lparr>tal_Config = docs, tal_Hostname = DeviceGetName dev\<rparr>]) extractErrs w)
   }"

definition CreateTalosConfigs ::
  "'w netbox \<Rightarrow> device_filters \<Rightarrow> ('w, talos list \<times> go_error option) go" where
  "CreateTalosConfigs nb filters w =
     (case GetDevices nb (filters\<lparr>f_Status := [''active'']\<rparr>) w of
        (Inl err, w) \<Rightarrow> Some (([], Some err), w)
      | (Inr devices, w) \<Rightarrow>
          if Count devices = 0 then Some (([], None), w)
          else do {
            ((result, extractErrs), w) \<leftarrow> create_talos nb (Results devices) [] [] w;
            Some ((result, errors_Join extractErrs), w)
          })"

text \<open>A document that the YAML package refuses is skipped.\<close>

definition PrintYAMLFile :: "(talos_document \<Rightarrow> string result) \<Rightarrow> talos_document list \<Rightarrow> sink \<Rightarrow> (sink \<times> string) list" where
  "PrintYAMLFile Marshal documents fileDescriptor =
     concat (map (\<lambda>d. case Marshal d of Inl err \<Rightarrow> [] | Inr yamlData \<Rightarrow> [(fileDescriptor, yamlData)]) documents)"

interpretation talos_loop: collector extractTalosData "\<lambda>d. Some (DeviceGetName d)"
  "\<lambda>docs n. \<lparr>tal_Config = docs, tal_Hostname = n\<rparr>" create_talos
  by unfold_locales (simp, unfold create_talos.simps Option.bind.simps, rule refl)

section \<open>Facts\<close>

definition vlan_of :: "interface \<Rightarrow> talos_vlan \<Rightarrow> bool" where
  "vlan_of iface tv \<longleftrightarrow> \<not> tv_DHCP tv \<and> length (tv_Addresses tv) = 1 \<and>
     (\<exists>v \<in> set (if_TaggedVlans iface). tv_ID tv = ucast (vl_Vid v))"

definition device_of :: "interface \<Rightarrow> talos_device \<Rightarrow> bool" where
  "device_of iface td \<longleftrightarrow> td_Interface td = if_Name iface \<and> \<not> td_DHCP td \<and>
     (\<forall>tv \<in> set (td_Vlans td). vlan_of iface tv) \<and>
     (HasDHCPTag (if_Tags iface) \<longrightarrow> td_CIDR td = [] \<and> td_Vlans td = [])"

lemma talos_addresses_vlans:
  assumes "talos_addresses nb iface addrs vlans cidr w = Some ((vlans', cidr'), w')"
    and "\<forall>tv \<in> set vlans. vlan_of iface tv"
  shows "(\<forall>tv \<in> set vlans'. vlan_of iface tv) \<and> (cidr' = cidr \<or> cidr' \<in> ip_Address ` set addrs) \<and>
    (\<forall>a \<in> \<Union> (set ` tv_Addresses ` set vlans'). a \<in> \<Union> (set ` tv_Addresses ` set vlans) \<or> a \<in> ip_Address ` set addrs)"
  using assms
proof (induction addrs arbitrary: vlans cidr w)
  case Nil
  then show ?case by auto
next
  case (Cons a as)
  show ?case
  proof (cases "IpamPrefixesList nb (Prefixes\<lparr>pq_Contains := Some (ip_Address a)\<rparr>) w" rule: call_cases)
    case (err e w1)
    with Cons.IH [of vlans cidr w1] Cons.prems show ?thesis by auto
  next
    case (ok p w1)
    show ?thesis
    proof (cases "Count p > 0")
      case False
      with Cons.IH [of vlans cidr w1] Cons.prems ok show ?thesis by auto
    next
      case True
      with Cons.prems(1) ok obtain x where x: "index0 (Results p) = Some x" by (auto elim!: bind_SomeE)
      let ?new = "\<lparr>tv_Addresses = [ip_Address a], tv_DHCP = False, tv_ID = ucast (prefix_vlan x)\<rparr>"
      show ?thesis
      proof (cases "IsVlanIDInVlanList (prefix_vlan x) (if_TaggedVlans iface)")
        case tagged: True
        then have "vlan_of iface ?new" by (auto simp: IsVlanIDInVlanList_iff vlan_of_def)
        with Cons.IH [of "vlans @ [?new]" cidr w1] Cons.prems True tagged ok x show ?thesis
          by (auto simp: Let_def)
      next
        case untagged: False
        with Cons.IH [of vlans "ip_Address a" w1] Cons.prems True ok x show ?thesis
          by (auto simp: Let_def)
      qed
    qed
  qed
qed

lemma talos_interfaces_devices:
  assumes "talos_interfaces nb ifaces tds w = Some (Inr tds', w')"
  shows "\<exists>new. tds' = tds @ new \<and> list_all2 device_of ifaces new"
  using assms
proof (induction ifaces arbitrary: tds w)
  case Nil
  then show ?case by simp
next
  case (Cons i ifaces)
  from Cons.prems obtain as :: "ip_address page" and w1 vlans cidr w2 where
    loop: "(if \<not> HasDHCPTag (if_Tags i) then talos_addresses nb i (Results as) [] [] w1 else Some (([], []), w1)) =
      Some ((vlans, cidr), w2)"
    and rest: "talos_interfaces nb ifaces (tds @ [\<lparr>td_CIDR = cidr, td_Vlans = vlans, td_DHCP = False,
      td_Interface = if_Name i\<rparr>]) w2 = Some (Inr tds', w')"
    by (auto elim!: bind_SomeE split: prod.split_asm sum.split_asm)
  have "device_of i \<lparr>td_CIDR = cidr, td_Vlans = vlans, td_DHCP = False, td_Interface = if_Name i\<rparr>"
    using loop talos_addresses_vlans [of nb i "Results as" "[]" "[]" w1 vlans cidr w2]
    by (auto simp: device_of_def split: if_split_asm)
  with Cons.IH [OF rest] show ?case by auto
qed

section \<open>Properties\<close>



text \<open>
  \<open>CreateTalosConfigs\<close> accounts for every active device: the configurations and the errors it
  collects add up to the devices listed, the joined error is nil exactly when no device was lost,
  and every configuration is named after one of the listed devices.
\<close>
lemma talos_configs_account:
  assumes "GetDevices nb (filters\<lparr>f_Status := [''active'']\<rparr>) w = (Inr devices, w1)" and "Count devices \<noteq> 0"
    and "CreateTalosConfigs nb filters w = Some ((result, err), w')"
  shows "\<exists>errs. length result + length errs = length (Results devices) \<and> err = errors_Join errs \<and>
    (err = None \<longleftrightarrow> length result = length (Results devices)) \<and>
    set (map tal_Hostname result) \<subseteq> DeviceGetName ` set (Results devices)"
proof -
  from assms obtain errs where loop: "create_talos nb (Results devices) [] [] w1 = Some ((result, errs), w')"
    and err: "err = errors_Join errs"
    by (auto simp: CreateTalosConfigs_def elim!: bind_SomeE)
  have "set (map tal_Hostname result) \<subseteq> DeviceGetName ` set (Results devices)"
    by (force dest: talos_loop.kept_from_devices [OF loop])
  with talos_loop.complete [OF loop] err show ?thesis by (intro exI [of _ errs]) simp
qed

end
