(* ===== verification/Tinkerbell_Status.thy ===== *)
theory Tinkerbell_Status
  imports Memory_World
begin

text \<open>
  \<open>pkg/tinkerbell/sync_status.go\<close>: the write-back of the provisioning state of Tinkerbell
  Hardware objects into the status of NetBox devices. The locale \<open>status_writer\<close> is the
  contract of \<open>setDeviceStatus\<close> that the command and the controllers rely on.
\<close>

section \<open>The code\<close>

definition annotationProvisioned :: string where
  "annotationProvisioned = ''v1alpha1.tinkerbell.org/provisioned''"

record tink_sync_result =
  tr_Hostname :: string
  tr_DeviceID :: int32
  tr_Updated :: bool
  tr_Error :: string

definition setDeviceStatus :: "'w netbox \<Rightarrow> int32 \<Rightarrow> string \<Rightarrow> ('w, bool) call" where
  "setDeviceStatus nb deviceID targetStatus w =
     (case DcimDevicesRetrieve nb deviceID w of
        (Inl err, w) \<Rightarrow>
          (Inl (Wrapf (''cannot retrieve NetBox device '' @ Itoa32 deviceID @ '': '') err), w)
      | (Inr device, w) \<Rightarrow>
          if dev_StatusValue device = targetStatus then (Inr False, w)
          else (case DcimDevicesPatchStatus nb deviceID targetStatus w of
                  (Inl err, w) \<Rightarrow> (Inl err, w)
                | (Inr _, w) \<Rightarrow> (Inr True, w)))"

definition SetDeviceStatus :: "'w netbox \<Rightarrow> int32 \<Rightarrow> string \<Rightarrow> ('w, bool) call" where
  "SetDeviceStatus nb deviceID targetStatus = setDeviceStatus nb deviceID targetStatus"

definition isProvisioned :: "hardware \<Rightarrow> bool" where
  "isProvisioned hw \<longleftrightarrow> map_of (hw_Annotations hw) annotationProvisioned = Some ''true''"

definition isUnprovisioned :: "hardware \<Rightarrow> bool" where
  "isUnprovisioned hw \<longleftrightarrow> map_of (hw_Annotations hw) annotationProvisioned = None"

text \<open>One iteration of the loop of \<open>SyncStatus\<close>; \<open>None\<close> is a \<open>continue\<close> without a result.\<close>

definition sync_hardware :: "'w netbox \<Rightarrow> hardware \<Rightarrow> 'w \<Rightarrow> tink_sync_result option \<times> 'w" where
  "sync_hardware nb hw w =
     (if \<not> isProvisioned hw \<and> \<not> isUnprovisioned hw then (None, w)
      else
        let result = \<lparr>tr_Hostname = hw_Name hw, tr_DeviceID = 0, tr_Updated = False, tr_Error = []\<rparr>;
            deviceIDStr = mget (hw_Labels hw) ''netbox-device-id''
        in if deviceIDStr = [] then
             (Some (result\<lparr>tr_Error := ''label netbox-device-id missing''\<rparr>), w)
           else (case ParseInt32 deviceIDStr of
               None \<Rightarrow> (Some (result\<lparr>tr_Error := ''invalid netbox-device-id: '' @ deviceIDStr\<rparr>), w)
             | Some deviceID64 \<Rightarrow>
                 let result = result\<lparr>tr_DeviceID := word_of_int deviceID64\<rparr>;
                     (updated, w) =
                       (if isProvisioned hw then setDeviceStatus nb (tr_DeviceID result) ''active'' w
                        else setDeviceStatus nb (tr_DeviceID result) ''staged'' w)
                 in (case updated of
                       Inl err \<Rightarrow> (Some (result\<lparr>tr_Error := error_message err\<rparr>), w)
                     | Inr updated \<Rightarrow> (Some (result\<lparr>tr_Updated := updated\<rparr>), w))))"

fun sync_hardwares :: "'w netbox \<Rightarrow> hardware list \<Rightarrow> 'w \<Rightarrow> tink_sync_result list \<times> 'w" where
  "sync_hardwares nb [] w = ([], w)"
| "sync_hardwares nb (hw # hws) w =
     (let (r, w) = sync_hardware nb hw w; (rs, w) = sync_hardwares nb hws w
      in ((case r of None \<Rightarrow> rs | Some result \<Rightarrow> result # rs), w))"

definition Tink_SyncStatus ::
  "('w, 'o) kube \<Rightarrow> string \<Rightarrow> 'w netbox \<Rightarrow> ('w, tink_sync_result list) call" where
  "Tink_SyncStatus k namespace nb w =
     (case HardwareList k namespace w of
        (Inl err, w) \<Rightarrow> (Inl (Wrapf (''cannot list Hardware in namespace '' @ namespace @ '': '') err), w)
      | (Inr items, w) \<Rightarrow>
          if items = [] then (Inr [], w)
          else (let (results, w) = sync_hardwares nb items w in (Inr results, w)))"

section \<open>The contract of a status writer\<close>

locale status_writer =
  fixes set_status :: "'w netbox \<Rightarrow> int32 \<Rightarrow> string \<Rightarrow> ('w, bool) call"
  assumes applied: "device_laws nb v \<Longrightarrow> set_status nb i st w = (Inr b, w') \<Longrightarrow>
      v w' = (v w)\<lparr>db_status := (db_status (v w))(i \<mapsto> st)\<rparr> \<and> (b \<longleftrightarrow> db_status (v w) i \<noteq> Some st)"
    and failed: "device_laws nb v \<Longrightarrow> set_status nb i st w = (Inl e, w') \<Longrightarrow>
      v w' = v w \<and> error_message e \<noteq> []"
begin

lemma status_after: "device_laws nb v \<Longrightarrow> set_status nb i st w = (Inr b, w') \<Longrightarrow>
    db_status (v w') i = Some st"
  by (simp add: applied)

lemma others_kept: "device_laws nb v \<Longrightarrow> set_status nb i st w = (r, w') \<Longrightarrow> j \<noteq> i \<Longrightarrow>
    db_status (v w') j = db_status (v w) j"
  by (cases r) (auto dest: applied failed)

text \<open>A writer is quiet where the status is already the wanted one.\<close>

lemma quiet:
  assumes "device_laws nb v" and "db_status (v w) i = Some st" and "set_status nb i st w = (r, w')"
  shows "v w' = v w" and "r = Inr b \<Longrightarrow> \<not> b"
proof -
  from assms(2) have "(db_status (v w))(i \<mapsto> st) = db_status (v w)" by auto
  then show "v w' = v w"
    using assms applied failed by (cases r) fastforce+
  show "\<not> b" if "r = Inr b" using that assms applied by fastforce
qed

end

lemma setDeviceStatus_contract:
  assumes "device_laws nb v"
  shows "setDeviceStatus nb i st w = (Inr b, w') \<Longrightarrow>
      v w' = (v w)\<lparr>db_status := (db_status (v w))(i \<mapsto> st)\<rparr> \<and> (b \<longleftrightarrow> db_status (v w) i \<noteq> Some st)"
    and "setDeviceStatus nb i st w = (Inl e, w') \<Longrightarrow> v w' = v w \<and> error_message e \<noteq> []"
proof -
  obtain r w1 where ret: "DcimDevicesRetrieve nb i w = (r, w1)" by fastforce
  note v1 = device_lawsD(1) [OF assms ret]
  obtain q w2 where pat: "DcimDevicesPatchStatus nb i st w1 = (q, w2)" by fastforce
  note patD = device_lawsD(3,4,5) [OF assms, of i st w1]
  { assume "setDeviceStatus nb i st w = (Inr b, w')"
    then obtain d where r: "r = Inr d" and
      c: "(dev_StatusValue d = st \<and> \<not> b \<and> w' = w1) \<or>
         (dev_StatusValue d \<noteq> st \<and> b \<and> w' = w2 \<and> (\<exists>d'. q = Inr d'))"
      using ret pat by (auto simp: setDeviceStatus_def split: sum.splits if_splits)
    from ret r have st: "db_status (v w) i = Some (dev_StatusValue d)"
      using device_lawsD(2) [OF assms] by blast
    from c show "v w' = (v w)\<lparr>db_status := (db_status (v w))(i \<mapsto> st)\<rparr> \<and> (b \<longleftrightarrow> db_status (v w) i \<noteq> Some st)"
    proof
      assume c1: "dev_StatusValue d = st \<and> \<not> b \<and> w' = w1"
      with st have "(db_status (v w))(i \<mapsto> st) = db_status (v w)" by auto
      with c1 st v1 show ?thesis by simp
    next
      assume "dev_StatusValue d \<noteq> st \<and> b \<and> w' = w2 \<and> (\<exists>d'. q = Inr d')"
      with st v1 patD(1) pat show ?thesis by auto
    qed }
  { assume "setDeviceStatus nb i st w = (Inl e, w')"
    with ret pat v1 patD(2,3) show "v w' = v w \<and> error_message e \<noteq> []"
      by (auto simp: setDeviceStatus_def split: sum.splits if_splits) }
qed

interpretation sds: status_writer setDeviceStatus
  by unfold_locales (fact setDeviceStatus_contract)+

section \<open>The loop\<close>

text \<open>The objects the loop reports on, the device each stands for, and its wanted status.\<close>

definition handled :: "hardware \<Rightarrow> bool" where
  "handled hw \<longleftrightarrow> isProvisioned hw \<or> isUnprovisioned hw"

definition label_id :: "hardware \<Rightarrow> int32 option" where
  "label_id hw = map_option word_of_int (ParseInt32 (mget (hw_Labels hw) ''netbox-device-id''))"

definition wanted_status :: "hardware \<Rightarrow> string" where
  "wanted_status hw = (if isProvisioned hw then ''active'' else ''staged'')"

lemma sync_hardware_unhandled: "\<not> handled hw \<Longrightarrow> sync_hardware nb hw w = (None, w)"
  by (simp add: sync_hardware_def handled_def)

lemma sync_hardware_handled:
  assumes "handled hw"
  obtains (bad_label) e where "label_id hw = None" and "e \<noteq> []" and
      "sync_hardware nb hw w =
        (Some \<lparr>tr_Hostname = hw_Name hw, tr_DeviceID = 0, tr_Updated = False, tr_Error = e\<rparr>, w)"
    | (failed) i e w' where "label_id hw = Some i" and
      "setDeviceStatus nb i (wanted_status hw) w = (Inl e, w')" and
      "sync_hardware nb hw w =
        (Some \<lparr>tr_Hostname = hw_Name hw, tr_DeviceID = i, tr_Updated = False, tr_Error = error_message e\<rparr>, w')"
    | (written) i b w' where "label_id hw = Some i" and
      "setDeviceStatus nb i (wanted_status hw) w = (Inr b, w')" and
      "sync_hardware nb hw w =
        (Some \<lparr>tr_Hostname = hw_Name hw, tr_DeviceID = i, tr_Updated = b, tr_Error = []\<rparr>, w')"
proof (cases "ParseInt32 (mget (hw_Labels hw) ''netbox-device-id'')")
  case None
  let ?l = "mget (hw_Labels hw) ''netbox-device-id''"
  let ?e = "if ?l = [] then ''label netbox-device-id missing'' else ''invalid netbox-device-id: '' @ ?l"
  from None assms have "sync_hardware nb hw w =
      (Some \<lparr>tr_Hostname = hw_Name hw, tr_DeviceID = 0, tr_Updated = False, tr_Error = ?e\<rparr>, w)"
    by (simp add: sync_hardware_def handled_def)
  moreover have "label_id hw = None" using None by (simp add: label_id_def)
  moreover have "?e \<noteq> []" by simp
  ultimately show ?thesis by (intro bad_label)
next
  case (Some n)
  then have id: "label_id hw = Some (word_of_int n)"
    and ne: "mget (hw_Labels hw) ''netbox-device-id'' \<noteq> []"
    by (auto simp: label_id_def)
  obtain r w' where set: "setDeviceStatus nb (word_of_int n) (wanted_status hw) w = (r, w')"
    by fastforce
  have "sync_hardware nb hw w = (case r of
      Inl e \<Rightarrow> (Some \<lparr>tr_Hostname = hw_Name hw, tr_DeviceID = word_of_int n, tr_Updated = False,
                    tr_Error = error_message e\<rparr>, w')
    | Inr b \<Rightarrow> (Some \<lparr>tr_Hostname = hw_Name hw, tr_DeviceID = word_of_int n, tr_Updated = b,
                    tr_Error = []\<rparr>, w'))"
  proof (cases "isProvisioned hw")
    case True
    with set have "setDeviceStatus nb (word_of_int n) ''active'' w = (r, w')"
      by (simp add: wanted_status_def)
    with True Some ne show ?thesis
      by (cases r) (simp_all add: sync_hardware_def)
  next
    case False
    with set assms have "setDeviceStatus nb (word_of_int n) ''staged'' w = (r, w')" and "isUnprovisioned hw"
      by (simp_all add: wanted_status_def handled_def)
    with False Some ne show ?thesis
      by (cases r) (simp_all add: sync_hardware_def)
  qed
  with id set show ?thesis
    by (cases r) (auto intro: failed written)
qed

lemma sync_hardwares_ConsE:
  assumes "sync_hardwares nb (hw # hws) w = (rs, w')"
  obtains r w1 rs' where "sync_hardware nb hw w = (r, w1)" and "sync_hardwares nb hws w1 = (rs', w')"
    and "rs = (case r of None \<Rightarrow> rs' | Some x \<Rightarrow> x # rs')"
  using assms by (auto split: prod.splits)

text \<open>Every handled object gets exactly one result, whatever NetBox answers.\<close>

lemma sync_hardwares_hostnames:
  "map tr_Hostname (fst (sync_hardwares nb hws w)) = map hw_Name (filter handled hws)"
proof (induction hws arbitrary: w)
  case Nil
  then show ?case by simp
next
  case (Cons hw hws)
  show ?case
  proof (cases "handled hw")
    case False
    moreover obtain rs w2 where "sync_hardwares nb hws w = (rs, w2)" by fastforce
    ultimately show ?thesis
      using Cons [of w] by (simp add: sync_hardware_unhandled)
  next
    case True
    then obtain r w' where "sync_hardware nb hw w = (Some r, w')" and "tr_Hostname r = hw_Name hw"
      by (cases rule: sync_hardware_handled [where nb = nb and w = w]) auto
    moreover obtain rs w2 where "sync_hardwares nb hws w' = (rs, w2)" by fastforce
    ultimately show ?thesis using True Cons [of w'] by simp
  qed
qed

text \<open>The statuses of devices that no object of the list names stay as they are.\<close>

lemma sync_hardware_frame:
  assumes "device_laws nb v" and "\<And>i. label_id hw = Some i \<Longrightarrow> handled hw \<Longrightarrow> i \<noteq> j"
    and "sync_hardware nb hw w = (r, w')"
  shows "db_status (v w') j = db_status (v w) j"
proof (cases "handled hw")
  case False
  with assms(3) show ?thesis by (simp add: sync_hardware_unhandled)
next
  case True
  then show ?thesis
    by (cases rule: sync_hardware_handled [where nb = nb and w = w])
      (use assms True in \<open>auto dest: sds.others_kept [OF assms(1), where j = j]\<close>)
qed

lemma sync_hardwares_frame:
  assumes "device_laws nb v"
    and "\<And>hw. hw \<in> set hws \<Longrightarrow> handled hw \<Longrightarrow> label_id hw \<noteq> Some j"
    and "sync_hardwares nb hws w = (rs, w')"
  shows "db_status (v w') j = db_status (v w) j"
  using assms(2,3)
proof (induction hws arbitrary: w rs)
  case Nil
  then show ?case by simp
next
  case (Cons hw hws)
  from Cons.prems(2) obtain r w1 rs' where r: "sync_hardware nb hw w = (r, w1)"
    and rs': "sync_hardwares nb hws w1 = (rs', w')" by (rule sync_hardwares_ConsE)
  from rs' Cons.prems(1) have "db_status (v w') j = db_status (v w1) j"
    by (intro Cons.IH) auto
  also have "\<dots> = db_status (v w) j"
    using Cons.prems(1) [of hw] by (intro sync_hardware_frame [OF assms(1) _ r]) auto
  finally show ?case .
qed

text \<open>
  Objects that name the same device ask for the same status: then the order in which the loop
  meets them does not matter, and a status it has written stays.
\<close>

definition consistent :: "hardware list \<Rightarrow> bool" where
  "consistent hws \<longleftrightarrow>
     (\<forall>h \<in> set hws. \<forall>h' \<in> set hws. handled h \<longrightarrow> handled h' \<longrightarrow> label_id h \<noteq> None \<longrightarrow>
        label_id h = label_id h' \<longrightarrow> wanted_status h = wanted_status h')"

lemma sync_hardware_keeps:
  assumes "device_laws nb v" and "db_status (v w) i = Some st"
    and "handled hw \<Longrightarrow> label_id hw = Some i \<Longrightarrow> wanted_status hw = st"
    and "sync_hardware nb hw w = (r, w')"
  shows "db_status (v w') i = Some st"
proof (cases "handled hw \<and> label_id hw = Some i")
  case False
  then have "\<And>j. label_id hw = Some j \<Longrightarrow> handled hw \<Longrightarrow> j \<noteq> i" by auto
  from sync_hardware_frame [OF assms(1) this assms(4)] assms(2) show ?thesis by simp
next
  case True
  then have "handled hw" by simp
  then show ?thesis
    by (cases rule: sync_hardware_handled [where nb = nb and w = w])
      (use assms True in \<open>auto dest: sds.applied [OF assms(1)] sds.failed [OF assms(1)]\<close>)
qed

lemma sync_hardwares_keeps:
  assumes "device_laws nb v"
    and "\<forall>hw \<in> set hws. handled hw \<longrightarrow> label_id hw = Some i \<longrightarrow> wanted_status hw = st"
    and "db_status (v w) i = Some st" and "sync_hardwares nb hws w = (rs, w')"
  shows "db_status (v w') i = Some st"
  using assms(2-4)
proof (induction hws arbitrary: w rs)
  case Nil
  then show ?case by simp
next
  case (Cons hw hws)
  from Cons.prems(3) obtain r w1 rs' where r: "sync_hardware nb hw w = (r, w1)"
    and rs': "sync_hardwares nb hws w1 = (rs', w')" by (rule sync_hardwares_ConsE)
  from Cons.prems(1,2) have "db_status (v w1) i = Some st"
    by (intro sync_hardware_keeps [OF assms(1) _ _ r]) auto
  with Cons.prems(1) rs' show ?case by (intro Cons.IH) auto
qed

text \<open>A result without error: the device has the wanted status when the loop is done.\<close>

definition synced_to :: "netbox_db \<Rightarrow> hardware \<Rightarrow> tink_sync_result \<Rightarrow> bool" where
  "synced_to db hw r \<longleftrightarrow>
     (tr_Error r = [] \<longrightarrow>
        label_id hw = Some (tr_DeviceID r) \<and>
        db_status db (tr_DeviceID r) = Some (wanted_status hw))"

lemma sync_hardware_synced:
  assumes "device_laws nb v" and "handled hw" and "sync_hardware nb hw w = (r, w')"
  shows "\<exists>r'. r = Some r' \<and> synced_to (v w') hw r'"
  using assms(2)
  by (cases rule: sync_hardware_handled [where nb = nb and w = w])
    (use assms in \<open>auto simp: synced_to_def dest: sds.applied [OF assms(1)] sds.failed [OF assms(1)]\<close>)

lemma sync_hardwares_synced:
  assumes "device_laws nb v" and "consistent hws" and "sync_hardwares nb hws w = (rs, w')"
  shows "list_all2 (synced_to (v w')) (filter handled hws) rs"
  using assms(2,3)
proof (induction hws arbitrary: w rs)
  case Nil
  then show ?case by simp
next
  case (Cons hw hws)
  from Cons.prems(2) obtain r w1 rs' where r: "sync_hardware nb hw w = (r, w1)"
    and rs': "sync_hardwares nb hws w1 = (rs', w')"
    and rs: "rs = (case r of None \<Rightarrow> rs' | Some x \<Rightarrow> x # rs')" by (rule sync_hardwares_ConsE)
  from Cons.prems(1) have "consistent hws" by (auto simp: consistent_def)
  with rs' have ih: "list_all2 (synced_to (v w')) (filter handled hws) rs'"
    by (intro Cons.IH) auto
  show ?case
  proof (cases "handled hw")
    case False
    with r rs ih show ?thesis by (simp add: sync_hardware_unhandled)
  next
    case True
    from sync_hardware_synced [OF assms(1) True r] obtain x where
      x: "r = Some x" "synced_to (v w1) hw x" by blast
    have "synced_to (v w') hw x"
      unfolding synced_to_def
    proof (intro impI conjI)
      assume e: "tr_Error x = []"
      with x(2) show id: "label_id hw = Some (tr_DeviceID x)" by (simp add: synced_to_def)
      from Cons.prems(1) True id have "\<forall>h \<in> set hws. handled h \<longrightarrow>
          label_id h = Some (tr_DeviceID x) \<longrightarrow> wanted_status h = wanted_status hw"
        unfolding consistent_def by (metis list.set_intros option.distinct(1))
      from sync_hardwares_keeps [OF assms(1) this _ rs'] x(2) e
      show "db_status (v w') (tr_DeviceID x) = Some (wanted_status hw)"
        by (simp add: synced_to_def)
    qed
    with True rs x(1) ih show ?thesis by simp
  qed
qed

text \<open>Where every named device has its wanted status, the loop writes nothing.\<close>

definition settled :: "netbox_db \<Rightarrow> hardware list \<Rightarrow> bool" where
  "settled db hws \<longleftrightarrow>
     (\<forall>hw \<in> set hws. handled hw \<longrightarrow>
        (\<forall>i. label_id hw = Some i \<longrightarrow> db_status db i = Some (wanted_status hw)))"

lemma sync_hardware_quiet:
  assumes "device_laws nb v" and "settled (v w) [hw]" and "sync_hardware nb hw w = (r, w')"
  shows "v w' = v w" and "\<And>x. r = Some x \<Longrightarrow> \<not> tr_Updated x"
proof -
  have "v w' = v w \<and> (\<forall>x. r = Some x \<longrightarrow> \<not> tr_Updated x)"
  proof (cases "handled hw")
    case False
    with assms(3) show ?thesis by (simp add: sync_hardware_unhandled)
  next
    case True
    then show ?thesis
    proof (cases rule: sync_hardware_handled [where nb = nb and w = w])
      case (bad_label e)
      with assms(3) show ?thesis by auto
    next
      case (failed i e w2)
      with assms(3) sds.failed [OF assms(1) failed(2)] show ?thesis by auto
    next
      case (written i b w2)
      with True assms(2) have "db_status (v w) i = Some (wanted_status hw)"
        by (simp add: settled_def)
      from sds.quiet [OF assms(1) this written(2)] assms(3) written(3) show ?thesis by auto
    qed
  qed
  then show "v w' = v w" and "\<And>x. r = Some x \<Longrightarrow> \<not> tr_Updated x" by auto
qed

lemma sync_hardwares_quiet:
  assumes "device_laws nb v" and "settled (v w) hws" and "sync_hardwares nb hws w = (rs, w')"
  shows "v w' = v w \<and> (\<forall>r \<in> set rs. \<not> tr_Updated r)"
  using assms(2,3)
proof (induction hws arbitrary: w rs)
  case Nil
  then show ?case by simp
next
  case (Cons hw hws)
  from Cons.prems(2) obtain r w1 rs' where r: "sync_hardware nb hw w = (r, w1)"
    and rs': "sync_hardwares nb hws w1 = (rs', w')"
    and rs: "rs = (case r of None \<Rightarrow> rs' | Some x \<Rightarrow> x # rs')" by (rule sync_hardwares_ConsE)
  from Cons.prems(1) have "settled (v w) [hw]" and "settled (v w) hws"
    by (simp_all add: settled_def)
  note q = sync_hardware_quiet [OF assms(1) \<open>settled (v w) [hw]\<close> r]
  from q(1) \<open>settled (v w) hws\<close> have "settled (v w1) hws" by simp
  from Cons.IH [OF this rs'] q rs show ?case
    by (auto split: option.splits)
qed

lemma synced_settled:
  assumes "list_all2 (synced_to db) (filter handled hws) rs" and "\<forall>r \<in> set rs. tr_Error r = []"
  shows "settled db hws"
  unfolding settled_def
proof (intro ballI impI allI)
  fix hw i
  assume "hw \<in> set hws" "handled hw" "label_id hw = Some i"
  then have "hw \<in> set (filter handled hws)" by simp
  with list_all2_in_set1 [OF assms(1)] obtain r where "r \<in> set rs" "synced_to db hw r"
    by blast
  with assms(2) \<open>label_id hw = Some i\<close> show "db_status db i = Some (wanted_status hw)"
    by (auto simp: synced_to_def)
qed

section \<open>Sample objects\<close>

definition provisioned_hw :: hardware where
  "provisioned_hw = blank_hardware\<lparr>hw_Name := ''node7'', hw_Namespace := ''prod'',
     hw_Labels := [(''netbox-device-id'', ''7'')],
     hw_Annotations := [(''v1alpha1.tinkerbell.org/provisioned'', ''true'')]\<rparr>"

definition fresh_hw :: hardware where
  "fresh_hw = blank_hardware\<lparr>hw_Name := ''node8'', hw_Namespace := ''prod'',
     hw_Labels := [(''netbox-device-id'', ''8'')]\<rparr>"

definition two_devices :: mem where
  "two_devices = empty_mem\<lparr>m_devices := [blank_device\<lparr>dev_Id := 7, dev_StatusValue := ''staged''\<rparr>,
     blank_device\<lparr>dev_Id := 8, dev_StatusValue := ''active''\<rparr>],
     m_hardware := [provisioned_hw, fresh_hw]\<rparr>"

lemmas sample_defs = provisioned_hw_def fresh_hw_def two_devices_def blank_hardware_def blank_device_def empty_mem_def

lemma sample_labels:
  "label_id provisioned_hw = Some 7" "label_id fresh_hw = Some 8"
  by (code_simp, code_simp)

lemma sample_handled:
  "handled provisioned_hw" "handled fresh_hw" "isProvisioned provisioned_hw" "\<not> isProvisioned fresh_hw"
  by (simp_all add: handled_def isProvisioned_def isUnprovisioned_def annotationProvisioned_def sample_defs)

lemma sample_consistent: "consistent [provisioned_hw, fresh_hw]"
  by (simp add: consistent_def sample_labels)

lemma sample_pass:
  "fst (sync_hardwares mem_netbox [provisioned_hw, fresh_hw] two_devices) =
     [\<lparr>tr_Hostname = ''node7'', tr_DeviceID = 7, tr_Updated = True, tr_Error = []\<rparr>,
      \<lparr>tr_Hostname = ''node8'', tr_DeviceID = 8, tr_Updated = True, tr_Error = []\<rparr>]"
  by code_simp

section \<open>Properties\<close>





text \<open>
  C19. \<open>SyncStatus\<close> touches no device that no Hardware object of the namespace names, and it
  fails as a whole only when the listing of the Hardware objects fails; otherwise every handled
  object of the listing has its result, even if every call to NetBox fails.
\<close>
theorem sync_status_frame_and_progress:
  assumes "device_laws nb v" and "HardwareList k ns w = (hws, w1)" and "v w1 = v w"
    and "Tink_SyncStatus k ns nb w = (out, w')"
  shows "(isl out \<longleftrightarrow> isl hws) \<and>
         (\<forall>items rs. hws = Inr items \<longrightarrow> out = Inr rs \<longrightarrow>
            map tr_Hostname rs = map hw_Name (filter handled items)) \<and>
         (\<forall>j. (\<forall>items. hws = Inr items \<longrightarrow> Some j \<notin> label_id ` set items) \<longrightarrow>
            db_status (v w') j = db_status (v w) j)"
proof (cases hws)
  case (Inl e)
  with assms show ?thesis by (auto simp: Tink_SyncStatus_def)
next
  case (Inr items)
  obtain rs w2 where rs: "sync_hardwares nb items w1 = (rs, w2)" by fastforce
  from rs Inr assms(2,4) have "out = Inr rs" and "w' = w2"
    by (auto simp: Tink_SyncStatus_def split: if_splits)
  moreover have "map tr_Hostname rs = map hw_Name (filter handled items)"
    using sync_hardwares_hostnames [of nb items w1] rs by simp
  moreover have "db_status (v w2) j = db_status (v w) j" if "Some j \<notin> label_id ` set items" for j
    using sync_hardwares_frame [OF assms(1) _ rs, of j] that assms(3)
    by (metis image_eqI)
  ultimately show ?thesis using Inr by simp
qed

theorem sync_status_frame_and_progress_witness:
  "\<not> isl (fst (Tink_SyncStatus mem_kube ''prod'' mem_netbox two_devices)) \<and>
   db_status (mem_view (snd (Tink_SyncStatus mem_kube ''prod'' mem_netbox two_devices))) 9 =
     db_status (mem_view two_devices) 9"
proof -
  have list: "HardwareList mem_kube ''prod'' two_devices = (Inr [provisioned_hw, fresh_hw], two_devices)"
    by (simp add: mem_kube_def sample_defs)
  show ?thesis
    using sync_status_frame_and_progress [OF mem_device_laws list refl prod.collapse [symmetric]]
    by (auto simp: sample_labels)
qed

end
