(* ===== verification/Tinkerbell_Ops.thy ===== *)
theory Tinkerbell_Ops
  imports Memory_World
begin

text \<open>
  \<open>pkg/tinkerbell/show.go\<close>, \<open>pxe.go\<close> and \<open>clean.go\<close>: reading Hardware objects, and the
  commands that patch one object or all the objects of a namespace. The three patching commands
  have one shape, which the locale \<open>hardware_patcher\<close> captures.
\<close>

section \<open>Reading (show.go)\<close>

definition GetHardwares :: "('w, 'o) kube \<Rightarrow> string \<Rightarrow> string \<Rightarrow> ('w, hardware list) call" where
  "GetHardwares k namespace hostname w =
     (if hostname \<noteq> [] then
        (case HardwareGet k namespace hostname w of
           (Inl err, w) \<Rightarrow>
             (Inl (Wrapf (''cannot get Hardware '' @ namespace @ ''/'' @ hostname @ '': '') err), w)
         | (Inr hw, w) \<Rightarrow> (Inr [hw], w))
      else
        (case HardwareList k namespace w of
           (Inl err, w) \<Rightarrow>
             (Inl (Wrapf (''cannot list Hardware in namespace '' @ namespace @ '': '') err), w)
         | (Inr items, w) \<Rightarrow> (Inr items, w)))"

definition tinkerbellMachineGVK :: gvk where
  "tinkerbellMachineGVK = \<lparr>gvk_Group = ''infrastructure.cluster.x-k8s.io'', gvk_Version = ''v1beta1'',
     gvk_Kind = ''TinkerbellMachine''\<rparr>"

definition GetClusterName :: "('w, 'o) kube \<Rightarrow> hardware \<Rightarrow> 'w \<Rightarrow> string \<times> 'w" where
  "GetClusterName k hw w =
     (let ownerName = mget (hw_Labels hw) ''v1alpha1.tinkerbell.org/ownerName'';
          ownerNamespace = mget (hw_Labels hw) ''v1alpha1.tinkerbell.org/ownerNamespace''
      in if ownerName = [] \<or> ownerNamespace = [] then ([], w)
         else (case ObjectGet k tinkerbellMachineGVK ownerNamespace ownerName w of
                 (Inl err, w) \<Rightarrow> ([], w)
               | (Inr tinkMachine, w) \<Rightarrow>
                   (mget (ObjectLabels k tinkMachine) ''cluster.x-k8s.io/cluster-name'', w)))"

section \<open>Allowing PXE (pxe.go)\<close>

definition set_allow_pxe :: "hw_interface \<Rightarrow> hw_interface" where
  "set_allow_pxe i =
     (let nb = (case hwi_Netboot i of
                  None \<Rightarrow> \<lparr>AllowPXE_flag = None, AllowWorkflow_flag = None\<rparr>
                | Some nb \<Rightarrow> nb)
      in i\<lparr>hwi_Netboot := Some (nb\<lparr>AllowPXE_flag := Some True\<rparr>)\<rparr>)"

definition allow_pxe :: "hardware \<Rightarrow> hardware" where
  "allow_pxe hw = hw\<lparr>hw_Interfaces := map set_allow_pxe (hw_Interfaces hw)\<rparr>"

definition patchAllowPXE :: "('w, 'o) kube \<Rightarrow> hardware \<Rightarrow> ('w, unit) call" where
  "patchAllowPXE k hw w =
     (case HardwarePatch k hw (allow_pxe hw) w of
        (Inl err, w) \<Rightarrow>
          (Inl (Wrapf (''cannot patch Hardware '' @ hw_Namespace hw @ ''/'' @ hw_Name hw @ '': '') err), w)
      | (Inr _, w) \<Rightarrow> (Inr (), w))"

fun allow_pxe_items :: "('w, 'o) kube \<Rightarrow> hardware list \<Rightarrow> ('w, unit) call" where
  "allow_pxe_items k [] w = (Inr (), w)"
| "allow_pxe_items k (hw # items) w =
     (case patchAllowPXE k hw w of
        (Inl err, w) \<Rightarrow> (Inl (Wrapf (''failed to patch Hardware '' @ hw_Name hw @ '': '') err), w)
      | (Inr _, w) \<Rightarrow> allow_pxe_items k items w)"

definition AllowPXE :: "('w, 'o) kube \<Rightarrow> string \<Rightarrow> string \<Rightarrow> ('w, unit) call" where
  "AllowPXE k namespace hostname w =
     (if hostname \<noteq> [] then
        (case HardwareGet k namespace hostname w of
           (Inl err, w) \<Rightarrow>
             (Inl (Wrapf (''cannot get Hardware '' @ namespace @ ''/'' @ hostname @ '': '') err), w)
         | (Inr hw, w) \<Rightarrow> patchAllowPXE k hw w)
      else
        (case HardwareList k namespace w of
           (Inl err, w) \<Rightarrow>
             (Inl (Wrapf (''cannot list Hardware in namespace '' @ namespace @ '': '') err), w)
         | (Inr items, w) \<Rightarrow> if items = [] then (Inr (), w) else allow_pxe_items k items w))"

section \<open>Cleaning fields (clean.go)\<close>

definition patchField :: "(hardware \<Rightarrow> hardware) \<Rightarrow> ('w, 'o) kube \<Rightarrow> hardware \<Rightarrow> ('w, unit) call" where
  "patchField mutate k hw w =
     (case HardwarePatch k hw (mutate hw) w of
        (Inl err, w) \<Rightarrow>
          (Inl (Wrapf (''cannot patch Hardware '' @ hw_Namespace (mutate hw) @ ''/'' @
                       hw_Name (mutate hw) @ '': '') err), w)
      | (Inr _, w) \<Rightarrow> (Inr (), w))"

fun clean_items :: "(hardware \<Rightarrow> hardware) \<Rightarrow> ('w, 'o) kube \<Rightarrow> hardware list \<Rightarrow> ('w, unit) call" where
  "clean_items mutate k [] w = (Inr (), w)"
| "clean_items mutate k (hw # items) w =
     (case patchField mutate k hw w of
        (Inl err, w) \<Rightarrow>
          (Inl (Wrapf (''failed to patch Hardware '' @ hw_Name (mutate hw) @ '': '') err), w)
      | (Inr _, w) \<Rightarrow> clean_items mutate k items w)"

definition cleanField ::
  "(hardware \<Rightarrow> hardware) \<Rightarrow> ('w, 'o) kube \<Rightarrow> string \<Rightarrow> string \<Rightarrow> ('w, unit) call" where
  "cleanField mutate k namespace hostname w =
     (if hostname \<noteq> [] then
        (case HardwareGet k namespace hostname w of
           (Inl err, w) \<Rightarrow>
             (Inl (Wrapf (''cannot get Hardware '' @ namespace @ ''/'' @ hostname @ '': '') err), w)
         | (Inr hw, w) \<Rightarrow> patchField mutate k hw w)
      else
        (case HardwareList k namespace w of
           (Inl err, w) \<Rightarrow>
             (Inl (Wrapf (''cannot list Hardware in namespace '' @ namespace @ '': '') err), w)
         | (Inr items, w) \<Rightarrow> if items = [] then (Inr (), w) else clean_items mutate k items w))"

definition CleanUserData :: "('w, 'o) kube \<Rightarrow> string \<Rightarrow> string \<Rightarrow> ('w, unit) call" where
  "CleanUserData = cleanField (\<lambda>hw. hw\<lparr>hw_UserData := None\<rparr>)"

definition CleanVendorData :: "('w, 'o) kube \<Rightarrow> string \<Rightarrow> string \<Rightarrow> ('w, unit) call" where
  "CleanVendorData = cleanField (\<lambda>hw. hw\<lparr>hw_VendorData := None\<rparr>)"

section \<open>The contract of a patching command\<close>

text \<open>
  What such a command means for the objects of the cluster: \<open>mutate\<close> applied to one object, or
  to all the objects of a namespace.
\<close>

definition mutate_one :: "(hardware \<Rightarrow> hardware) \<Rightarrow> string \<times> string \<Rightarrow> hw_store \<Rightarrow> hw_store" where
  "mutate_one f key s = s(key := map_option f (s key))"

definition mutate_namespace :: "(hardware \<Rightarrow> hardware) \<Rightarrow> string \<Rightarrow> hw_store \<Rightarrow> hw_store" where
  "mutate_namespace f ns s = (\<lambda>key. if fst key = ns then map_option f (s key) else s key)"

locale hardware_patcher =
  fixes mutate :: "hardware \<Rightarrow> hardware"
    and patch_one :: "('w, 'o) kube \<Rightarrow> hardware \<Rightarrow> ('w, unit) call"
    and patch_items :: "('w, 'o) kube \<Rightarrow> hardware list \<Rightarrow> ('w, unit) call"
    and visit :: "('w, 'o) kube \<Rightarrow> string \<Rightarrow> string \<Rightarrow> ('w, unit) call"
  assumes mutate_key: "hw_key (mutate h) = hw_key h"
    and patch_one_ok: "patch_one k h w = (Inr u, w') \<Longrightarrow> \<exists>h'. HardwarePatch k h (mutate h) w = (Inr h', w')"
    and patch_one_err: "patch_one k h w = (Inl e, w') \<Longrightarrow> \<exists>e'. HardwarePatch k h (mutate h) w = (Inl e', w')"
    and items_Nil: "patch_items k [] w = (Inr (), w)"
    and items_Cons: "patch_items k (h # hs) w = (r, w') \<Longrightarrow>
      (\<exists>e e'. patch_one k h w = (Inl e, w') \<and> r = Inl e') \<or>
      (\<exists>u w1. patch_one k h w = (Inr u, w1) \<and> patch_items k hs w1 = (r, w'))"
    and visit_one: "host \<noteq> [] \<Longrightarrow> visit k ns host w = (r, w') \<Longrightarrow>
      (\<exists>e e'. HardwareGet k ns host w = (Inl e, w') \<and> r = Inl e') \<or>
      (\<exists>h w1. HardwareGet k ns host w = (Inr h, w1) \<and> patch_one k h w1 = (r, w'))"
    and visit_all: "visit k ns [] w = (r, w') \<Longrightarrow>
      (\<exists>e e'. HardwareList k ns w = (Inl e, w') \<and> r = Inl e') \<or>
      (\<exists>hs w1. HardwareList k ns w = (Inr hs, w1) \<and> patch_items k hs w1 = (r, w'))"
begin

lemma patch_one_store:
  assumes "hardware_laws k hv" and "hv w (hw_key h) = Some h" and "patch_one k h w = (r, w')"
  shows "hv w' = (if isl r then hv w else mutate_one mutate (hw_key h) (hv w))"
proof (cases r)
  case (Inl e)
  with assms(3) obtain e' where "HardwarePatch k h (mutate h) w = (Inl e', w')"
    using patch_one_err by blast
  with patch_lawD(2) [OF assms(1)] Inl show ?thesis by simp
next
  case (Inr u)
  with assms(3) obtain h' where "HardwarePatch k h (mutate h) w = (Inr h', w')"
    using patch_one_ok by blast
  from patch_lawD(1) [OF assms(1) this mutate_key assms(2)] Inr assms(2) show ?thesis
    by (simp add: mutate_one_def)
qed

text \<open>The loop applies \<open>mutate\<close> to an initial part of the list: to all of it on success.\<close>

lemma patch_items_store:
  assumes "hardware_laws k hv" and "distinct (map hw_key hs)"
    and "\<forall>h \<in> set hs. hv w (hw_key h) = Some h" and "patch_items k hs w = (r, w')"
  shows "\<exists>n \<le> length hs. (\<not> isl r \<longrightarrow> n = length hs) \<and>
    hv w' = (\<lambda>key. if key \<in> hw_key ` set (take n hs) then map_option mutate (hv w key) else hv w key)"
  using assms(2-4)
proof (induction hs arbitrary: w)
  case Nil
  then show ?case by (auto simp: items_Nil)
next
  case (Cons h hs)
  from items_Cons [OF Cons.prems(3)] consider
    (stop) e e' where "patch_one k h w = (Inl e, w')" "r = Inl e'" |
    (go) u w1 where "patch_one k h w = (Inr u, w1)" "patch_items k hs w1 = (r, w')" by blast
  then show ?case
  proof cases
    case stop
    from patch_one_store [OF assms(1) _ stop(1)] Cons.prems(2) have "hv w' = hv w" by simp
    with stop(2) show ?thesis by (intro exI [of _ 0]) auto
  next
    case go
    from patch_one_store [OF assms(1) _ go(1)] Cons.prems(2)
    have w1: "hv w1 = mutate_one mutate (hw_key h) (hv w)" by simp
    have "\<forall>h' \<in> set hs. hv w1 (hw_key h') = Some h'"
    proof
      fix h'
      assume h': "h' \<in> set hs"
      then have "hw_key h' \<in> hw_key ` set hs" by (rule imageI)
      moreover from Cons.prems(1) have "hw_key h \<notin> hw_key ` set hs"
        by (simp only: list.map distinct.simps list.set_map not_False_eq_True)
      ultimately have "hw_key h' \<noteq> hw_key h" by (elim contrapos_nn) (simp only:)
      then have "hv w1 (hw_key h') = hv w (hw_key h')" unfolding w1 mutate_one_def by (rule fun_upd_other)
      moreover from h' Cons.prems(2) have "hv w (hw_key h') = Some h'" by simp
      ultimately show "hv w1 (hw_key h') = Some h'" by (simp only:)
    qed
    moreover from Cons.prems(1) have "distinct (map hw_key hs)" by simp
    ultimately obtain n where n: "n \<le> length hs" "\<not> isl r \<longrightarrow> n = length hs"
      "hv w' = (\<lambda>key. if key \<in> hw_key ` set (take n hs) then map_option mutate (hv w1 key) else hv w1 key)"
      using Cons.IH [OF _ _ go(2)] by blast
    have "hw_key h \<notin> hw_key ` set (take n hs)"
      using Cons.prems(1) by (auto dest: in_set_takeD)
    with n have "hv w' = (\<lambda>key. if key \<in> hw_key ` set (take (Suc n) (h # hs))
        then map_option mutate (hv w key) else hv w key)"
      using w1 by (auto simp: mutate_one_def fun_eq_iff)
    with n(1,2) show ?thesis by (intro exI [of _ "Suc n"]) simp
  qed
qed

text \<open>The whole command on a namespace.\<close>

lemma visit_namespace:
  assumes "hardware_laws k hv" and "visit k ns [] w = (Inr u, w')"
  shows "hv w' = mutate_namespace mutate ns (hv w)"
proof -
  from visit_all [OF assms(2)] obtain hs w1 where
    list: "HardwareList k ns w = (Inr hs, w1)" and items: "patch_items k hs w1 = (Inr u, w')" by auto
  note L = list_lawD [OF assms(1)]
  from L(1) [OF list] have w1: "hv w1 = hv w" .
  from L(3) [OF list] have mem: "h \<in> set hs \<longleftrightarrow> hw_Namespace h = ns \<and> hv w (hw_key h) = Some h" for h .
  from mem w1 have "\<forall>h \<in> set hs. hv w1 (hw_key h) = Some h" by metis
  from patch_items_store [OF assms(1) L(2) [OF list] this items] w1
  have "hv w' = (\<lambda>key. if key \<in> hw_key ` set hs then map_option mutate (hv w key) else hv w key)"
    by auto
  moreover have "hv w key = None" if "fst key = ns" "key \<notin> hw_key ` set hs" for key
  proof (rule ccontr)
    assume "hv w key \<noteq> None"
    then obtain h where h: "hv w key = Some h" by auto
    with hardware_laws_keyed [OF assms(1) h] that(1) have "h \<in> set hs" by (auto simp: mem)
    with hardware_laws_keyed [OF assms(1) h] that(2) show False by blast
  qed
  moreover have "fst key = ns" if "key \<in> hw_key ` set hs" for key
    using that mem by auto
  ultimately show ?thesis by (force simp: mutate_namespace_def fun_eq_iff)
qed

lemma visit_hostname:
  assumes "hardware_laws k hv" and "host \<noteq> []" and "visit k ns host w = (Inr u, w')"
  shows "hv w (ns, host) \<noteq> None" and "hv w' = mutate_one mutate (ns, host) (hv w)"
proof -
  from visit_one [OF assms(2,3)] obtain h w1 where
    get: "HardwareGet k ns host w = (Inr h, w1)" and one: "patch_one k h w1 = (Inr u, w')" by auto
  from get_lawD(1,2) [OF assms(1)] get have w1: "hv w1 = hv w" and h: "hv w (ns, host) = Some h"
    by blast+
  with hardware_laws_keyed [OF assms(1) h] patch_one_store [OF assms(1) _ one]
  show "hv w (ns, host) \<noteq> None" and "hv w' = mutate_one mutate (ns, host) (hv w)" by simp_all
qed

text \<open>Whatever happens, every object is as it was or mutated, and other namespaces are as they were.\<close>

lemma visit_any:
  assumes "hardware_laws k hv" and "visit k ns host w = (r, w')"
  shows "hv w' key = hv w key \<or> fst key = ns \<and> hv w' key = map_option mutate (hv w key)"
proof (cases "host = []")
  case False
  from visit_one [OF False assms(2)] show ?thesis
  proof
    assume "\<exists>e e'. HardwareGet k ns host w = (Inl e, w') \<and> r = Inl e'"
    with get_lawD(1) [OF assms(1)] show ?thesis by fastforce
  next
    assume "\<exists>h w1. HardwareGet k ns host w = (Inr h, w1) \<and> patch_one k h w1 = (r, w')"
    then obtain h w1 where get: "HardwareGet k ns host w = (Inr h, w1)"
      and one: "patch_one k h w1 = (r, w')" by blast
    from get_lawD(1,2) [OF assms(1)] get have w1: "hv w1 = hv w" and h: "hv w (ns, host) = Some h"
      by blast+
    with hardware_laws_keyed [OF assms(1) h] patch_one_store [OF assms(1) _ one]
    show ?thesis by (auto simp: mutate_one_def)
  qed
next
  case True
  with visit_all assms(2) consider
    (err) e where "HardwareList k ns w = (Inl e, w')" |
    (items) hs w1 where "HardwareList k ns w = (Inr hs, w1)" "patch_items k hs w1 = (r, w')" by blast
  then show ?thesis
  proof cases
    case err
    with list_lawD(1) [OF assms(1)] show ?thesis by fastforce
  next
    case items
    note L = list_lawD [OF assms(1)]
    from L(1) [OF items(1)] have w1: "hv w1 = hv w" .
    from L(3) [OF items(1)] have mem: "h \<in> set hs \<longleftrightarrow> hw_Namespace h = ns \<and> hv w (hw_key h) = Some h" for h .
    from mem w1 have "\<forall>h \<in> set hs. hv w1 (hw_key h) = Some h" by metis
    from patch_items_store [OF assms(1) L(2) [OF items(1)] this items(2)] obtain n where
      "hv w' = (\<lambda>key. if key \<in> hw_key ` set (take n hs) then map_option mutate (hv w key) else hv w key)"
      unfolding w1 by blast
    moreover have "fst key = ns" if "key \<in> hw_key ` set (take n hs)"
      using that mem by (auto dest: in_set_takeD)
    ultimately show ?thesis by auto
  qed
qed

end

section \<open>The three commands are patching commands\<close>

lemma allow_pxe_key [simp]: "hw_Namespace (allow_pxe h) = hw_Namespace h" "hw_Name (allow_pxe h) = hw_Name h"
  by (simp_all add: allow_pxe_def)

interpretation pxe: hardware_patcher allow_pxe patchAllowPXE allow_pxe_items AllowPXE
proof (unfold_locales, goal_cases)
  case (2 k h w u w')
  then show ?case by (auto simp: patchAllowPXE_def split: prod.splits sum.splits)
next
  case (3 k h w e w')
  then show ?case by (auto simp: patchAllowPXE_def split: prod.splits sum.splits)
next
  case (5 k h hs w r w')
  then show ?case by (cases "patchAllowPXE k h w" rule: call_cases) auto
next
  case (6 host k ns w r w')
  then show ?case by (cases "HardwareGet k ns host w" rule: call_cases) (auto simp: AllowPXE_def)
next
  case (7 k ns w r w')
  then show ?case by (cases "HardwareList k ns w" rule: call_cases) (auto simp: AllowPXE_def split: if_splits)
qed simp_all

lemma clean_patcher:
  assumes "\<And>h. hw_key (f h) = hw_key h"
  shows "hardware_patcher f (patchField f) (clean_items f) (cleanField f)"
proof (unfold_locales, goal_cases)
  case (1 h)
  show ?case by (rule assms)
next
  case (2 k h w u w')
  then show ?case by (auto simp: patchField_def split: prod.splits sum.splits)
next
  case (3 k h w e w')
  then show ?case by (auto simp: patchField_def split: prod.splits sum.splits)
next
  case (5 k h hs w r w')
  then show ?case by (cases "patchField f k h w" rule: call_cases) auto
next
  case (6 host k ns w r w')
  then show ?case by (cases "HardwareGet k ns host w" rule: call_cases) (auto simp: cleanField_def)
next
  case (7 k ns w r w')
  then show ?case by (cases "HardwareList k ns w" rule: call_cases) (auto simp: cleanField_def split: if_splits)
qed simp_all

interpretation userdata: hardware_patcher "\<lambda>hw. hw\<lparr>hw_UserData := None\<rparr>"
  "patchField (\<lambda>hw. hw\<lparr>hw_UserData := None\<rparr>)" "clean_items (\<lambda>hw. hw\<lparr>hw_UserData := None\<rparr>)" CleanUserData
  unfolding CleanUserData_def by (rule clean_patcher) simp

interpretation vendordata: hardware_patcher "\<lambda>hw. hw\<lparr>hw_VendorData := None\<rparr>"
  "patchField (\<lambda>hw. hw\<lparr>hw_VendorData := None\<rparr>)" "clean_items (\<lambda>hw. hw\<lparr>hw_VendorData := None\<rparr>)" CleanVendorData
  unfolding CleanVendorData_def by (rule clean_patcher) simp

section \<open>Properties\<close>

definition pxe_allowed :: "hw_interface \<Rightarrow> bool" where
  "pxe_allowed i \<longleftrightarrow> (\<exists>nb. hwi_Netboot i = Some nb \<and> AllowPXE_flag nb = Some True)"

definition workflow_setting :: "hw_interface \<Rightarrow> bool option" where
  "workflow_setting i = Option.bind (hwi_Netboot i) AllowWorkflow_flag"

lemma set_allow_pxe_facts [simp]:
  "pxe_allowed (set_allow_pxe i)"
  "workflow_setting (set_allow_pxe i) = workflow_setting i"
  "hwi_DHCP (set_allow_pxe i) = hwi_DHCP i"
  "hwi_DisableDHCP (set_allow_pxe i) = hwi_DisableDHCP i"
  by (simp_all add: pxe_allowed_def workflow_setting_def set_allow_pxe_def Let_def split: option.splits)

definition lab_hw :: hardware where
  "lab_hw = blank_hardware\<lparr>hw_Name := ''node1'', hw_Namespace := ''lab'', hw_VendorData := Some ''{}'',
     hw_Interfaces := [\<lparr>hwi_DHCP = None, hwi_DisableDHCP = False, hwi_Netboot = None\<rparr>]\<rparr>"

definition lab :: mem where
  "lab = empty_mem\<lparr>m_hardware := [lab_hw, blank_hardware\<lparr>hw_Name := ''node2'', hw_Namespace := ''prod''\<rparr>]\<rparr>"

lemmas lab_defs = lab_def lab_hw_def blank_hardware_def empty_mem_def

lemma lab_allow_pxe: "fst (AllowPXE mem_kube ''lab'' [] lab) = Inr ()"
  by code_simp

lemma lab_clean: "fst (CleanVendorData mem_kube ''lab'' ''node1'' lab) = Inr ()"
  by code_simp





text \<open>
  \<open>CleanVendorData\<close> on one host, when it succeeds, clears the vendor data of that object
  and of no other, and leaves its user data and every other field alone.
\<close>
lemma clean_vendordata_host:
  assumes "hardware_laws k hv" and "host \<noteq> []" and "CleanVendorData k ns host w = (Inr u, w')"
  shows "\<exists>h. hv w (ns, host) = Some h \<and> hv w' = (hv w)((ns, host) \<mapsto> h\<lparr>hw_VendorData := None\<rparr>)"
  using vendordata.visit_hostname [OF assms] by (auto simp: mutate_one_def)

end
