(* ===== verification/Tinkerbell_Hardware.thy ===== *)
theory Tinkerbell_Hardware
  imports Butane Tinkerbell_Status Go_Net "HOL-Library.Sublist"
begin

text \<open>
  \<open>pkg/tinkerbell/hardware.go\<close>: Tinkerbell Hardware objects from NetBox devices. The staged
  devices become objects to create, the offline and planned ones objects to prune, and an object
  that already exists is reconciled with the desired one. The labels carry the identity of the
  NetBox device, which the status write-back reads back.
\<close>

section \<open>Addresses\<close>

definition getAddrFromCIDR :: "string \<Rightarrow> string" where
  "getAddrFromCIDR cidr = hd (Split cidr CHR ''/'')"

definition cidrToNetmask :: "string \<Rightarrow> string result" where
  "cidrToNetmask cidr =
     (case ParseCIDR cidr of
        None \<Rightarrow> Inl (Errorf (''invalid CIDR address: '' @ cidr))
      | Some r \<Rightarrow> Inr (mask_string r))"

text \<open>\<open>*interfaceID\<close> panics when the address is assigned to no object.\<close>

definition getMacAddrFromIfaceID :: "'w netbox \<Rightarrow> int64 option \<Rightarrow> ('w, string result) go" where
  "getMacAddrFromIfaceID nb interfaceID w = do {
     i \<leftarrow> interfaceID;
     (case DcimInterfacesRetrieve nb (ucast i) w of
        (Inl err, w) \<Rightarrow> Some (Inl err, w)
      | (Inr iface, w) \<Rightarrow>
          let result = (if if_PrimaryMac iface \<noteq> [] then if_PrimaryMac iface
                        else case if_MacAddresses iface of [] \<Rightarrow> [] | m # _ \<Rightarrow> m)
          in if result = [] then
               Some (Inl (Errorf (''iface '' @ if_Name iface @ '', id '' @ Itoa32 (if_Id iface) @
                 '' does not have any MAC address'')), w)
             else Some (Inr result, w))
   }"

section \<open>Metadata\<close>

record object_meta =
  om_Name :: string
  om_Namespace :: string
  om_Labels :: string_map

definition device_labels :: "device \<Rightarrow> string \<Rightarrow> string_map" where
  "device_labels dev serial =
     (let labels =
        [(''generated-by'', ''machinecfg''),
         (''netbox-device-id'', Itoa32 (dev_Id dev)),
         (''serial'', serial),
         (''model'', dev_DeviceTypeSlug dev),
         (''role'', dev_Role dev),
         (''site'', dev_Site dev),
         (''location'', GetName (dev_Location dev)),
         (''racks'', GetName (dev_Rack dev)),
         (''tenant'', GetName (dev_Tenant dev)),
         (''status'', dev_StatusLabel dev)]
      in case Get (dev_Cluster dev) of
           None \<Rightarrow> labels
         | Some cluster \<Rightarrow> labels @ [(''cluster'', br_Name cluster)])"

text \<open>A nil serial number or name panics.\<close>

definition createMetaFromDevice :: "device \<Rightarrow> object_meta option" where
  "createMetaFromDevice dev = do {
     let namespace = (case Get (dev_Tenant dev) of None \<Rightarrow> ''default'' | Some tenant \<Rightarrow> br_Slug tenant);
     serial \<leftarrow> dev_Serial dev;
     name \<leftarrow> Get (dev_Name dev);
     Some \<lparr>om_Name = name, om_Namespace = namespace, om_Labels = device_labels dev serial\<rparr>
   }"

section \<open>Extraction\<close>

text \<open>
  The MAC address of the interface that the primary address is assigned to, empty when NetBox
  does not list the address.
\<close>

definition primary_mac :: "'w netbox \<Rightarrow> int32 \<Rightarrow> ('w, string result) go" where
  "primary_mac nb ipID w =
     (case IpamIpAddressesList nb (IpAddresses\<lparr>aq_Id := Some [ipID]\<rparr>) w of
        (Inl err, w) \<Rightarrow> Some (Inl (Wrapf (''cannot read the IPv4 address '' @ Itoa32 ipID @ '': '') err), w)
      | (Inr primaryIpAddrResult, w) \<Rightarrow>
          if Count primaryIpAddrResult > 0 then do {
            a \<leftarrow> index0 (Results primaryIpAddrResult);
            (r, w) \<leftarrow> getMacAddrFromIfaceID nb (Get (ip_AssignedObjectId a)) w;
            (case r of
               Inl err \<Rightarrow> Some (Inl err, w)
             | Inr mac \<Rightarrow> Some (Inr (ToLower mac), w))
          }
          else Some (Inr [], w))"

definition hardware_object ::
  "device \<Rightarrow> object_meta \<Rightarrow> string \<Rightarrow> string \<Rightarrow> string \<Rightarrow> string \<Rightarrow> string \<Rightarrow> string list \<Rightarrow> string list \<Rightarrow>
   string list \<Rightarrow> hardware" where
  "hardware_object dev meta name arch mac ipAddress netmask gateways nameServers disks =
     (let ip = \<lparr>hip_Address = ipAddress, hip_Netmask = netmask, hip_Gateway = Join gateways []\<rparr> in
      \<lparr>hw_Name = om_Name meta, hw_Namespace = om_Namespace meta, hw_Labels = om_Labels meta,
       hw_Annotations = [],
       hw_Interfaces = [\<lparr>hwi_DHCP = Some \<lparr>dhcp_MAC = mac, dhcp_Hostname = name,
            dhcp_NameServers = nameServers, dhcp_Arch = arch, dhcp_UEFI = True, dhcp_IP = Some ip\<rparr>,
          hwi_DisableDHCP = False,
          hwi_Netboot = Some \<lparr>AllowPXE_flag = Some True, AllowWorkflow_flag = Some True\<rparr>\<rparr>],
       hw_Metadata = Some \<lparr>md_Hostname = name, md_ID = mac, md_Ips = [ip],
          md_ManufacturerSlug = ToLower (dev_Manufacturer dev)\<rparr>,
       hw_Disks = disks, hw_UserData = None, hw_VendorData = None\<rparr>)"

definition extractHardwareData :: "'w netbox \<Rightarrow> device \<Rightarrow> ('w, hardware result) go" where
  "extractHardwareData nb dev w =
     (if \<not> IsSet (dev_PrimaryIp4 dev) then do {
        name \<leftarrow> Get (dev_Name dev);
        Some (Inl (Errorf (''device '' @ name @ '' does not have any primary IPv4 address'')), w)
      }
      else do {
        ip4 \<leftarrow> Get (dev_PrimaryIp4 dev);
        let ipAddress = getAddrFromCIDR (bip_Address ip4);
        (m, w) \<leftarrow> primary_mac nb (bip_Id ip4) w;
        (case m of
           Inl err \<Rightarrow> Some (Inl err, w)
         | Inr mac \<Rightarrow> do {
             ip \<leftarrow> Get (dev_PrimaryIp dev);
             (gatewaysNetbox, w) \<leftarrow> GetTaggedAddressesFromPrefixOfAddr nb ''gateway'' (bip_Address ip4) w;
             let gateways = FromIPAddressesToStrings gatewaysNetbox;
             (nameServersNetbox, w) \<leftarrow> GetTaggedAddressesFromPrefixOfAddr nb ''dns'' (bip_Address ip4) w;
             let nameServers = FromIPAddressesToStrings nameServersNetbox;
             (case cidrToNetmask (bip_Address ip) of
                Inl err \<Rightarrow> Some (Inl err, w)
              | Inr netmask \<Rightarrow> do {
                  objectMeta \<leftarrow> createMetaFromDevice dev;
                  name \<leftarrow> Get (dev_Name dev);
                  (case GetSystemDiskInventoryItems nb (dev_Id dev) w of
                     (Inl err, w) \<Rightarrow>
                       Some (Inl (Wrapf (''cannot fetch system-disk inventory items for device '' @ name @ '': '') err), w)
                   | (Inr inventoryItems, w) \<Rightarrow>
                       if inventoryItems = [] then
                         Some (Inl (Errorf (''device '' @ name @ '' has no system-disk inventory item'')), w)
                       else do {
                         platform \<leftarrow> Get (dev_Platform dev);
                         Some (Inr (hardware_object dev objectMeta name (br_Name platform) mac ipAddress
                           netmask gateways nameServers (map inv_Name inventoryItems)), w)
                       })
                })
           })
      })"

section \<open>The lists of objects\<close>

text \<open>The Ignition of a new object: a translation error leaves the vendor data unset.\<close>

definition set_vendor_data ::
  "(butane_config \<Rightarrow> string result) \<Rightarrow> 'w netbox \<Rightarrow> string option \<Rightarrow> device \<Rightarrow> hardware \<Rightarrow> ('w, hardware) go" where
  "set_vendor_data ToIgn nb variant dev hw w =
     (case variant of
        None \<Rightarrow> Some (hw, w)
      | Some v \<Rightarrow>
          if v = ''flatcar'' then do {
            (ignition, w) \<leftarrow> CreateFlatcarIgnition ToIgn nb (dev_Id dev) w;
            Some (case ignition of Inl err \<Rightarrow> hw | Inr blob \<Rightarrow> hw\<lparr>hw_VendorData := Some blob\<rparr>, w)
          }
          else if v = ''fcos'' then do {
            (ignition, w) \<leftarrow> CreateFCOSIgnition ToIgn nb (dev_Id dev) w;
            Some (case ignition of Inl err \<Rightarrow> hw | Inr blob \<Rightarrow> hw\<lparr>hw_VendorData := Some blob\<rparr>, w)
          }
          else Some (hw, w))"

text \<open>An extraction error is logged with the device's name, which panics if it is nil, and skipped.\<close>

fun create_hardwares ::
  "(butane_config \<Rightarrow> string result) \<Rightarrow> 'w netbox \<Rightarrow> string option \<Rightarrow> device list \<Rightarrow> ('w, hardware list) go" where
  "create_hardwares ToIgn nb variant [] w = Some ([], w)"
| "create_hardwares ToIgn nb variant (dev # devs) w = do {
     (r, w) \<leftarrow> extractHardwareData nb dev w;
     (case r of
        Inl err \<Rightarrow> do {
          name \<leftarrow> Get (dev_Name dev);
          create_hardwares ToIgn nb variant devs w
        }
      | Inr hw \<Rightarrow> do {
          (hw, w) \<leftarrow> set_vendor_data ToIgn nb variant dev hw w;
          (hws, w) \<leftarrow> create_hardwares ToIgn nb variant devs w;
          Some (hw # hws, w)
        })
   }"

definition CreateHardwares ::
  "(butane_config \<Rightarrow> string result) \<Rightarrow> 'w netbox \<Rightarrow> device_filters \<Rightarrow> string option \<Rightarrow> ('w, hardware list result) go" where
  "CreateHardwares ToIgn nb filters variant w =
     (case GetDevices nb (filters\<lparr>f_Status := [''staged'']\<rparr>) w of
        (Inl err, w) \<Rightarrow> Some (Inl err, w)
      | (Inr devices, w) \<Rightarrow> do {
          (result, w) \<leftarrow> create_hardwares ToIgn nb variant (Results devices) w;
          Some (Inr result, w)
        })"

fun prune_hardwares :: "'w netbox \<Rightarrow> device list \<Rightarrow> ('w, hardware list) go" where
  "prune_hardwares nb [] w = Some ([], w)"
| "prune_hardwares nb (dev # devs) w = do {
     (r, w) \<leftarrow> extractHardwareData nb dev w;
     (case r of
        Inl err \<Rightarrow> do {
          name \<leftarrow> Get (dev_Name dev);
          prune_hardwares nb devs w
        }
      | Inr hw \<Rightarrow> do {
          (hws, w) \<leftarrow> prune_hardwares nb devs w;
          Some (hw # hws, w)
        })
   }"

definition CreateHardwaresToPrune :: "'w netbox \<Rightarrow> device_filters \<Rightarrow> ('w, hardware list result) go" where
  "CreateHardwaresToPrune nb filters w =
     (case GetDevices nb (filters\<lparr>f_Status := [''offline'', ''planned'']\<rparr>) w of
        (Inl err, w) \<Rightarrow> Some (Inl err, w)
      | (Inr devices, w) \<Rightarrow> do {
          (result, w) \<leftarrow> prune_hardwares nb (Results devices) w;
          Some (Inr result, w)
        })"

section \<open>Printing\<close>

text \<open>
  The YAML and the template packages. The execution of a template writes as it goes: it answers the
  text so far, and an error if it had to stop.
\<close>

record 't hardware_printer =
  hw_Marshal :: "hardware \<Rightarrow> string result"
  ParseFiles :: "string \<Rightarrow> string \<Rightarrow> 't result"
  Execute :: "'t \<Rightarrow> hardware \<Rightarrow> string \<times> go_error option"

definition PrintDefaultYAML :: "'t hardware_printer \<Rightarrow> hardware \<Rightarrow> sink \<Rightarrow> (sink \<times> string) list" where
  "PrintDefaultYAML printer hw destination =
     (case hw_Marshal printer hw of Inl err \<Rightarrow> [] | Inr yamlData \<Rightarrow> [(destination, yamlData)])"

definition PrintExternalYAML :: "'t hardware_printer \<Rightarrow> hardware \<Rightarrow> string \<Rightarrow> sink option \<Rightarrow> (sink \<times> string) list" where
  "PrintExternalYAML printer hw templatePath destination =
     (let destination = (case destination of None \<Rightarrow> Stdout | Some d \<Rightarrow> d) in
      case ParseFiles printer templatePath templatePath of
        Inl err \<Rightarrow> []
      | Inr tmpl \<Rightarrow> [(destination, fst (Execute printer tmpl hw))])"

section \<open>Reconciliation\<close>

text \<open>The loop over the desired labels: the labels of the object and whether one was changed.\<close>

fun merge_labels :: "string_map \<Rightarrow> string_map \<Rightarrow> bool \<Rightarrow> string_map \<times> bool" where
  "merge_labels [] labels needsPatch = (labels, needsPatch)"
| "merge_labels ((key, desiredVal) # desired) labels needsPatch =
     (if mget labels key \<noteq> desiredVal then merge_labels desired (AList.update key desiredVal labels) True
      else merge_labels desired labels needsPatch)"

text \<open>The second half of the function: a provisioned object makes its NetBox device active.\<close>

definition status_step :: "hardware \<Rightarrow> hardware \<Rightarrow> 'w netbox \<Rightarrow> ('w, unit) call" where
  "status_step desired existing nb w =
     (if mget (hw_Annotations existing) annotationProvisioned = ''true'' then
        let deviceIDStr = mget (hw_Labels desired) ''netbox-device-id''
        in (case ParseInt32 deviceIDStr of
              None \<Rightarrow>
                (Inl (Wrapf (''invalid netbox-device-id '' @ Quote deviceIDStr @ '' on '' @
                   hw_Namespace existing @ ''/'' @ hw_Name existing @ '': '') (ParseInt_error deviceIDStr)), w)
            | Some deviceID64 \<Rightarrow>
                (case setDeviceStatus nb (word_of_int deviceID64) ''active'' w of
                   (Inl err, w) \<Rightarrow>
                     (Inl (Wrapf (''cannot transition NetBox device '' @ Itoa deviceID64 @ '' to active: '') err), w)
                 | (Inr updated, w) \<Rightarrow> (Inr (), w)))
      else (Inr (), w))"

definition ReconcileExistingHardware ::
  "('w, 'o) kube \<Rightarrow> hardware \<Rightarrow> 'w netbox \<Rightarrow> ('w, unit) call" where
  "ReconcileExistingHardware k desired nb w =
     (case HardwareGet k (hw_Namespace desired) (hw_Name desired) w of
        (Inl err, w) \<Rightarrow>
          (Inl (Wrapf (''cannot get existing Hardware '' @ hw_Namespace desired @ ''/'' @ hw_Name desired @ '': '') err), w)
      | (Inr existing, w) \<Rightarrow>
          let (labels, needsPatch) = merge_labels (hw_Labels desired) (hw_Labels existing) False;
              (patched, w) =
                (if needsPatch then HardwarePatch k existing (existing\<lparr>hw_Labels := labels\<rparr>) w
                 else (Inr existing, w))
          in (case patched of
                Inl err \<Rightarrow>
                  (Inl (Wrapf (''cannot patch labels on '' @ hw_Namespace existing @ ''/'' @ hw_Name existing @ '': '') err), w)
              | Inr existing \<Rightarrow>
                  status_step desired existing nb w))"

section \<open>Facts on labels\<close>

text \<open>What the merge of labels means, for a desired map (no key twice).\<close>

lemma merge_labels_mget:
  "distinct (map fst desired) \<Longrightarrow>
   mget (fst (merge_labels desired labels b)) key = (case map_of desired key of Some v \<Rightarrow> v | None \<Rightarrow> mget labels key)"
proof (induction desired labels b rule: merge_labels.induct)
  case (1 labels b)
  then show ?case by simp
next
  case (2 k v desired labels b)
  then have none: "map_of desired k = None" by (simp add: map_of_eq_None_iff)
  from 2 have ih: "mget labels k \<noteq> v \<Longrightarrow> mget (fst (merge_labels desired (AList.update k v labels) True)) key =
        (case map_of desired key of Some v \<Rightarrow> v | None \<Rightarrow> mget (AList.update k v labels) key)"
    and ih': "mget labels k = v \<Longrightarrow> mget (fst (merge_labels desired labels b)) key =
        (case map_of desired key of Some v \<Rightarrow> v | None \<Rightarrow> mget labels key)" by simp_all
  show ?case
    using ih ih' none by (cases "mget labels k = v") (auto split: option.split)
qed

lemma merge_labels_flag:
  "distinct (map fst desired) \<Longrightarrow>
   snd (merge_labels desired labels b) \<longleftrightarrow> b \<or> (\<exists>(key, v) \<in> set desired. mget labels key \<noteq> v)"
proof (induction desired labels b rule: merge_labels.induct)
  case (1 labels b)
  then show ?case by simp
next
  case (2 k v desired labels b)
  then have "\<forall>(key, u) \<in> set desired. mget (AList.update k v labels) key = mget labels key" by force
  with 2 show ?case by (cases "mget labels k = v") auto
qed

lemma merge_labels_True: "snd (merge_labels desired labels True)"
  by (induction desired labels True rule: merge_labels.induct) auto

lemma merge_labels_same:
  "\<not> snd (merge_labels desired labels b) \<Longrightarrow> fst (merge_labels desired labels b) = labels"
  by (induction desired labels b rule: merge_labels.induct) (auto split: if_split_asm simp: merge_labels_True)

lemma device_labels_distinct: "distinct (map fst (device_labels dev serial))"
  by (simp add: device_labels_def Let_def split: option.split)

lemma device_labels_id: "mget (device_labels dev serial) ''netbox-device-id'' = Itoa32 (dev_Id dev)"
  by (simp add: device_labels_def Let_def split: option.split)

section \<open>Facts on extraction\<close>

lemma extractHardwareData_ok:
  assumes "extractHardwareData nb dev w = Some (Inr hw, w')"
  obtains ip4 mac ip gateways nameServers netmask meta name items platform where
    "dev_PrimaryIp4 dev = Value ip4" and "dev_PrimaryIp dev = Value ip" and "dev_Name dev = Value name"
    and "cidrToNetmask (bip_Address ip) = Inr netmask" and "createMetaFromDevice dev = Some meta"
    and "(items :: inventory_item list) \<noteq> []" and "dev_Platform dev = Value platform"
    and "\<exists>w1 w2. primary_mac nb (bip_Id ip4) w1 = Some (Inr mac, w2)"
    and "hw = hardware_object dev meta name (br_Name platform) mac (getAddrFromCIDR (bip_Address ip4)) netmask
      gateways nameServers (map inv_Name items)"
proof -
  from assms show ?thesis
    unfolding extractHardwareData_def Let_def
    by (auto elim!: bind_SomeE split: if_split_asm sum.split_asm prod.split_asm) (rule that; blast)
qed

lemma createMetaFromDevice_ok:
  assumes "createMetaFromDevice dev = Some meta"
  obtains serial where "dev_Serial dev = Some serial" and "dev_Name dev = Value (om_Name meta)"
    and "om_Namespace meta = (case Get (dev_Tenant dev) of None \<Rightarrow> ''default'' | Some t \<Rightarrow> br_Slug t)"
    and "om_Labels meta = device_labels dev serial"
  using assms by (auto simp: createMetaFromDevice_def Let_def elim!: bind_SomeE)

lemma primary_mac_lower:
  assumes "primary_mac nb i w = Some (Inr mac, w')"
  shows "ToLower mac = mac"
proof (cases "IpamIpAddressesList nb (IpAddresses\<lparr>aq_Id := Some [i]\<rparr>) w" rule: call_cases)
  case (err e w1)
  with assms show ?thesis by (simp add: primary_mac_def)
next
  case (ok p w1)
  with assms show ?thesis
    by (auto simp: primary_mac_def elim!: bind_SomeE split: prod.split_asm sum.split_asm if_split_asm)
qed

text \<open>The object that is built names the device it was built from.\<close>

lemma extracted_identity:
  assumes "extractHardwareData nb dev w = Some (Inr hw, w')"
  shows "label_id hw = Some (dev_Id dev)" and "dev_Name dev = Value (hw_Name hw)"
    and "hw_Namespace hw = (case Get (dev_Tenant dev) of None \<Rightarrow> ''default'' | Some t \<Rightarrow> br_Slug t)"
    and "distinct (map fst (hw_Labels hw))" and "hw_Disks hw \<noteq> []"
    and "hw_UserData hw = None" and "hw_VendorData hw = None" and "hw_Annotations hw = []"
proof -
  from assms obtain ip4 :: brief_ip and mac netmask gws dns meta name and items :: "inventory_item list"
      and platform :: brief where
    meta: "createMetaFromDevice dev = Some meta" and ne: "items \<noteq> []"
    and hw: "hw = hardware_object dev meta name (br_Name platform) mac (getAddrFromCIDR (bip_Address ip4)) netmask
      gws dns (map inv_Name items)" by (rule extractHardwareData_ok)
  from meta obtain serial where m: "dev_Name dev = Value (om_Name meta)"
    "om_Namespace meta = (case Get (dev_Tenant dev) of None \<Rightarrow> ''default'' | Some t \<Rightarrow> br_Slug t)"
    "om_Labels meta = device_labels dev serial" by (rule createMetaFromDevice_ok)
  have id: "mget (hw_Labels hw) ''netbox-device-id'' = Itoa32 (dev_Id dev)"
    using m(3) by (simp add: hw hardware_object_def Let_def device_labels_id)
  show "label_id hw = Some (dev_Id dev)" unfolding label_id_def id by simp
  show "dev_Name dev = Value (hw_Name hw)" using m(1) by (simp add: hw hardware_object_def Let_def)
  show "hw_Namespace hw = (case Get (dev_Tenant dev) of None \<Rightarrow> ''default'' | Some t \<Rightarrow> br_Slug t)"
    using m(2) by (simp add: hw hardware_object_def Let_def)
  show "distinct (map fst (hw_Labels hw))"
    using m(3) device_labels_distinct by (simp add: hw hardware_object_def Let_def)
  show "hw_Disks hw \<noteq> []" "hw_UserData hw = None" "hw_VendorData hw = None" "hw_Annotations hw = []"
    using ne by (simp_all add: hw hardware_object_def Let_def)
qed

text \<open>Pruning builds the same objects as creating without a variant.\<close>

lemma prune_as_create: "prune_hardwares nb devs w = create_hardwares ToIgn nb None devs w"
proof (induction devs arbitrary: w)
  case Nil
  then show ?case by simp
next
  case (Cons d devs)
  show ?case
  proof (cases "extractHardwareData nb d w")
    case None
    then show ?thesis by simp
  next
    case (Some rw)
    obtain r w1 where "rw = (r, w1)" by fastforce
    with Some Cons show ?thesis by (cases r) (auto simp: set_vendor_data_def)
  qed
qed

lemma set_vendor_data_keeps:
  "set_vendor_data ToIgn nb variant dev hw w = Some (hw', w') \<Longrightarrow> \<exists>vd. hw' = hw\<lparr>hw_VendorData := vd\<rparr>"
proof -
  have same: "\<exists>vd. h = h\<lparr>hw_VendorData := vd\<rparr>" for h :: hardware by (intro exI [of _ "hw_VendorData h"]) simp
  show "set_vendor_data ToIgn nb variant dev hw w = Some (hw', w') \<Longrightarrow> ?thesis"
    by (auto simp: set_vendor_data_def same elim!: bind_SomeE split: option.split_asm if_split_asm sum.split_asm)
qed

section \<open>Facts on reconciliation\<close>

text \<open>
  NetBox and Kubernetes are two systems: the calls to one leave the other as it is.
\<close>

definition views_apart ::
  "('w, 'o) kube \<Rightarrow> ('w \<Rightarrow> hw_store) \<Rightarrow> 'w netbox \<Rightarrow> ('w \<Rightarrow> netbox_db) \<Rightarrow> bool" where
  "views_apart k hv nb v \<longleftrightarrow>
     (\<forall>ns n. pure_call v (HardwareGet k ns n)) \<and> (\<forall>b h. pure_call v (HardwarePatch k b h)) \<and>
     (\<forall>i. pure_call hv (DcimDevicesRetrieve nb i)) \<and> (\<forall>i st. pure_call hv (DcimDevicesPatchStatus nb i st))"

lemma views_apartD:
  assumes "views_apart k hv nb v"
  shows "HardwareGet k ns n w = (r, w') \<Longrightarrow> v w' = v w"
    and "HardwarePatch k b h w = (r, w') \<Longrightarrow> v w' = v w"
    and "setDeviceStatus nb i st w = (q, w') \<Longrightarrow> hv w' = hv w"
proof -
  show "HardwareGet k ns n w = (r, w') \<Longrightarrow> v w' = v w" and "HardwarePatch k b h w = (r, w') \<Longrightarrow> v w' = v w"
    using assms unfolding views_apart_def by (blast dest: pure_callD)+
  have pure: "pure_call hv (DcimDevicesRetrieve nb i)" "pure_call hv (DcimDevicesPatchStatus nb i st)"
    using assms unfolding views_apart_def by blast+
  show "hv w' = hv w" if call: "setDeviceStatus nb i st w = (q, w')"
  proof (cases "DcimDevicesRetrieve nb i w" rule: call_cases)
    case (err e w1)
    with call pure_callD [OF pure(1) err] show ?thesis by (simp add: setDeviceStatus_def)
  next
    case (ok d w1)
    with call pure_callD [OF pure(1) ok] show ?thesis
      by (cases "DcimDevicesPatchStatus nb i st w1" rule: call_cases)
        (auto simp: setDeviceStatus_def dest: pure_callD [OF pure(2)] split: if_split_asm)
  qed
qed

text \<open>The object after the label step, as the API server has it.\<close>

definition relabelled :: "hardware \<Rightarrow> hardware \<Rightarrow> hardware" where
  "relabelled desired h = h\<lparr>hw_Labels := fst (merge_labels (hw_Labels desired) (hw_Labels h) False)\<rparr>"

lemma reconcile_success:
  assumes "hardware_laws k hv" and "views_apart k hv nb v"
    and "ReconcileExistingHardware k desired nb w = (Inr u, w')"
  obtains h w1 where "hv w (hw_key desired) = Some h" and "hv w1 = (hv w)(hw_key desired \<mapsto> relabelled desired h)"
    and "v w1 = v w" and "status_step desired (relabelled desired h) nb w1 = (Inr u, w')"
proof -
  from assms(3) obtain h w0 where get: "HardwareGet k (hw_Namespace desired) (hw_Name desired) w = (Inr h, w0)"
    by (cases "HardwareGet k (hw_Namespace desired) (hw_Name desired) w" rule: call_cases)
      (auto simp: ReconcileExistingHardware_def)
  note h = get_lawD(2) [OF assms(1) get] and hv0 = get_lawD(1) [OF assms(1) get]
    and v0 = views_apartD(1) [OF assms(2) get]
  from hardware_laws_keyed [OF assms(1) h] have key: "hw_key h = hw_key desired" .
  obtain labels flag where m: "merge_labels (hw_Labels desired) (hw_Labels h) False = (labels, flag)" by fastforce
  show ?thesis
  proof (cases flag)
    case True
    from assms(3) get m True obtain h' w1 where patch: "HardwarePatch k h (h\<lparr>hw_Labels := labels\<rparr>) w0 = (Inr h', w1)"
      and step: "status_step desired h' nb w1 = (Inr u, w')"
      by (cases "HardwarePatch k h (h\<lparr>hw_Labels := labels\<rparr>) w0" rule: call_cases)
        (auto simp: ReconcileExistingHardware_def)
    have "hw_key (h\<lparr>hw_Labels := labels\<rparr>) = hw_key h" by simp
    moreover have "hv w0 (hw_key h) = Some h" using h hv0 key by simp
    ultimately have "h' = h\<lparr>hw_Labels := labels\<rparr> \<and> hv w1 = (hv w0)(hw_key h \<mapsto> h\<lparr>hw_Labels := labels\<rparr>)"
      by (rule patch_lawD(1) [OF assms(1) patch])
    with step h hv0 v0 key m views_apartD(2) [OF assms(2) patch] show ?thesis
      by (intro that [of h w1]) (simp_all add: relabelled_def)
  next
    case False
    from merge_labels_same [of "hw_Labels desired" "hw_Labels h" False] m False have "labels = hw_Labels h" by simp
    with m have same: "relabelled desired h = h" by (simp add: relabelled_def)
    from assms(3) get m False have "status_step desired h nb w0 = (Inr u, w')"
      by (simp add: ReconcileExistingHardware_def)
    moreover have "(hv w)(hw_key desired \<mapsto> h) = hv w" using h by auto
    ultimately show ?thesis using h hv0 v0 same by (intro that [of h w0]) simp_all
  qed
qed

lemma status_step_success:
  assumes "device_laws nb v" and "views_apart k hv nb v" and "status_step desired h nb w = (Inr u, w')"
  shows "hv w' = hv w"
    and "mget (hw_Annotations h) annotationProvisioned = ''true'' \<Longrightarrow>
      \<exists>i. label_id desired = Some i \<and> v w' = (v w)\<lparr>db_status := (db_status (v w))(i \<mapsto> ''active'')\<rparr>"
    and "mget (hw_Annotations h) annotationProvisioned \<noteq> ''true'' \<Longrightarrow> v w' = v w"
proof -
  let ?p = "mget (hw_Annotations h) annotationProvisioned = ''true''"
  have prov: "\<exists>i b. label_id desired = Some i \<and> setDeviceStatus nb i ''active'' w = (Inr b, w')" if ?p
    using assms(3) that by (auto simp: status_step_def label_id_def Let_def split: option.split_asm prod.split_asm sum.split_asm)
  have none: "w' = w" if "\<not> ?p" using assms(3) that by (auto simp: status_step_def)
  show "hv w' = hv w" using prov none views_apartD(3) [OF assms(2)] by (cases ?p) blast+
  show "\<exists>i. label_id desired = Some i \<and> v w' = (v w)\<lparr>db_status := (db_status (v w))(i \<mapsto> ''active'')\<rparr>" if ?p
    using prov [OF that] sds.applied [OF assms(1)] by blast
  show "v w' = v w" if "\<not> ?p" using none [OF that] by simp
qed

lemma relabelled_idem:
  assumes "distinct (map fst (hw_Labels desired))"
  shows "relabelled desired (relabelled desired h) = relabelled desired h"
proof -
  let ?labels = "fst (merge_labels (hw_Labels desired) (hw_Labels h) False)"
  have "\<not> snd (merge_labels (hw_Labels desired) ?labels False)"
    using assms by (auto simp: merge_labels_flag merge_labels_mget)
  from merge_labels_same [OF this] show ?thesis by (simp add: relabelled_def)
qed


text \<open>The loop keeps the order of the devices and every object comes from its own device.\<close>

lemma create_hardwares_sources:
  assumes "create_hardwares ToIgn nb variant devs w = Some (hws, w')"
  shows "subseq (map label_id hws) (map (\<lambda>d. Some (dev_Id d)) devs) \<and>
    (\<forall>hw \<in> set hws. \<exists>d \<in> set devs. \<exists>h w1 w2 vd.
       extractHardwareData nb d w1 = Some (Inr h, w2) \<and> hw = h\<lparr>hw_VendorData := vd\<rparr>)"
  using assms
proof (induction devs arbitrary: w hws)
  case Nil
  then show ?case by simp
next
  case (Cons d devs)
  from Cons.prems obtain r w1 where ex: "extractHardwareData nb d w = Some (r, w1)"
    by (auto elim!: bind_SomeE)
  show ?case
  proof (cases r)
    case (Inl e)
    with Cons.prems ex have "create_hardwares ToIgn nb variant devs w1 = Some (hws, w')"
      by (auto elim!: bind_SomeE)
    from Cons.IH [OF this] show ?thesis by auto
  next
    case (Inr h)
    with Cons.prems ex obtain hw w2 hws' where sv: "set_vendor_data ToIgn nb variant d h w1 = Some (hw, w2)"
      and rest: "create_hardwares ToIgn nb variant devs w2 = Some (hws', w')" and hws: "hws = hw # hws'"
      by (auto elim!: bind_SomeE)
    from set_vendor_data_keeps [OF sv] obtain vd where hw: "hw = h\<lparr>hw_VendorData := vd\<rparr>" by blast
    have "label_id hw = label_id h" by (simp add: hw label_id_def)
    with extracted_identity(1) [OF ex [unfolded Inr]] have "label_id hw = Some (dev_Id d)" by simp
    with Cons.IH [OF rest] hws hw ex Inr show ?thesis by auto
  qed
qed

section \<open>Sample objects\<close>

lemma mem_views_apart: "views_apart mem_kube mem_store mem_netbox mem_view"
  unfolding views_apart_def pure_call_def
  by (auto simp: mem_kube_def mem_view_def mem_store_def split: option.split)

definition staged_node :: device where
  "staged_node = blank_device\<lparr>dev_Id := 7, dev_Name := Value ''node7'', dev_Serial := Some ''S7'', dev_Role := ''worker'',
     dev_Tenant := Value \<lparr>br_Name = ''Acme'', br_Slug = ''acme''\<rparr>,
     dev_Platform := Value \<lparr>br_Name = ''x86_64'', br_Slug = ''x86-64''\<rparr>,
     dev_PrimaryIp := Value \<lparr>bip_Id = 1, bip_Address = ''fd::7/64'', bip_Display = []\<rparr>,
     dev_PrimaryIp4 := Value \<lparr>bip_Id = 2, bip_Address = ''10.1.0.7/24'', bip_Display = []\<rparr>,
     dev_StatusValue := ''staged''\<rparr>"

definition staged_world :: mem where
  "staged_world = empty_mem\<lparr>m_devices := [staged_node\<lparr>dev_Id := 6, dev_PrimaryIp4 := Unset\<rparr>, staged_node],
     m_interfaces := [(7, \<lparr>if_Id = 70, if_Name = ''eth0'', if_MacAddress = Null, if_PrimaryMac = ''0A:00:00:00:00:07'',
       if_MacAddresses = [], if_TaggedVlans = [], if_Tags = []\<rparr>)],
     m_inventory := [(7, \<lparr>inv_Id = 1, inv_Name = ''/dev/sda''\<rparr>)],
     m_ips := [blank_ip\<lparr>ip_Id := 2, ip_Address := ''10.1.0.7/24'', ip_AssignedObjectId := Value 70\<rparr>],
     m_hardware := [blank_hardware\<lparr>hw_Name := ''node7'', hw_Namespace := ''acme'',
       hw_Labels := [(''owner'', ''ops''), (''netbox-device-id'', ''6'')],
       hw_Annotations := [(''v1alpha1.tinkerbell.org/provisioned'', ''true'')]\<rparr>]\<rparr>"

definition no_ignition :: "butane_config \<Rightarrow> string result" where
  "no_ignition c = Inl (Errorf ''unsupported'')"

lemma staged_mac: "primary_mac mem_netbox 2 staged_world = Some (Inr ''0a:00:00:00:00:07'', staged_world)"
  by code_simp

lemma staged_tags:
  "GetTaggedAddressesFromPrefixOfAddr mem_netbox t ''10.1.0.7/24'' staged_world = Some ([], staged_world)"
proof -
  have "IpamPrefixesList mem_netbox (Prefixes\<lparr>pq_Contains := Some ''10.1.0.7/24''\<rparr>) staged_world = (Inr (page []), staged_world)"
    by code_simp
  then show ?thesis by (simp add: GetTaggedAddressesFromPrefixOfAddr_def page_def)
qed

lemma staged_disks:
  "GetSystemDiskInventoryItems mem_netbox 7 staged_world = (Inr [\<lparr>inv_Id = 1, inv_Name = ''/dev/sda''\<rparr>], staged_world)"
  by (simp add: GetSystemDiskInventoryItems_def mem_netbox_def DcimInventoryItems_def staged_world_def page_def)

lemma staged_masks: "cidrToNetmask ''fd::7/64'' = Inr ''ffff:ffff:ffff:ffff::''"
proof -
  have "ParseCIDR ''fd::7/64'' = Some (IPv6 [253, 0, 0, 0, 0, 0, 0, 7] [], 64)" by code_simp
  moreover have "CIDRMask 16 64 8 = [65535, 65535, 65535, 65535, 0, 0, 0, 0]" by (simp add: CIDRMask_numeral)
  moreover have "Hextoa 65535 = ''ffff''" by (simp add: Hextoa.simps)
  ultimately show ?thesis by (simp add: cidrToNetmask_def mask_string_def mask6_string_def)
qed

lemma staged_address: "getAddrFromCIDR ''10.1.0.7/24'' = ''10.1.0.7''"
  by code_simp

lemmas staged_calls = staged_mac staged_tags staged_disks staged_masks staged_address

definition node7_meta :: object_meta where
  "node7_meta = \<lparr>om_Name = ''node7'', om_Namespace = ''acme'', om_Labels = device_labels staged_node ''S7''\<rparr>"

definition node7_hw :: hardware where
  "node7_hw = hardware_object staged_node node7_meta ''node7'' ''x86_64'' ''0a:00:00:00:00:07'' ''10.1.0.7''
     ''ffff:ffff:ffff:ffff::'' [] [] [''/dev/sda'']"

lemma staged_node_fields:
  "dev_PrimaryIp4 staged_node = Value \<lparr>bip_Id = 2, bip_Address = ''10.1.0.7/24'', bip_Display = []\<rparr>"
  "dev_PrimaryIp staged_node = Value \<lparr>bip_Id = 1, bip_Address = ''fd::7/64'', bip_Display = []\<rparr>"
  "dev_Id staged_node = 7" "dev_Name staged_node = Value ''node7''" "dev_Serial staged_node = Some ''S7''"
  "dev_Tenant staged_node = Value \<lparr>br_Name = ''Acme'', br_Slug = ''acme''\<rparr>"
  "dev_Platform staged_node = Value \<lparr>br_Name = ''x86_64'', br_Slug = ''x86-64''\<rparr>"
  by (simp_all add: staged_node_def blank_device_def)

lemma staged_extract: "extractHardwareData mem_netbox staged_node staged_world = Some (Inr node7_hw, staged_world)"
proof -
  have "createMetaFromDevice staged_node = Some node7_meta"
    by (simp add: createMetaFromDevice_def staged_node_fields node7_meta_def)
  then show ?thesis
    by (simp add: extractHardwareData_def staged_node_fields staged_calls node7_hw_def FromIPAddressesToStrings_def)
qed

lemma staged_create:
  assumes "GetDevices mem_netbox (filters\<lparr>f_Status := [''staged'']\<rparr>) staged_world =
      (Inr (page [staged_node\<lparr>dev_Id := 6, dev_PrimaryIp4 := Unset\<rparr>, staged_node]), staged_world)"
  shows "CreateHardwares no_ignition mem_netbox filters None staged_world = Some (Inr [node7_hw], staged_world)"
  using assms
  by (simp add: CreateHardwares_def page_def staged_extract staged_node_fields set_vendor_data_def
      extractHardwareData_def [of _ "staged_node\<lparr>dev_Id := 6, dev_PrimaryIp4 := Unset\<rparr>"])

lemma staged_run:
  "CreateHardwares no_ignition mem_netbox no_filters None staged_world = Some (Inr [node7_hw], staged_world)"
  by (rule staged_create) code_simp

section \<open>Properties\<close>

text \<open>
  C32. \<open>cidrToNetmask\<close> of an IPv4 address in CIDR notation is the dotted quad whose number has
  its first \<open>n\<close> bits set, itself a valid IPv4 address; \<open>getAddrFromCIDR\<close> of the same text is the
  address. A text without a slash has no mask: it is an error.
\<close>
theorem netmask_of_cidr:
  assumes "length os = 4" and "\<forall>k \<in> set os. k \<le> 255" and "n \<le> 32" and "CHR ''/'' \<notin> set s"
  shows "(\<exists>m. cidrToNetmask (quad_string os @ ''/'' @ Utoa n) = Inr (quad_string m) \<and>
            ParseIP (quad_string m) = Some (IPv4 m) \<and> fields_val 8 m = 2 ^ 32 - 2 ^ (32 - n)) \<and>
         getAddrFromCIDR (quad_string os @ ''/'' @ Utoa n) = quad_string os \<and>
         isl (cidrToNetmask s)"
proof (intro conjI)
  let ?m = "CIDRMask 8 n 4"
  have "\<forall>k \<in> set ?m. k \<le> 255" using CIDRMask_bound [of _ 8 n 4] by fastforce
  then have "ParseIP (quad_string ?m) = Some (IPv4 ?m)" by (intro ParseIP_quad_string) simp_all
  moreover have "fields_val 8 ?m = 2 ^ 32 - 2 ^ (32 - n)" using CIDRMask_val [of n 8 4] assms(3) by simp
  moreover have "cidrToNetmask (quad_string os @ ''/'' @ Utoa n) = Inr (quad_string ?m)"
    by (simp add: cidrToNetmask_def ParseCIDR_quad_string [OF assms(1-3)] mask_string_def)
  ultimately show "\<exists>m. cidrToNetmask (quad_string os @ ''/'' @ Utoa n) = Inr (quad_string m) \<and>
      ParseIP (quad_string m) = Some (IPv4 m) \<and> fields_val 8 m = 2 ^ 32 - 2 ^ (32 - n)" by blast
  show "getAddrFromCIDR (quad_string os @ ''/'' @ Utoa n) = quad_string os"
    by (simp add: getAddrFromCIDR_def hd_Split takeWhile_sep quad_string_no_slash)
  have "dropWhile (\<lambda>c. c \<noteq> CHR ''/'') s = []" using assms(4) by auto
  then have "ParseCIDR s = None" unfolding ParseCIDR_def by (simp only: list.case)
  then show "isl (cidrToNetmask s)" by (simp add: cidrToNetmask_def)
qed

theorem netmask_of_cidr_witness:
  "(\<exists>m. cidrToNetmask ''10.1.0.7/24'' = Inr (quad_string m) \<and> fields_val 8 m = 4294967040) \<and>
   isl (cidrToNetmask ''10.1.0.7'')"
proof -
  have q: "quad_string [10, 1, 0, 7] = ''10.1.0.7''" "Utoa 24 = ''24''" by code_simp+
  show ?thesis
    using netmask_of_cidr [of "[10, 1, 0, 7]" 24 "''10.1.0.7''"] unfolding q by simp blast
qed

text \<open>
  C23. The objects that \<open>CreateHardwares\<close> returns come from the devices that NetBox lists as
  staged, in the order of the listing and at most one per device: each carries in its labels the
  id of its own device, the name and tenant of that device, at least one disk, no user data and
  no annotation, whatever Ignition variant is asked for.
\<close>
theorem created_hardware_identity:
  assumes "CreateHardwares ToIgn nb filters variant w = Some (Inr hws, w')"
  shows "\<exists>p w1. GetDevices nb (filters\<lparr>f_Status := [''staged'']\<rparr>) w = (Inr p, w1) \<and>
    subseq (map label_id hws) (map (\<lambda>d. Some (dev_Id d)) (Results p)) \<and>
    (\<forall>hw \<in> set hws. \<exists>d \<in> set (Results p). label_id hw = Some (dev_Id d) \<and> dev_Name d = Value (hw_Name hw) \<and>
      hw_Namespace hw = (case Get (dev_Tenant d) of None \<Rightarrow> ''default'' | Some t \<Rightarrow> br_Slug t) \<and>
      hw_Disks hw \<noteq> [] \<and> hw_UserData hw = None \<and> hw_Annotations hw = [])"
proof -
  from assms obtain p w1 where get: "GetDevices nb (filters\<lparr>f_Status := [''staged'']\<rparr>) w = (Inr p, w1)"
    and run: "create_hardwares ToIgn nb variant (Results p) w1 = Some (hws, w')"
    by (auto simp: CreateHardwares_def elim!: bind_SomeE split: prod.split_asm sum.split_asm)
  note src = create_hardwares_sources [OF run]
  have "\<exists>d \<in> set (Results p). label_id hw = Some (dev_Id d) \<and> dev_Name d = Value (hw_Name hw) \<and>
      hw_Namespace hw = (case Get (dev_Tenant d) of None \<Rightarrow> ''default'' | Some t \<Rightarrow> br_Slug t) \<and>
      hw_Disks hw \<noteq> [] \<and> hw_UserData hw = None \<and> hw_Annotations hw = []" if "hw \<in> set hws" for hw
  proof -
    from src that obtain d h w1 w2 vd where d: "d \<in> set (Results p)"
      and ex: "extractHardwareData nb d w1 = Some (Inr h, w2)" and hw: "hw = h\<lparr>hw_VendorData := vd\<rparr>" by blast
    have "label_id hw = label_id h" by (simp add: hw label_id_def)
    with d extracted_identity [OF ex] show ?thesis by (intro bexI [OF _ d]) (simp add: hw)
  qed
  with get src show ?thesis by blast
qed

theorem created_hardware_identity_witness:
  "label_id node7_hw = Some 7 \<and> hw_Namespace node7_hw = ''acme'' \<and> hw_Disks node7_hw \<noteq> []"
proof -
  have get: "GetDevices mem_netbox (no_filters\<lparr>f_Status := [''staged'']\<rparr>) staged_world =
      (Inr (page [staged_node\<lparr>dev_Id := 6, dev_PrimaryIp4 := Unset\<rparr>, staged_node]), staged_world)" by code_simp
  from created_hardware_identity [OF staged_run] obtain p :: "device page" and w1 where
    "GetDevices mem_netbox (no_filters\<lparr>f_Status := [''staged'']\<rparr>) staged_world = (Inr p, w1)"
    "\<forall>hw \<in> set [node7_hw]. \<exists>d \<in> set (Results p). label_id hw = Some (dev_Id d) \<and> dev_Name d = Value (hw_Name hw) \<and>
      hw_Namespace hw = (case Get (dev_Tenant d) of None \<Rightarrow> ''default'' | Some t \<Rightarrow> br_Slug t) \<and>
      hw_Disks hw \<noteq> [] \<and> hw_UserData hw = None \<and> hw_Annotations hw = []" by blast
  with get extracted_identity(1) [OF staged_extract] show ?thesis by (auto simp: page_def staged_node_fields)
qed


text \<open>
  C33. The interface of the object that is built for a device: DHCP and netboot are on with PXE
  and workflows allowed, the MAC address is in lower case and is also the instance id, and the
  address is the primary IPv4 address without its prefix length. The netmask however is that of
  the primary address of the device, which is its IPv6 address when NetBox prefers that one.
\<close>
theorem hardware_interface:
  assumes "extractHardwareData nb dev w = Some (Inr hw, w')"
  shows "\<exists>ip4 ip mask dhcp. dev_PrimaryIp4 dev = Value ip4 \<and> dev_PrimaryIp dev = Value ip \<and>
    cidrToNetmask (bip_Address ip) = Inr mask \<and>
    map hwi_DHCP (hw_Interfaces hw) = [Some dhcp] \<and>
    map hwi_Netboot (hw_Interfaces hw) = [Some \<lparr>AllowPXE_flag = Some True, AllowWorkflow_flag = Some True\<rparr>] \<and>
    map_option hip_Address (dhcp_IP dhcp) = Some (takeWhile (\<lambda>c. c \<noteq> CHR ''/'') (bip_Address ip4)) \<and>
    map_option hip_Netmask (dhcp_IP dhcp) = Some mask \<and>
    ToLower (dhcp_MAC dhcp) = dhcp_MAC dhcp \<and>
    map_option md_ID (hw_Metadata hw) = Some (dhcp_MAC dhcp) \<and> dhcp_Hostname dhcp = hw_Name hw"
proof -
  from assms obtain ip4 ip :: brief_ip and mac netmask gws dns meta name and items :: "inventory_item list"
      and platform :: brief where
    ok: "dev_PrimaryIp4 dev = Value ip4" "dev_PrimaryIp dev = Value ip" "dev_Name dev = Value name"
    "cidrToNetmask (bip_Address ip) = Inr netmask" "createMetaFromDevice dev = Some meta"
    and mac: "\<exists>w1 w2. primary_mac nb (bip_Id ip4) w1 = Some (Inr mac, w2)"
    and hw: "hw = hardware_object dev meta name (br_Name platform) mac (getAddrFromCIDR (bip_Address ip4)) netmask
      gws dns (map inv_Name items)" by (rule extractHardwareData_ok)
  from mac have lower: "ToLower mac = mac" by (elim exE) (rule primary_mac_lower)
  from ok(5) have "dev_Name dev = Value (om_Name meta)" by (rule createMetaFromDevice_ok)
  with ok(3) have "name = om_Name meta" by simp
  then show ?thesis
    using ok lower by (simp add: hw hardware_object_def Let_def getAddrFromCIDR_def hd_Split)
qed

theorem hardware_interface_witness:
  "\<exists>dhcp. map hwi_DHCP (hw_Interfaces node7_hw) = [Some dhcp] \<and> map_option hip_Address (dhcp_IP dhcp) = Some ''10.1.0.7'' \<and>
     map_option hip_Netmask (dhcp_IP dhcp) = Some ''ffff:ffff:ffff:ffff::''"
  using hardware_interface [OF staged_extract] by (auto simp: staged_node_fields staged_calls)

text \<open>
  The prune list is built exactly as the create list, from the devices that NetBox lists as
  offline or planned and without any Ignition: the two loops are the same function.
\<close>
lemma prune_list_as_create_list:
  "CreateHardwaresToPrune nb filters w =
     (case GetDevices nb (filters\<lparr>f_Status := [''offline'', ''planned'']\<rparr>) w of
        (Inl e, w1) \<Rightarrow> Some (Inl e, w1)
      | (Inr p, w1) \<Rightarrow> map_option (\<lambda>(hws, w2). (Inr hws, w2)) (create_hardwares ToIgn nb None (Results p) w1))"
  by (auto simp: CreateHardwaresToPrune_def prune_as_create [of _ _ _ ToIgn] split: prod.split sum.split
      bind_split option.split)

text \<open>
  C10. A reconciliation of an existing object that reports no error leaves, in Kubernetes, the
  same object with the desired labels merged over its own (its other labels are kept), and every
  other object untouched; in NetBox it makes the device named by the desired labels active if
  the object is annotated as provisioned, and changes nothing otherwise.
\<close>
theorem reconcile_merges_labels:
  assumes "hardware_laws k hv" and "views_apart k hv nb v" and "device_laws nb v"
    and "distinct (map fst (hw_Labels desired))"
    and "ReconcileExistingHardware k desired nb w = (Inr u, w')"
  shows "\<exists>h labels. hv w (hw_key desired) = Some h \<and> hv w' = (hv w)(hw_key desired \<mapsto> h\<lparr>hw_Labels := labels\<rparr>) \<and>
    (\<forall>key. mget labels key = (case map_of (hw_Labels desired) key of Some x \<Rightarrow> x | None \<Rightarrow> mget (hw_Labels h) key)) \<and>
    (if mget (hw_Annotations h) annotationProvisioned = ''true''
     then \<exists>i. label_id desired = Some i \<and> v w' = (v w)\<lparr>db_status := (db_status (v w))(i \<mapsto> ''active'')\<rparr>
     else v w' = v w)"
proof -
  from reconcile_success [OF assms(1,2,5)] obtain h w1 where h: "hv w (hw_key desired) = Some h"
    and w1: "hv w1 = (hv w)(hw_key desired \<mapsto> relabelled desired h)" "v w1 = v w"
    and step: "status_step desired (relabelled desired h) nb w1 = (Inr u, w')" by blast
  note ss = status_step_success [OF assms(3,2) step]
  have "hw_Annotations (relabelled desired h) = hw_Annotations h" by (simp add: relabelled_def)
  with ss w1 have "if mget (hw_Annotations h) annotationProvisioned = ''true''
     then \<exists>i. label_id desired = Some i \<and> v w' = (v w)\<lparr>db_status := (db_status (v w))(i \<mapsto> ''active'')\<rparr>
     else v w' = v w" by simp
  with h ss(1) w1 merge_labels_mget [OF assms(4)] show ?thesis
    by (intro exI [of _ h] exI [of _ "fst (merge_labels (hw_Labels desired) (hw_Labels h) False)"]) (simp add: relabelled_def)
qed

lemma node7_reconciled: "\<exists>w'. ReconcileExistingHardware mem_kube node7_hw mem_netbox staged_world = (Inr (), w')"
proof -
  have "fst (ReconcileExistingHardware mem_kube node7_hw mem_netbox staged_world) = Inr ()" by code_simp
  then show ?thesis by (metis prod.collapse)
qed

lemma node7_labels: "distinct (map fst (hw_Labels node7_hw))" "hw_key node7_hw = (''acme'', ''node7'')"
  using extracted_identity(4) [OF staged_extract] by (auto simp: node7_hw_def hardware_object_def node7_meta_def Let_def)

theorem reconcile_merges_labels_witness:
  "let w' = snd (ReconcileExistingHardware mem_kube node7_hw mem_netbox staged_world)
   in (\<exists>h. mem_store w' (''acme'', ''node7'') = Some h \<and> mget (hw_Labels h) ''owner'' = ''ops'' \<and>
         mget (hw_Labels h) ''netbox-device-id'' = ''7'') \<and>
      db_status (mem_view w') 7 = Some ''active''"
proof -
  from node7_reconciled obtain w' where run: "ReconcileExistingHardware mem_kube node7_hw mem_netbox staged_world = (Inr (), w')" ..
  from reconcile_merges_labels [OF mem_hardware_laws mem_views_apart mem_device_laws node7_labels(1) run]
  obtain h labels where h: "mem_store staged_world (''acme'', ''node7'') = Some h"
    and hv: "mem_store w' = (mem_store staged_world)((''acme'', ''node7'') \<mapsto> h\<lparr>hw_Labels := labels\<rparr>)"
    and labels: "\<And>key. mget labels key = (case map_of (hw_Labels node7_hw) key of Some x \<Rightarrow> x | None \<Rightarrow> mget (hw_Labels h) key)"
    and st: "if mget (hw_Annotations h) annotationProvisioned = ''true''
      then \<exists>i. label_id node7_hw = Some i \<and> mem_view w' = (mem_view staged_world)\<lparr>db_status := (db_status (mem_view staged_world))(i \<mapsto> ''active'')\<rparr>
      else mem_view w' = mem_view staged_world"
    unfolding node7_labels(2) by blast
  have stored: "map_option (\<lambda>h. (mget (hw_Labels h) ''owner'', mget (hw_Annotations h) annotationProvisioned))
      (mem_store staged_world (''acme'', ''node7'')) = Some (''ops'', ''true'')" by code_simp
  have desired: "map_of (hw_Labels node7_hw) ''owner'' = None" "map_of (hw_Labels node7_hw) ''netbox-device-id'' = Some ''7''"
    by (code_simp, code_simp)
  from st h stored have "\<exists>i. label_id node7_hw = Some i \<and> mem_view w' = (mem_view staged_world)\<lparr>db_status := (db_status (mem_view staged_world))(i \<mapsto> ''active'')\<rparr>"
    by simp
  then have "db_status (mem_view w') 7 = Some ''active''"
    using extracted_identity(1) [OF staged_extract] by (auto simp: staged_node_fields)
  with run hv h stored labels desired show ?thesis by simp
qed

text \<open>
  Reconciliation is idempotent: after one that reports no error, a further one with the same
  desired object that reports no error changes nothing in Kubernetes and nothing in NetBox.
\<close>
lemma reconcile_idempotent:
  assumes "hardware_laws k hv" and "views_apart k hv nb v" and "device_laws nb v"
    and "distinct (map fst (hw_Labels desired))"
    and "ReconcileExistingHardware k desired nb w = (Inr u, w1)"
    and "ReconcileExistingHardware k desired nb w1 = (Inr u', w2)"
  shows "hv w2 = hv w1 \<and> v w2 = v w1"
proof -
  from reconcile_success [OF assms(1,2,5)] obtain h wa where a: "hv w (hw_key desired) = Some h"
    "hv wa = (hv w)(hw_key desired \<mapsto> relabelled desired h)" "v wa = v w"
    "status_step desired (relabelled desired h) nb wa = (Inr u, w1)" by blast
  note sa = status_step_success [OF assms(3,2) a(4)]
  from reconcile_success [OF assms(1,2,6)] obtain h' wb where b: "hv w1 (hw_key desired) = Some h'"
    "hv wb = (hv w1)(hw_key desired \<mapsto> relabelled desired h')" "v wb = v w1"
    "status_step desired (relabelled desired h') nb wb = (Inr u', w2)" by blast
  note sb = status_step_success [OF assms(3,2) b(4)]
  from sa(1) a(2) b(1) have h': "h' = relabelled desired h" by simp
  then have same: "relabelled desired h' = relabelled desired h" using relabelled_idem [OF assms(4)] by simp
  have "hv w2 = hv w1" using sb(1) b(2) sa(1) a(2) same by simp
  moreover have "v w2 = v w1"
  proof (cases "mget (hw_Annotations (relabelled desired h)) annotationProvisioned = ''true''")
    case True
    with sa(2) obtain i where "label_id desired = Some i" "v w1 = (v w)\<lparr>db_status := (db_status (v w))(i \<mapsto> ''active'')\<rparr>"
      using a(3) by auto
    with sb(2) True same b(3) show ?thesis by auto
  next
    case False
    with sb(3) same b(3) show ?thesis by simp
  qed
  ultimately show ?thesis ..
qed

end
