(* ===== verification/Cluster_Show.thy ===== *)
theory Cluster_Show
  imports Cluster_Sync Common_NetBox
begin

text \<open>
  The reporting half of \<open>pkg/cluster\<close>: the table of clusters (\<open>show.go\<close>) and the table of the
  addresses of the managed control planes (\<open>ipaddr.go\<close>), each row joining what NetBox and
  Kubernetes know.
\<close>

section \<open>Clusters (show.go)\<close>

record ClusterRow =
  row_Name :: string
  row_Type :: string
  row_NetBoxStatus :: string
  row_CAPIReady :: string
  row_DeviceCount :: nat
  row_Devices :: "string list"

definition getClusterDevices :: "'w netbox \<Rightarrow> int32 \<Rightarrow> ('w, device list) call" where
  "getClusterDevices nb clusterID w =
     (case DcimDevicesList nb (DcimDevices\<lparr>dq_ClusterId := Some [clusterID]\<rparr>) w of
        (Inl err, w) \<Rightarrow> (Inl (Wrapf (''cannot list devices for cluster '' @ Itoa32 clusterID @ '': '') err), w)
      | (Inr result, w) \<Rightarrow> (Inr (Results result), w))"

definition getClusterVMs :: "'w netbox \<Rightarrow> int32 \<Rightarrow> ('w, virtual_machine list) call" where
  "getClusterVMs nb clusterID w =
     (case VirtualizationVirtualMachinesList nb (VirtualMachines\<lparr>vq_ClusterId := Some [clusterID]\<rparr>) w of
        (Inl err, w) \<Rightarrow> (Inl (Wrapf (''cannot list VMs for cluster '' @ Itoa32 clusterID @ '': '') err), w)
      | (Inr result, w) \<Rightarrow> (Inr (Results result), w))"

text \<open>
  The loop over the conditions: a value that is not a map is skipped, and so is a Ready condition
  whose status is not a string.
\<close>

fun ready_condition :: "json_value list \<Rightarrow> string" where
  "ready_condition [] = []"
| "ready_condition (c # conditions) =
     (case c of
        JMap cond \<Rightarrow>
          if map_of cond ''type'' = Some (JString ''Ready'') then
            (case map_of cond ''status'' of
               Some (JString s) \<Rightarrow>
                 if s = ''True'' then ''true'' else if s = ''False'' then ''false'' else ''unknown''
             | _ \<Rightarrow> ready_condition conditions)
          else ready_condition conditions
      | _ \<Rightarrow> ready_condition conditions)"

definition getCAPIClusterInfo :: "('w, 'o) kube \<Rightarrow> string \<Rightarrow> string \<Rightarrow> 'w \<Rightarrow> string \<times> 'w" where
  "getCAPIClusterInfo k namespace name w =
     (case ObjectGet k capiClusterGVK namespace name w of
        (Inl err, w) \<Rightarrow> ([], w)
      | (Inr capiCluster, w) \<Rightarrow>
          (case NestedSlice k capiCluster [''status'', ''conditions''] of
             Inr (Some conditions) \<Rightarrow> (ready_condition conditions, w)
           | _ \<Rightarrow> ([], w)))"

text \<open>One turn of the loop over the clusters.\<close>

definition show_cluster :: "('w, 'o) kube \<Rightarrow> string \<Rightarrow> 'w netbox \<Rightarrow> nb_cluster \<Rightarrow> 'w \<Rightarrow> ClusterRow \<times> 'w" where
  "show_cluster k namespace nb nbCluster w =
     (let row = \<lparr>row_Name = cl_Name nbCluster, row_Type = cl_TypeSlug nbCluster,
            row_NetBoxStatus = (case cl_Status nbCluster of None \<Rightarrow> [] | Some s \<Rightarrow> s),
            row_CAPIReady = [], row_DeviceCount = 0, row_Devices = []\<rparr>;
          (devices, w) = getClusterDevices nb (cl_Id nbCluster) w;
          row = (case devices of
                   Inl err \<Rightarrow> row
                 | Inr ds \<Rightarrow> row\<lparr>row_Devices := row_Devices row @ map DeviceGetName ds\<rparr>);
          (vms, w) = getClusterVMs nb (cl_Id nbCluster) w;
          row = (case vms of
                   Inl err \<Rightarrow> row
                 | Inr vs \<Rightarrow> row\<lparr>row_Devices := row_Devices row @ map vm_Name vs\<rparr>);
          row = row\<lparr>row_DeviceCount := length (row_Devices row)\<rparr>
      in if cl_TypeSlug nbCluster = managedKubernetesClusterTypeSlug then
           let (ready, w) = getCAPIClusterInfo k namespace (cl_Name nbCluster) w
           in (row\<lparr>row_CAPIReady := ready\<rparr>, w)
         else (row, w))"

fun show_clusters ::
  "('w, 'o) kube \<Rightarrow> string \<Rightarrow> 'w netbox \<Rightarrow> nb_cluster list \<Rightarrow> 'w \<Rightarrow> ClusterRow list \<times> 'w" where
  "show_clusters k namespace nb [] w = ([], w)"
| "show_clusters k namespace nb (c # cs) w =
     (let (row, w) = show_cluster k namespace nb c w;
          (rows, w) = show_clusters k namespace nb cs w
      in (row # rows, w))"

definition show_request :: "string list \<Rightarrow> cluster_query" where
  "show_request clusterNames =
     (if filter_given clusterNames then VirtualizationClusters\<lparr>cq_Name := Some clusterNames\<rparr>
      else VirtualizationClusters)"

definition Cluster_Show ::
  "('w, 'o) kube \<Rightarrow> string \<Rightarrow> 'w netbox \<Rightarrow> string list \<Rightarrow> ('w, ClusterRow list) call" where
  "Cluster_Show k namespace nb clusterNames w =
     (case VirtualizationClustersList nb (show_request clusterNames) w of
        (Inl err, w) \<Rightarrow> (Inl (Wrapf ''cannot list NetBox clusters: '' err), w)
      | (Inr netboxClusters, w) \<Rightarrow>
          if Count netboxClusters = 0 then (Inr [], w)
          else let (rows, w) = show_clusters k namespace nb (Results netboxClusters) w in (Inr rows, w))"

section \<open>Addresses (ipaddr.go)\<close>

record IPAddressRow =
  ir_ClusterName :: string
  ir_IPAddress :: string
  ir_Source :: string
  ir_NetBoxAssigned :: bool
  ir_NetBoxStatus :: string

text \<open>The Go function answers three values; the error, if any, is only logged by its caller.\<close>

definition getNetBoxIPStatus :: "'w netbox \<Rightarrow> string \<Rightarrow> ('w, bool \<times> string \<times> go_error option) go" where
  "getNetBoxIPStatus nb ip w =
     (case IpamIpAddressesList nb (IpAddresses\<lparr>aq_Q := Some ip\<rparr>) w of
        (Inl err, w) \<Rightarrow> Some ((False, [], Some (Wrapf (''cannot query NetBox IPAM for '' @ ip @ '': '') err)), w)
      | (Inr result, w) \<Rightarrow>
          if Count result = 0 then Some ((False, [], None), w)
          else do {
            a \<leftarrow> index0 (Results result);
            Some ((True, ip_StatusValue a, None), w)
          })"

definition kamajiControlPlaneListGVK :: gvk where
  "kamajiControlPlaneListGVK = kamajiControlPlaneGVK\<lparr>gvk_Kind := gvk_Kind kamajiControlPlaneGVK @ ''List''\<rparr>"

text \<open>The loop over the comma-separated addresses of one control plane.\<close>

fun cilium_rows :: "'w netbox \<Rightarrow> string \<Rightarrow> string list \<Rightarrow> ('w, IPAddressRow list) go" where
  "cilium_rows nb name [] w = Some ([], w)"
| "cilium_rows nb name (ip # ips) w =
     (if TrimSpace ip = [] then cilium_rows nb name ips w
      else do {
        ((assigned, status, ipErr), w) \<leftarrow> getNetBoxIPStatus nb (TrimSpace ip) w;
        (rows, w) \<leftarrow> cilium_rows nb name ips w;
        Some (\<lparr>ir_ClusterName = name, ir_IPAddress = TrimSpace ip, ir_Source = ''cilium-lb-ipam'',
               ir_NetBoxAssigned = assigned, ir_NetBoxStatus = status\<rparr> # rows, w)
      })"

definition cilium_part :: "('w, 'o) kube \<Rightarrow> 'w netbox \<Rightarrow> 'o \<Rightarrow> ('w, IPAddressRow list) go" where
  "cilium_part k nb obj w =
     (case NestedStringMap k obj serviceAnnotations_path of
        Inl err \<Rightarrow> Some ([], w)
      | Inr annotations \<Rightarrow>
          let rawIPs = mget (case annotations of None \<Rightarrow> [] | Some m \<Rightarrow> m) ciliumLBIPAnnotation
          in cilium_rows nb (ObjectName k obj) (Split rawIPs CHR '','') w)"

definition tailscale_part ::
  "('w, 'o) kube \<Rightarrow> string \<Rightarrow> 'w netbox \<Rightarrow> 'o \<Rightarrow> ('w, IPAddressRow list) go" where
  "tailscale_part k namespace nb obj w =
     (if fst (IsTailscaleExposed k obj) then
        (case GetTailscaleDevice k (ObjectName k obj) namespace w of
           (Inl tsErr, w) \<Rightarrow> Some ([], w)
         | (Inr dev, w) \<Rightarrow> do {
             ((assigned, tsStatus, tsErr), w) \<leftarrow>
               (if ts_IP dev \<noteq> [] then getNetBoxIPStatus nb (ts_IP dev) w else Some ((False, [], None), w));
             Some ([\<lparr>ir_ClusterName = ObjectName k obj, ir_IPAddress = ts_Address dev, ir_Source = ''tailscale'',
                     ir_NetBoxAssigned = assigned, ir_NetBoxStatus = tsStatus\<rparr>], w)
           })
      else Some ([], w))"

text \<open>The filter is the set of the names that are not blank; an empty set lets every name pass.\<close>

definition clusterFilter :: "string list \<Rightarrow> string \<Rightarrow> bool" where
  "clusterFilter clusterNames name \<longleftrightarrow>
     (let names = filter (\<lambda>n. n \<noteq> []) clusterNames in names \<noteq> [] \<longrightarrow> name \<in> set names)"

fun show_addresses ::
  "('w, 'o) kube \<Rightarrow> string \<Rightarrow> 'w netbox \<Rightarrow> string list \<Rightarrow> 'o list \<Rightarrow> ('w, IPAddressRow list) go" where
  "show_addresses k namespace nb clusterNames [] w = Some ([], w)"
| "show_addresses k namespace nb clusterNames (obj # objs) w =
     (if \<not> clusterFilter clusterNames (ObjectName k obj) then show_addresses k namespace nb clusterNames objs w
      else do {
        (cilium, w) \<leftarrow> cilium_part k nb obj w;
        (tailscale, w) \<leftarrow> tailscale_part k namespace nb obj w;
        (rows, w) \<leftarrow> show_addresses k namespace nb clusterNames objs w;
        Some (cilium @ tailscale @ rows, w)
      })"

definition ShowIPAddresses ::
  "('w, 'o) kube \<Rightarrow> string \<Rightarrow> 'w netbox \<Rightarrow> string list \<Rightarrow> ('w, IPAddressRow list result) go" where
  "ShowIPAddresses k namespace nb clusterNames w =
     (case ObjectList k kamajiControlPlaneListGVK namespace [] w of
        (Inl err, w) \<Rightarrow>
          Some (Inl (Wrapf (''cannot list KamajiControlPlane in namespace '' @ namespace @ '': '') err), w)
      | (Inr items, w) \<Rightarrow>
          if items = [] then Some (Inr [], w)
          else do {
            (rows, w) \<leftarrow> show_addresses k namespace nb clusterNames items w;
            Some (Inr rows, w)
          })"

section \<open>Facts on the table of clusters\<close>

text \<open>The reference for the readiness: the first Ready condition that has a textual status.\<close>

definition textual_ready :: "json_value \<Rightarrow> string option" where
  "textual_ready c =
     (case c of
        JMap cond \<Rightarrow>
          (case (map_of cond ''type'', map_of cond ''status'') of
             (Some (JString t), Some (JString s)) \<Rightarrow> if t = ''Ready'' then Some s else None
           | _ \<Rightarrow> None)
      | _ \<Rightarrow> None)"

definition readiness :: "string \<Rightarrow> string" where
  "readiness s = (if s = ''True'' then ''true'' else if s = ''False'' then ''false'' else ''unknown'')"

lemma ready_condition_first:
  "ready_condition cs = (case List.map_filter textual_ready cs of [] \<Rightarrow> [] | s # _ \<Rightarrow> readiness s)"
  by (induction cs)
    (auto simp: textual_ready_def readiness_def map_filter_simps split: json_value.split option.split)

lemma ready_condition_range: "ready_condition cs \<in> {[], ''true'', ''false'', ''unknown''}"
  by (simp add: ready_condition_first readiness_def split: list.split)

definition names_of :: "('a \<Rightarrow> string) \<Rightarrow> 'a list result \<Rightarrow> string list" where
  "names_of f r = (case r of Inl e \<Rightarrow> [] | Inr xs \<Rightarrow> map f xs)"

text \<open>A row, given the three answers that the code asks for.\<close>

lemma show_cluster_row:
  assumes "getClusterDevices nb (cl_Id c) w = (devs, w1)" and "getClusterVMs nb (cl_Id c) w1 = (vms, w2)"
    and "getCAPIClusterInfo k ns (cl_Name c) w2 = (ready, w3)"
  shows "fst (show_cluster k ns nb c w) =
    \<lparr>row_Name = cl_Name c, row_Type = cl_TypeSlug c,
     row_NetBoxStatus = (case cl_Status c of None \<Rightarrow> [] | Some s \<Rightarrow> s),
     row_CAPIReady = (if cl_TypeSlug c = managedKubernetesClusterTypeSlug then ready else []),
     row_DeviceCount = length (names_of DeviceGetName devs) + length (names_of vm_Name vms),
     row_Devices = names_of DeviceGetName devs @ names_of vm_Name vms\<rparr>"
  using assms by (simp add: show_cluster_def Let_def names_of_def split: sum.split)

lemma getCAPIClusterInfo_range: "fst (getCAPIClusterInfo k ns n w) \<in> {[], ''true'', ''false'', ''unknown''}"
  using ready_condition_range
  by (auto simp: getCAPIClusterInfo_def split: prod.split sum.split option.split)

definition row_ok :: "nb_cluster \<Rightarrow> ClusterRow \<Rightarrow> bool" where
  "row_ok c row \<longleftrightarrow> row_Name row = cl_Name c \<and> row_Type row = cl_TypeSlug c \<and>
     row_DeviceCount row = length (row_Devices row) \<and>
     row_CAPIReady row \<in> {[], ''true'', ''false'', ''unknown''} \<and>
     (cl_TypeSlug c \<noteq> managedKubernetesClusterTypeSlug \<longrightarrow> row_CAPIReady row = [])"

lemma show_cluster_ok: "row_ok c (fst (show_cluster k ns nb c w))"
proof -
  obtain devs w1 where d: "getClusterDevices nb (cl_Id c) w = (devs, w1)" by fastforce
  obtain vms w2 where m: "getClusterVMs nb (cl_Id c) w1 = (vms, w2)" by fastforce
  obtain ready w3 where r: "getCAPIClusterInfo k ns (cl_Name c) w2 = (ready, w3)" by fastforce
  from getCAPIClusterInfo_range [of k ns "cl_Name c" w2] r show ?thesis
    by (simp add: row_ok_def show_cluster_row [OF d m r])
qed

lemma show_clusters_ok: "show_clusters k ns nb cs w = (rows, w') \<Longrightarrow> list_all2 row_ok cs rows"
proof (induction cs arbitrary: w rows)
  case Nil
  then show ?case by simp
next
  case (Cons c cs)
  from Cons.prems obtain rows' where
    "show_clusters k ns nb cs (snd (show_cluster k ns nb c w)) = (rows', w')"
    and "rows = fst (show_cluster k ns nb c w) # rows'"
    by (auto simp: Let_def split: prod.split_asm)
  with Cons.IH show_cluster_ok [of c k ns nb w] show ?case by auto
qed

section \<open>Facts on the table of addresses\<close>

text \<open>The addresses that an object announces through Cilium, and what a row of one of them says.\<close>

definition announced :: "('w, 'o) kube \<Rightarrow> 'o \<Rightarrow> string list" where
  "announced k obj =
     (case NestedStringMap k obj serviceAnnotations_path of
        Inl e \<Rightarrow> []
      | Inr m \<Rightarrow> filter (\<lambda>s. s \<noteq> []) (map TrimSpace
          (Split (mget (case m of None \<Rightarrow> [] | Some m \<Rightarrow> m) ciliumLBIPAnnotation) CHR '','')))"

definition known_address :: "netbox_db \<Rightarrow> (string \<Rightarrow> ip_address \<Rightarrow> bool) \<Rightarrow> IPAddressRow \<Rightarrow> bool" where
  "known_address db matches r \<longleftrightarrow>
     (ir_NetBoxAssigned r \<longrightarrow>
        (\<exists>a \<in> set (db_ips db). matches (ir_IPAddress r) a \<and> ir_NetBoxStatus r = ip_StatusValue a))"

abbreviation cilium_source :: string where
  "cilium_source \<equiv> ''cilium-lb-ipam''"

definition cilium_pairs :: "IPAddressRow list \<Rightarrow> (string \<times> string) list" where
  "cilium_pairs rows = map (\<lambda>r. (ir_ClusterName r, ir_IPAddress r)) (filter (\<lambda>r. ir_Source r = cilium_source) rows)"

lemma cilium_pairs_append [simp]: "cilium_pairs (xs @ ys) = cilium_pairs xs @ cilium_pairs ys"
  by (simp add: cilium_pairs_def)

lemma getNetBoxIPStatus_spec:
  assumes "ip_laws nb v matches"
  shows "\<exists>assigned status err w'. getNetBoxIPStatus nb ip w = Some ((assigned, status, err), w') \<and> v w' = v w \<and>
    (assigned \<longrightarrow> (\<exists>a \<in> set (db_ips (v w)). matches ip a \<and> status = ip_StatusValue a))"
proof (cases "IpamIpAddressesList nb (IpAddresses\<lparr>aq_Q := Some ip\<rparr>) w" rule: call_cases)
  case (err e w1)
  with ip_lawsD(1) [OF assms err] show ?thesis by (intro exI [of _ False]) (auto simp: getNetBoxIPStatus_def)
next
  case (ok p w1)
  note pure = ip_lawsD(1) [OF assms ok] and pg = ip_lawsD(2) [OF assms ok]
  show ?thesis
  proof (cases "Count p = 0")
    case True
    with ok pure show ?thesis by (intro exI [of _ False]) (auto simp: getNetBoxIPStatus_def)
  next
    case False
    with page_of_Count(2) [OF pg] page_of_index0 [OF pg] obtain a where a: "index0 (Results p) = Some a"
      and "a \<in> set (filter (matches ip) (db_ips (v w)))"
      by (metis index0_filter_None index0_in_set not_Some_eq)
    with ok pure False show ?thesis by (auto simp: getNetBoxIPStatus_def)
  qed
qed

lemma cilium_rows_spec:
  assumes "ip_laws nb v matches"
  shows "\<exists>rows w'. cilium_rows nb name ips w = Some (rows, w') \<and> v w' = v w \<and>
    map ir_IPAddress rows = filter (\<lambda>s. s \<noteq> []) (map TrimSpace ips) \<and>
    (\<forall>r \<in> set rows. ir_ClusterName r = name \<and> ir_Source r = cilium_source \<and> known_address (v w) matches r)"
proof (induction ips arbitrary: w)
  case Nil
  then show ?case by simp
next
  case (Cons ip ips)
  show ?case
  proof (cases "TrimSpace ip = []")
    case True
    with Cons show ?thesis by simp
  next
    case False
    from getNetBoxIPStatus_spec [OF assms, of "TrimSpace ip" w] obtain as st err w1 where
      s: "getNetBoxIPStatus nb (TrimSpace ip) w = Some ((as, st, err), w1)" "v w1 = v w"
      "as \<longrightarrow> (\<exists>a \<in> set (db_ips (v w)). matches (TrimSpace ip) a \<and> st = ip_StatusValue a)" by blast
    from Cons [of w1] obtain rows w' where r: "cilium_rows nb name ips w1 = Some (rows, w')" "v w' = v w1"
      "map ir_IPAddress rows = filter (\<lambda>s. s \<noteq> []) (map TrimSpace ips)"
      "\<forall>r \<in> set rows. ir_ClusterName r = name \<and> ir_Source r = cilium_source \<and> known_address (v w1) matches r" by blast
    from False s r show ?thesis by (simp add: known_address_def)
  qed
qed

lemma cilium_part_spec:
  assumes "ip_laws nb v matches"
  shows "\<exists>rows w'. cilium_part k nb obj w = Some (rows, w') \<and> v w' = v w \<and>
    cilium_pairs rows = map (Pair (ObjectName k obj)) (announced k obj) \<and> (\<forall>r \<in> set rows. known_address (v w) matches r)"
proof (cases "NestedStringMap k obj serviceAnnotations_path")
  case (Inl e)
  then show ?thesis by (simp add: cilium_part_def announced_def cilium_pairs_def)
next
  case (Inr m)
  let ?raw = "mget (case m of None \<Rightarrow> [] | Some m \<Rightarrow> m) ciliumLBIPAnnotation"
  from cilium_rows_spec [OF assms, of "ObjectName k obj" "Split ?raw CHR '',''" w]
  obtain rows w' where r: "cilium_rows nb (ObjectName k obj) (Split ?raw CHR '','') w = Some (rows, w')" "v w' = v w"
    and ips: "map ir_IPAddress rows = announced k obj"
    and rows: "\<forall>r \<in> set rows. ir_ClusterName r = ObjectName k obj \<and> ir_Source r = cilium_source \<and> known_address (v w) matches r"
    using Inr by (auto simp: announced_def)
  from rows have "filter (\<lambda>r. ir_Source r = cilium_source) rows = rows" by simp
  moreover from rows have "map (\<lambda>r. (ir_ClusterName r, ir_IPAddress r)) rows = map (Pair (ObjectName k obj)) (map ir_IPAddress rows)"
    by simp
  ultimately show ?thesis using Inr r rows ips by (simp add: cilium_part_def cilium_pairs_def)
qed

lemma tailscale_part_spec:
  assumes "ip_laws nb v matches" and "reads_pure nb k v"
  shows "\<exists>rows w'. tailscale_part k ns nb obj w = Some (rows, w') \<and> v w' = v w \<and> cilium_pairs rows = [] \<and>
    (\<forall>r \<in> set rows. ir_Source r \<noteq> cilium_source)"
proof (cases "GetTailscaleDevice k (ObjectName k obj) ns w" rule: call_cases)
  case (err e w1)
  with GetTailscaleDevice_pure [OF assms(2) err] show ?thesis by (simp add: tailscale_part_def cilium_pairs_def)
next
  case (ok dev w1)
  from getNetBoxIPStatus_spec [OF assms(1), of "ts_IP dev" w1] obtain as st e w2 where
    s: "getNetBoxIPStatus nb (ts_IP dev) w1 = Some ((as, st, e), w2)" "v w2 = v w1" by blast
  from ok s GetTailscaleDevice_pure [OF assms(2) ok] show ?thesis by (simp add: tailscale_part_def cilium_pairs_def)
qed

lemma show_addresses_spec:
  assumes "ip_laws nb v matches" and "reads_pure nb k v"
  shows "\<exists>rows w'. show_addresses k ns nb names objs w = Some (rows, w') \<and> v w' = v w \<and>
    cilium_pairs rows = concat (map (\<lambda>o'. map (Pair (ObjectName k o')) (announced k o'))
      (filter (\<lambda>o'. clusterFilter names (ObjectName k o')) objs)) \<and>
    (\<forall>r \<in> set rows. ir_Source r = cilium_source \<longrightarrow> known_address (v w) matches r)"
proof (induction objs arbitrary: w)
  case Nil
  then show ?case by (simp add: cilium_pairs_def)
next
  case (Cons x xs)
  show ?case
  proof (cases "clusterFilter names (ObjectName k x)")
    case False
    with Cons show ?thesis by simp
  next
    case True
    from cilium_part_spec [OF assms(1), of k x w] obtain r1 w1 where
      c: "cilium_part k nb x w = Some (r1, w1)" "v w1 = v w"
      "cilium_pairs r1 = map (Pair (ObjectName k x)) (announced k x)" "\<forall>r \<in> set r1. known_address (v w) matches r" by blast
    from tailscale_part_spec [OF assms, of ns x w1] obtain r2 w2 where
      t: "tailscale_part k ns nb x w1 = Some (r2, w2)" "v w2 = v w1" "cilium_pairs r2 = []"
      "\<forall>r \<in> set r2. ir_Source r \<noteq> cilium_source" by blast
    from Cons [of w2] obtain r3 w3 where "show_addresses k ns nb names xs w2 = Some (r3, w3)" "v w3 = v w2"
      "cilium_pairs r3 = concat (map (\<lambda>o'. map (Pair (ObjectName k o')) (announced k o'))
         (filter (\<lambda>o'. clusterFilter names (ObjectName k o')) xs))"
      "\<forall>r \<in> set r3. ir_Source r = cilium_source \<longrightarrow> known_address (v w2) matches r" by blast
    with True c t show ?thesis by auto
  qed
qed

section \<open>Facts on endpoints\<close>

lemma primary_address_simps [simp]:
  "primary_address (Value a) ip = bip_Address a"
  "primary_address Null ip = []"
  "primary_address Unset (Value a) = bip_Address a"
  by (simp_all add: primary_address_def GetAddress_def)

lemma TrimRight_dot: "s \<noteq> [] \<Longrightarrow> last s \<noteq> c \<Longrightarrow> TrimRight (s @ [c]) c = s"
  by (cases "rev s") (auto simp: TrimRight_def hd_rev [symmetric])

definition plain_name :: "string \<Rightarrow> bool" where
  "plain_name s \<longleftrightarrow> s \<noteq> [] \<and> last s \<noteq> CHR ''.'' \<and> \<not> is_space (hd s)"

lemma plain_name_fqdn:
  assumes "plain_name s"
  shows "TrimRight (TrimSpace (s @ ''.'')) CHR ''.'' = s"
proof -
  have "TrimSpace (s @ ''.'') = s @ ''.''"
    using assms by (intro TrimSpace_id) (auto simp: plain_name_def is_space_def)
  then show ?thesis using assms TrimRight_dot [of s "CHR ''.''"] by (simp add: plain_name_def)
qed

lemma port_truncation:
  fixes n :: int64
  shows "uint (ucast n :: int32) = uint n mod 2 ^ 32"
    and "- (2 ^ 31) \<le> sint n \<Longrightarrow> sint n < 2 ^ 31 \<Longrightarrow> sint (ucast n :: int32) = sint n"
proof -
  show "uint (ucast n :: int32) = uint n mod 2 ^ 32" by (simp add: unsigned_ucast_eq take_bit_eq_mod)
  show "sint (ucast n :: int32) = sint n" if "- (2 ^ 31) \<le> sint n" "sint n < 2 ^ 31"
  proof -
    have range: "int32_range (sint n)" using that by (simp add: int32_range_def)
    have "ucast (word_of_int (sint n) :: int64) = (word_of_int (sint n) :: int32)"
      by (intro ucast_down_wi) (simp add: is_down)
    then have "(ucast n :: int32) = word_of_int (sint n)" by (simp only: of_int_sint scast_id)
    then show ?thesis by (simp only: sint_word_of_int32 [OF range])
  qed
qed

section \<open>Properties\<close>

text \<open>
  C34. The table of clusters: unless the listing of the clusters fails, \<open>Show\<close> answers one row per
  cluster of the listing, in its order, however many of the other calls fail; a row counts
  exactly the devices and machines it names, and its readiness is blank or one of three words,
  blank for every cluster that is not a managed one.
\<close>
theorem cluster_show_rows:
  assumes "VirtualizationClustersList nb (show_request names) w = (r, w1)"
    and "Cluster_Show k ns nb names w = (out, w')"
  shows "case r of
      Inl e \<Rightarrow> isl out
    | Inr p \<Rightarrow> (\<exists>rows. out = Inr rows \<and>
        (if Count p = 0 then rows = []
         else list_all2 (\<lambda>c row. row_Name row = cl_Name c \<and> row_Type row = cl_TypeSlug c \<and>
                row_DeviceCount row = length (row_Devices row) \<and>
                row_CAPIReady row \<in> {[], ''true'', ''false'', ''unknown''} \<and>
                (cl_TypeSlug c \<noteq> ''managed-kubernetes'' \<longrightarrow> row_CAPIReady row = []))
              (Results p) rows))"
proof (cases r)
  case (Inl e)
  with assms show ?thesis by (auto simp: Cluster_Show_def)
next
  case (Inr p)
  obtain rows w2 where rows: "show_clusters k ns nb (Results p) w1 = (rows, w2)" by fastforce
  have ok: "row_ok = (\<lambda>c row. row_Name row = cl_Name c \<and> row_Type row = cl_TypeSlug c \<and>
      row_DeviceCount row = length (row_Devices row) \<and> row_CAPIReady row \<in> {[], ''true'', ''false'', ''unknown''} \<and>
      (cl_TypeSlug c \<noteq> ''managed-kubernetes'' \<longrightarrow> row_CAPIReady row = []))"
    by (intro ext) (simp add: row_ok_def managedKubernetesClusterTypeSlug_def)
  show ?thesis
    using Inr assms rows show_clusters_ok [OF rows, unfolded ok]
    by (auto simp: Cluster_Show_def split: if_split_asm)
qed

theorem cluster_show_rows_witness:
  "\<exists>rows. fst (Cluster_Show mem_kube ''prod'' mem_netbox [] two_clusters) = Inr rows \<and>
     length rows = 2 \<and> (\<forall>row \<in> set rows. row_DeviceCount row = length (row_Devices row))"
proof -
  have "VirtualizationClustersList mem_netbox (show_request []) two_clusters =
      (Inr (page (m_clusters two_clusters)), two_clusters)" by code_simp
  from cluster_show_rows [OF this prod.collapse [symmetric], of mem_kube "''prod''"] obtain rows where
    rows: "fst (Cluster_Show mem_kube ''prod'' mem_netbox [] two_clusters) = Inr rows"
    and rel: "list_all2 (\<lambda>c row. row_Name row = cl_Name c \<and> row_Type row = cl_TypeSlug c \<and>
        row_DeviceCount row = length (row_Devices row) \<and> row_CAPIReady row \<in> {[], ''true'', ''false'', ''unknown''} \<and>
        (cl_TypeSlug c \<noteq> ''managed-kubernetes'' \<longrightarrow> row_CAPIReady row = [])) (m_clusters two_clusters) rows"
    using two_clusters_count by (auto simp: page_def)
  have "length (m_clusters two_clusters) = 2" by (simp add: two_clusters_def)
  with list_all2_lengthD [OF rel] have "length rows = 2" by simp
  moreover have "\<forall>row \<in> set rows. row_DeviceCount row = length (row_Devices row)"
    using list_all2_in_set2 [OF rel] by blast
  ultimately show ?thesis using rows by blast
qed

text \<open>
  The readiness of a managed cluster is read off the first condition that is an object of
  type Ready with a textual status; malformed conditions before it are passed over.
\<close>
lemma capi_readiness:
  "ready_condition cs =
     (case List.map_filter textual_ready cs of
        [] \<Rightarrow> []
      | s # _ \<Rightarrow> if s = ''True'' then ''true'' else if s = ''False'' then ''false'' else ''unknown'')"
  unfolding ready_condition_first readiness_def ..



text \<open>
  C36. The address of a Tailscale proxy goes through its state Secret unchanged: if the Secret of
  the first matching StatefulSet holds a JSON array of addresses and a fully qualified name with
  its final dot, the device that is read has the first address, the name without the dot, and is
  addressed by that name.
\<close>
theorem tailscale_device_roundtrip:
  assumes "ObjectList k statefulSetListGVK tailscaleNamespace
      [(tailscaleParentResourceLabel, name), (tailscaleParentResourceNsLabel, ns)] w = (Inr (ss # rest), w1)"
    and "SecretGet k tailscaleNamespace (ObjectName k ss @ ''-0'') w1 = (Inr secret, w2)"
    and "mget secret ''device_ips'' = json_array (ip # ips)" and "\<forall>s \<in> set (ip # ips). plain_text s"
    and "mget secret ''device_fqdn'' = fqdn @ ''.''" and "plain_name fqdn"
  shows "GetTailscaleDevice k name ns w = (Inr \<lparr>ts_IP = ip, ts_FQDN = fqdn\<rparr>, w2) \<and>
    ts_Address \<lparr>ts_IP = ip, ts_FQDN = fqdn\<rparr> = fqdn"
proof -
  have "json_array (ip # ips) \<noteq> []" by (simp add: json_array_def)
  moreover have "fqdn \<noteq> []" using assms(6) by (simp add: plain_name_def)
  ultimately show ?thesis
    using assms(1,2,3,5) UnmarshalStrings_array [OF assms(4)] plain_name_fqdn [OF assms(6)]
    by (simp add: GetTailscaleDevice_def Let_def ts_Address_def)
qed

definition tailnet :: mem where
  "tailnet = empty_mem\<lparr>m_objects := [\<lparr>mo_Gvk = statefulSetListGVK\<lparr>gvk_Kind := ''StatefulSet''\<rparr>, mo_Namespace = ''tailscale'',
       mo_Name = ''ts-c2'', mo_Labels = [(tailscaleParentResourceLabel, ''c2''), (tailscaleParentResourceNsLabel, ''prod'')],
       mo_Annotations = [], mo_Strings = [], mo_Ints = [], mo_Maps = [], mo_Slices = []\<rparr>],
     m_secrets := [((''tailscale'', ''ts-c2-0''),
       [(''device_ips'', json_array [''100.64.0.9'', ''fd7a::9'']), (''device_fqdn'', ''c2.tail.ts.net.'')])]\<rparr>"

theorem tailscale_device_roundtrip_witness:
  "GetTailscaleDevice mem_kube ''c2'' ''prod'' tailnet = (Inr \<lparr>ts_IP = ''100.64.0.9'', ts_FQDN = ''c2.tail.ts.net''\<rparr>, tailnet)"
proof -
  let ?secret = "[(''device_ips'', json_array [''100.64.0.9'', ''fd7a::9'']), (''device_fqdn'', ''c2.tail.ts.net.'')]"
  have list: "ObjectList mem_kube statefulSetListGVK tailscaleNamespace
      [(tailscaleParentResourceLabel, ''c2''), (tailscaleParentResourceNsLabel, ''prod'')] tailnet =
      (Inr (hd (m_objects tailnet) # []), tailnet)" by code_simp
  have secret: "SecretGet mem_kube tailscaleNamespace (ObjectName mem_kube (hd (m_objects tailnet)) @ ''-0'') tailnet =
      (Inr ?secret, tailnet)" by code_simp
  have plain: "\<forall>s \<in> set [''100.64.0.9'', ''fd7a::9'']. plain_text s" "plain_name ''c2.tail.ts.net''"
    by (code_simp, code_simp)
  show ?thesis
    using tailscale_device_roundtrip [OF list secret _ plain(1) _ plain(2)] by simp
qed

text \<open>
  The endpoint of a standalone cluster is the primary IPv4 address of its first head node,
  without its prefix length, at the default port. A head node that NetBox returns with a null
  IPv4 address is refused, even when it has a primary IPv6 address: the fallback to the primary
  address is reached only if the field is missing from the answer.
\<close>
lemma headnode_endpoint:
  assumes "DcimDevicesList nb (headnode_devices i) w = (Inr p, w1)" and "Count p > 0" and "Results p = d # ds"
    and "host \<noteq> []" and "CHR ''/'' \<notin> set host"
  shows "(dev_PrimaryIp4 d = Value ip4 \<longrightarrow> bip_Address ip4 = host @ CHR ''/'' # len \<longrightarrow>
            getHeadnodeEndpoint nb i w = Some (Inr (host, 6443), w1)) \<and>
         (dev_PrimaryIp4 d = Null \<longrightarrow> (\<exists>e. getHeadnodeEndpoint nb i w = Some (Inl e, w1))) \<and>
         (dev_PrimaryIp4 d = Unset \<longrightarrow> dev_PrimaryIp d = Value ip4 \<longrightarrow> bip_Address ip4 = host @ CHR ''/'' # len \<longrightarrow>
            getHeadnodeEndpoint nb i w = Some (Inr (host, 6443), w1))"
  using assms by (simp add: getHeadnodeEndpoint_def Let_def takeWhile_sep defaultControlPlanePort_def)

text \<open>
  The port of a managed cluster's endpoint: absent, unreadable or zero it is the default
  port; otherwise it is the port of the CAPI object as long as that fits 32 bits, and the number
  modulo 2 to the 32 beyond, which can be zero.
\<close>
lemma capi_endpoint_port:
  assumes "ObjectGet k capiClusterGVK ns name w = (Inr c, w1)"
    and "NestedInt64 k c [''spec'', ''controlPlaneEndpoint'', ''port''] = port"
    and "getCAPIClusterEndpoint k ns name w = (Inr (host, p), w')"
  shows "case port of
      Inr (Some n) \<Rightarrow>
        if n = 0 then p = 6443
        else uint p = uint n mod 2 ^ 32 \<and> (- (2 ^ 31) \<le> sint n \<and> sint n < 2 ^ 31 \<longrightarrow> sint p = sint n)
    | _ \<Rightarrow> p = 6443"
  using assms port_truncation
  by (auto simp: getCAPIClusterEndpoint_def Let_def defaultControlPlanePort_def
      split: sum.split option.split if_split_asm)

end
