(* ===== verification/Go_Time.thy ===== *)
theory Go_Time
  imports Go_Strconv
begin

text \<open>
  \<open>time.ParseDuration\<close>: a duration is a number of nanoseconds of the 64-bit range, written as a
  sequence of decimal numbers with units. The fraction of a number is multiplied in binary
  floating point, which is modelled exactly: a positive float is a fraction of two integers,
  rounded to 53 significant bits, ties to even.
\<close>

section \<open>Floating point\<close>

definition round_even :: "int \<Rightarrow> int \<Rightarrow> int" where
  "round_even n d =
     (let q = n div d; r = n mod d in if 2 * r < d \<or> (2 * r = d \<and> even q) then q else q + 1)"

function fl :: "int \<Rightarrow> int \<Rightarrow> int \<times> int" where
  "fl n d =
     (if n \<le> 0 \<or> d \<le> 0 then (0, 1)
      else if n < 2 ^ 52 * d then (case fl (2 * n) d of (a, b) \<Rightarrow> (a, 2 * b))
      else if 2 ^ 53 * d \<le> n then (case fl n (2 * d) of (a, b) \<Rightarrow> (2 * a, b))
      else (round_even n d, 1))"
  by pat_completeness auto
termination
  by (relation "measures [\<lambda>(n, d). if n < 2 ^ 52 * d then 1 else 0,
      \<lambda>(n, d). if n < 2 ^ 52 * d then nat (2 ^ 52 * d - n) else nat (n - 2 ^ 52 * d)]") auto

declare fl.simps [simp del]

text \<open>\<open>uint64(float64(f) * (float64(unit) / scale))\<close>\<close>

definition fraction_ns :: "int \<Rightarrow> int \<Rightarrow> int \<times> int \<Rightarrow> int" where
  "fraction_ns f unit scale =
     (case fl f 1 of (an, ad) \<Rightarrow>
      case fl (unit * snd scale) (fst scale) of (bn, bd) \<Rightarrow>
      case fl (an * bn) (ad * bd) of (pn, pd) \<Rightarrow> pn div pd)"

section \<open>Numbers and units\<close>

text \<open>\<open>leadingInt\<close>: \<open>None\<close> is the overflow; the rest of the text is what follows the digits.\<close>

fun leadingInt :: "int \<Rightarrow> string \<Rightarrow> (int \<times> string) option" where
  "leadingInt x [] = Some (x, [])"
| "leadingInt x (c # s) =
     (if \<not> is_digit c then Some (x, c # s)
      else if x > 2 ^ 63 div 10 then None
      else let x' = x * 10 + int (digit_val c) in if x' > 2 ^ 63 then None else leadingInt x' s)"

text \<open>\<open>leadingFraction\<close>: the digits that no longer fit are skipped.\<close>

fun leadingFraction :: "int \<Rightarrow> int \<times> int \<Rightarrow> bool \<Rightarrow> string \<Rightarrow> int \<times> (int \<times> int) \<times> string" where
  "leadingFraction x scale overflow [] = (x, scale, [])"
| "leadingFraction x scale overflow (c # s) =
     (if \<not> is_digit c then (x, scale, c # s)
      else if overflow then leadingFraction x scale True s
      else if x > (2 ^ 63 - 1) div 10 then leadingFraction x scale True s
      else let y = x * 10 + int (digit_val c) in
        if y > 2 ^ 63 then leadingFraction x scale True s
        else leadingFraction y (fl (fst scale * 10) (snd scale)) False s)"

definition unitMap :: "(string \<times> int) list" where
  "unitMap =
     [(''ns'', 1), (''us'', 1000), ([CHR 0xC2, CHR 0xB5, CHR ''s''], 1000), ([CHR 0xCE, CHR 0xBC, CHR ''s''], 1000),
      (''ms'', 1000000), (''s'', 1000000000), (''m'', 60000000000), (''h'', 3600000000000)]"

definition starts_number :: "char \<Rightarrow> bool" where
  "starts_number c \<longleftrightarrow> c = CHR ''.'' \<or> is_digit c"

text \<open>The optional fraction after the digits: its digits, its scale, what follows, and whether it has a digit.\<close>

definition fraction_part :: "string \<Rightarrow> int \<times> (int \<times> int) \<times> string \<times> bool" where
  "fraction_part s =
     (if s \<noteq> [] \<and> hd s = CHR ''.'' then
        (case leadingFraction 0 (1, 1) False (tl s) of (f, scale, r) \<Rightarrow> (f, scale, r, length r \<noteq> length (tl s)))
      else (0, (1, 1), s, False))"

lemma leadingFraction_le: "leadingFraction x sc ov s = (f, sc', r) \<Longrightarrow> length r \<le> length s"
  by (induction x sc ov s rule: leadingFraction.induct) (auto simp: Let_def le_SucI split: if_splits)

lemma leadingInt_le: "leadingInt x s = Some (y, r) \<Longrightarrow> length r \<le> length s"
  by (induction x s rule: leadingInt.induct) (auto simp: Let_def le_SucI split: if_splits)

lemma fraction_part_le: "fraction_part s = (f, sc, r, post) \<Longrightarrow> length r \<le> length s"
  by (cases s) (auto simp: fraction_part_def dest: leadingFraction_le split: prod.split_asm if_split_asm)

text \<open>
  One turn of the loop: a number with its unit, as nanoseconds, and the rest of the text. \<open>None\<close>
  stands for every error (the caller only tests for one).
\<close>

definition parse_unit :: "string \<Rightarrow> (int \<times> string) option" where
  "parse_unit s =
     (if \<not> starts_number (hd s) then None
      else case leadingInt 0 s of
        None \<Rightarrow> None
      | Some (v, s1) \<Rightarrow>
          (case fraction_part s1 of (f, scale, s2, post) \<Rightarrow>
             if length s1 = length s \<and> \<not> post then None
             else if takeWhile (\<lambda>c. \<not> starts_number c) s2 = [] then None
             else case map_of unitMap (takeWhile (\<lambda>c. \<not> starts_number c) s2) of
               None \<Rightarrow> None
             | Some unit \<Rightarrow>
                 if v > 2 ^ 63 div unit then None
                 else if f > 0 \<and> v * unit + fraction_ns f unit scale > 2 ^ 63 then None
                 else Some (v * unit + (if f > 0 then fraction_ns f unit scale else 0),
                        dropWhile (\<lambda>c. \<not> starts_number c) s2)))"

lemma parse_unit_shorter:
  assumes "parse_unit s = Some (v, r)"
  shows "length r < length s"
proof -
  from assms obtain x s1 f sc s2 post where i: "leadingInt 0 s = Some (x, s1)"
    and f: "fraction_part s1 = (f, sc, s2, post)" and r: "r = dropWhile (\<lambda>c. \<not> starts_number c) s2"
    and ne: "takeWhile (\<lambda>c. \<not> starts_number c) s2 \<noteq> []"
    by (auto simp: parse_unit_def split: if_split_asm option.split_asm prod.split_asm)
  have "length r < length s2" using ne r by (cases s2) (auto simp: length_dropWhile_le le_imp_less_Suc split: if_split_asm)
  with leadingInt_le [OF i] fraction_part_le [OF f] show ?thesis by simp
qed

function parse_units :: "int \<Rightarrow> string \<Rightarrow> int option" where
  "parse_units d s =
     (if s = [] then Some d
      else case parse_unit s of
        None \<Rightarrow> None
      | Some (v, rest) \<Rightarrow> if d + v > 2 ^ 63 then None else parse_units (d + v) rest)"
  by pat_completeness auto
termination
  by (relation "measure (\<lambda>(d, s). length s)") (auto dest: parse_unit_shorter)

declare parse_units.simps [simp del]

definition ParseDuration :: "string \<Rightarrow> int option" where
  "ParseDuration s =
     (let signed = s \<noteq> [] \<and> (hd s = CHR ''-'' \<or> hd s = CHR ''+'');
          neg = signed \<and> hd s = CHR ''-'';
          s = (if signed then tl s else s)
      in if s = ''0'' then Some 0
         else if s = [] then None
         else case parse_units 0 s of
                None \<Rightarrow> None
              | Some d \<Rightarrow> if neg then Some (- d) else if d > 2 ^ 63 - 1 then None else Some d)"

definition Minute :: int where
  "Minute = 60000000000"

section \<open>Facts\<close>

lemma fl_nonneg: "0 \<le> fst (fl n d) \<and> 0 < snd (fl n d)"
proof (induction n d rule: fl.induct)
  case (1 n d)
  have "0 \<le> round_even n d" if "0 < n" "0 < d"
    using that by (simp add: round_even_def Let_def pos_imp_zdiv_nonneg_iff add_nonneg_nonneg)
  with 1 show ?case by (subst (1 2) fl.simps) (auto split: prod.split)
qed

lemma fraction_ns_nonneg: "0 \<le> fraction_ns f unit scale"
  unfolding fraction_ns_def using fl_nonneg
  by (auto split: prod.split) (metis fst_conv pos_imp_zdiv_nonneg_iff snd_conv)

lemma leadingInt_nonneg: "0 \<le> x \<Longrightarrow> leadingInt x s = Some (y, r) \<Longrightarrow> 0 \<le> y"
  by (induction x s rule: leadingInt.induct) (auto simp: Let_def split: if_split_asm)

lemma unitMap_pos: "map_of unitMap u = Some n \<Longrightarrow> 0 < n"
  by (auto simp: unitMap_def split: if_split_asm)

lemma parse_unit_nonneg: "parse_unit s = Some (v, r) \<Longrightarrow> 0 \<le> v"
  by (auto simp: parse_unit_def fraction_ns_nonneg split: if_split_asm option.split_asm prod.split_asm
      dest!: leadingInt_nonneg [OF order_refl] unitMap_pos)

lemma parse_units_range: "0 \<le> d \<Longrightarrow> d \<le> 2 ^ 63 \<Longrightarrow> parse_units d s = Some r \<Longrightarrow> 0 \<le> r \<and> r \<le> 2 ^ 63"
proof (induction d s rule: parse_units.induct)
  case (1 d s)
  show ?case
  proof (cases "s = []")
    case True
    with "1.prems" show ?thesis by (simp add: parse_units.simps)
  next
    case False
    with "1.prems"(3) obtain v rest where u: "parse_unit s = Some (v, rest)" and le: "\<not> d + v > 2 ^ 63"
      and run: "parse_units (d + v) rest = Some r"
      by (subst (asm) parse_units.simps) (auto split: if_split_asm option.split_asm)
    from parse_unit_nonneg [OF u] "1.prems"(1) have "0 \<le> d + v" by simp
    with False u le run show ?thesis by (intro "1.IH" [of "(v, rest)" v rest]) simp_all
  qed
qed

text \<open>A duration that is accepted is a 64-bit number of nanoseconds.\<close>

lemma ParseDuration_range: "ParseDuration s = Some d \<Longrightarrow> - (2 ^ 63) \<le> d \<and> d < 2 ^ 63"
  using parse_units_range [of 0 "if s \<noteq> [] \<and> (hd s = CHR ''-'' \<or> hd s = CHR ''+'') then tl s else s"]
  by (auto simp: ParseDuration_def Let_def split: if_split_asm option.split_asm)

text \<open>A number of seconds, as it is printed, is read back.\<close>

lemma leadingInt_digits:
  assumes "\<forall>c \<in> set ds. is_digit c" and "rest \<noteq> []" and "\<not> is_digit (hd rest)" and "0 \<le> x"
    and "foldl (\<lambda>n c. n * 10 + int (digit_val c)) x ds \<le> 2 ^ 63"
  shows "leadingInt x (ds @ rest) = Some (foldl (\<lambda>n c. n * 10 + int (digit_val c)) x ds, rest)"
  using assms(1,4,5)
proof (induction ds arbitrary: x)
  case Nil
  with assms(2,3) show ?case by (cases rest) auto
next
  case (Cons c ds)
  let ?y = "x * 10 + int (digit_val c)"
  have mono: "y \<le> foldl (\<lambda>n c. n * 10 + int (digit_val c)) y es" if "0 \<le> y" for y es
    using that
  proof (induction es arbitrary: y)
    case (Cons e es)
    from Cons.IH [of "y * 10 + int (digit_val e)"] Cons.prems show ?case by simp
  qed simp
  have "0 \<le> ?y" using Cons.prems(2) by simp
  from mono [OF this, of ds] Cons.prems(3) have y: "?y \<le> 2 ^ 63" by simp
  then have "x \<le> 2 ^ 63 div 10" by simp
  with Cons y show ?case by (simp add: Let_def)
qed

lemma digits_val_int: "foldl (\<lambda>n c. n * 10 + int (digit_val c)) (int x) ds = int (foldl (\<lambda>n c. 10 * n + digit_val c) x ds)"
proof (induction ds arbitrary: x)
  case (Cons c ds)
  from Cons [of "10 * x + digit_val c"] show ?case by (simp add: mult.commute)
qed simp

lemma ParseDuration_seconds:
  assumes "int n * 1000000000 < 2 ^ 63"
  shows "ParseDuration (Utoa n @ ''s'') = Some (int n * 1000000000)"
proof -
  let ?s = "Utoa n @ ''s''"
  have "foldl (\<lambda>n c. n * 10 + int (digit_val c)) 0 (Utoa n) = int n"
    using digits_val_int [of 0 "Utoa n"] digits_val_Utoa [of n] by (simp add: digits_val_def)
  then have li: "leadingInt 0 ?s = Some (int n, ''s'')"
    using leadingInt_digits [of "Utoa n" "''s''" 0] Utoa_digits [of n] assms by (simp add: is_digit_def)
  have hd: "is_digit (hd ?s)" using hd_Utoa [of n] by simp
  then have "starts_number (hd ?s)" by (simp add: starts_number_def)
  moreover have "fraction_part ''s'' = (0, (1, 1), ''s'', False)" by (simp add: fraction_part_def)
  moreover have "takeWhile (\<lambda>c. \<not> starts_number c) ''s'' = ''s''" "dropWhile (\<lambda>c. \<not> starts_number c) ''s'' = []"
    by (simp_all add: starts_number_def is_digit_def)
  moreover have "map_of unitMap ''s'' = Some 1000000000" by (simp add: unitMap_def)
  ultimately have u: "parse_unit ?s = Some (int n * 1000000000, [])"
    using li assms by (simp add: parse_unit_def)
  have "parse_units 0 ?s = Some (int n * 1000000000)"
    using u assms by (subst parse_units.simps) (simp add: parse_units.simps [of _ "[]"])
  moreover have "hd ?s \<noteq> CHR ''-''" "hd ?s \<noteq> CHR ''+''" using hd not_is_digit_sign by metis+
  moreover have "?s \<noteq> ''0''" by (cases "Utoa n") auto
  ultimately show ?thesis using assms by (simp add: ParseDuration_def)
qed

end
