(* ===== verification/Controller_Config.thy ===== *)
theory Controller_Config
  imports Go_Time Kube_API Common_NetBox
begin

text \<open>
  What the two controllers share: the result of a reconciliation and the contract of a configuration
  that is reloaded from a ConfigMap and a Secret.

  A configuration is guarded by a mutex; its methods are atomic steps on a record. The client
  that \<open>netbox.NewAPIClientFor\<close> makes is the value of a parameter, applied to the endpoint and
  the token.
\<close>

section \<open>Reconciliation results\<close>

record ctrl_Result =
  Requeue :: bool
  RequeueAfter :: int

definition no_requeue :: ctrl_Result where
  "no_requeue = \<lparr>Requeue = False, RequeueAfter = 0\<rparr>"

definition IgnoreNotFound :: "go_error \<Rightarrow> go_error option" where
  "IgnoreNotFound err = (if IsNotFound err then None else Some err)"

type_synonym reconciled = "ctrl_Result \<times> go_error option"

section \<open>The contract of a reloadable configuration\<close>

text \<open>
  Both sources are read before anything is applied. The contract says when the client is rebuilt
  and that a configuration invariant is kept; it gives the behaviour of any sequence of reloads.
\<close>

locale reloadable =
  fixes cm_name :: string and secret_name :: string
    and endpoint_of :: "string_map \<Rightarrow> string"
    and make :: "string \<Rightarrow> string \<Rightarrow> 'c"
    and apply_sources :: "string_map \<Rightarrow> string_map \<Rightarrow> 'cfg \<Rightarrow> 'cfg"
    and current_client :: "'cfg \<Rightarrow> 'c option"
    and inv :: "'cfg \<Rightarrow> bool"
    and boot :: "('w, 'o) kube \<Rightarrow> string \<Rightarrow> 'cfg \<Rightarrow> 'w \<Rightarrow> unit result \<times> 'cfg \<times> 'w"
    and reload :: "('w, 'o) kube \<Rightarrow> string \<Rightarrow> 'cfg \<Rightarrow> 'w \<Rightarrow> reconciled \<times> 'cfg \<times> 'w"
  assumes inv_apply: "inv (apply_sources cm s c)"
    and client_apply: "current_client (apply_sources cm s c) =
      (if mget s ''netbox_token'' \<noteq> [] then Some (make (endpoint_of cm) (mget s ''netbox_token''))
       else current_client c)"
    and boot_reads: "boot k ns c w =
      (case ConfigMapGet k ns cm_name w of
         (Inl e, w) \<Rightarrow> (Inl (Wrapf (''cannot read ConfigMap '' @ ns @ ''/'' @ cm_name @ '': '') e), c, w)
       | (Inr cm, w) \<Rightarrow>
           (case SecretGet k ns secret_name w of
              (Inl e, w) \<Rightarrow> (Inl (Wrapf (''cannot read Secret '' @ ns @ ''/'' @ secret_name @ '': '') e), c, w)
            | (Inr s, w) \<Rightarrow> (Inr (), apply_sources cm s c, w)))"
    and reload_reads: "reload k ns c w =
      (case ConfigMapGet k ns cm_name w of
         (Inl e, w) \<Rightarrow> ((no_requeue, IgnoreNotFound e), c, w)
       | (Inr cm, w) \<Rightarrow>
           (case SecretGet k ns secret_name w of
              (Inl e, w) \<Rightarrow> ((no_requeue, IgnoreNotFound e), c, w)
            | (Inr s, w) \<Rightarrow> ((no_requeue, None), apply_sources cm s c, w)))"
begin

text \<open>A reload is all or nothing: the configuration is that of the two sources, or it is the old one.\<close>

lemma reload_cases:
  assumes "reload k ns c w = ((res, err), c', w')"
  obtains (kept) "c' = c"
  | (applied) cm s w1 where "ConfigMapGet k ns cm_name w = (Inr cm, w1)" "SecretGet k ns secret_name w1 = (Inr s, w')"
      "c' = apply_sources cm s c" "err = None"
proof (cases "ConfigMapGet k ns cm_name w" rule: call_cases)
  case (err e w1)
  with assms kept show ?thesis by (simp add: reload_reads)
next
  case (ok cm w1)
  with assms kept applied show ?thesis
    by (cases "SecretGet k ns secret_name w1" rule: call_cases) (auto simp: reload_reads)
qed

lemma reload_result:
  assumes "reload k ns c w = ((res, err), c', w')"
  shows "res = no_requeue" and "\<And>e. err = Some e \<Longrightarrow> c' = c \<and> \<not> IsNotFound e"
proof -
  have "res = no_requeue \<and> (\<forall>e. err = Some e \<longrightarrow> c' = c \<and> \<not> IsNotFound e)"
  proof (cases "ConfigMapGet k ns cm_name w" rule: call_cases)
    case (err e w1)
    with assms show ?thesis by (auto simp: reload_reads IgnoreNotFound_def split: if_split_asm)
  next
    case (ok cm w1)
    with assms show ?thesis
      by (cases "SecretGet k ns secret_name w1" rule: call_cases)
        (auto simp: reload_reads IgnoreNotFound_def split: if_split_asm)
  qed
  then show "res = no_requeue" and "\<And>e. err = Some e \<Longrightarrow> c' = c \<and> \<not> IsNotFound e" by auto
qed

lemma inv_reload: "reload k ns c w = (out, c', w') \<Longrightarrow> inv c \<Longrightarrow> inv c'"
  by (cases out) (auto elim: reload_cases simp: inv_apply)

lemma inv_boot: "boot k ns c w = (out, c', w') \<Longrightarrow> inv c \<Longrightarrow> inv c'"
  by (auto simp: boot_reads inv_apply split: prod.split_asm sum.split_asm)

text \<open>A view of the world that the two reads keep is kept by the boot.\<close>

lemma boot_view:
  assumes "\<And>w. v (snd (ConfigMapGet k ns cm_name w)) = v w" and "\<And>w. v (snd (SecretGet k ns secret_name w)) = v w"
  shows "v (snd (snd (boot k ns c w))) = v w"
  using assms(1) [of w] assms(2) by (auto simp: boot_reads split: prod.split sum.split) (metis snd_conv)+

text \<open>A client that was built once stays: it is replaced by another one, never dropped.\<close>

definition made :: "'cfg \<Rightarrow> bool" where
  "made c \<longleftrightarrow> (\<forall>x. current_client c = Some x \<longrightarrow> (\<exists>ep tok. tok \<noteq> [] \<and> x = make ep tok))"

lemma made_apply: "made c \<Longrightarrow> made (apply_sources cm s c)"
  by (auto simp: made_def client_apply)

lemma client_kept_apply: "current_client c \<noteq> None \<Longrightarrow> current_client (apply_sources cm s c) \<noteq> None"
  by (simp add: client_apply)

lemma reload_client:
  assumes "reload k ns c w = (out, c', w')"
  shows "made c \<Longrightarrow> made c'" and "current_client c \<noteq> None \<Longrightarrow> current_client c' \<noteq> None"
proof -
  obtain res err where "out = (res, err)" by fastforce
  with assms have r: "reload k ns c w = ((res, err), c', w')" by simp
  show "made c \<Longrightarrow> made c'" using r by (cases rule: reload_cases) (auto simp: made_apply)
  show "current_client c \<noteq> None \<Longrightarrow> current_client c' \<noteq> None"
    using r by (cases rule: reload_cases) (auto simp: client_apply)
qed

text \<open>The boot and the first reload do the same thing.\<close>

lemma boot_as_reload: "snd (boot k ns c w) = snd (reload k ns c w)"
  by (auto simp: boot_reads reload_reads split: prod.split sum.split)

end

end
