(* ===== verification/Controller_Process.thy ===== *)
theory Controller_Process
  imports Controller_Config
begin

text \<open>
  The process of a controller: the settings it takes from its environment, the set-up of tracing,
  the registration of the reconcilers, the run of the manager and the end of the process. The
  manager of controller-runtime and the tracing library are parameters. The contract
  \<open>controller_process\<close> is the shape of both \<open>main\<close> functions.
\<close>

section \<open>Start-up (controllers/*/main.go)\<close>

text \<open>\<open>strconv.Atoi\<close>: as \<open>ParseInt\<close>, on 64 bits.\<close>

definition Atoi :: "string \<Rightarrow> int option" where
  "Atoi s =
     (let signed = s \<noteq> [] \<and> (hd s = CHR ''-'' \<or> hd s = CHR ''+'');
          neg = signed \<and> hd s = CHR ''-'';
          body = (if signed then tl s else s)
      in case ParseUint body of
           None \<Rightarrow> None
         | Some n \<Rightarrow>
             (let i = (if neg then - int n else int n)
              in if - (2 ^ 63) \<le> i \<and> i < 2 ^ 63 then Some i else None))"

text \<open>The argument of \<open>runtime.GOMAXPROCS\<close>, if it is called.\<close>

definition autotuneMaxProcs :: "string_map \<Rightarrow> int option" where
  "autotuneMaxProcs env =
     (let v = mget env ''LIMITS_CPU''
      in if v = [] then None
         else case Atoi v of
                None \<Rightarrow> None
              | Some n \<Rightarrow> if n \<le> 0 then None else Some n)"

definition controller_namespace :: "string_map \<Rightarrow> string" where
  "controller_namespace env =
     (if mget env ''CONTROLLER_NAMESPACE'' = [] then ''default'' else mget env ''CONTROLLER_NAMESPACE'')"

definition leaderElect :: "string_map \<Rightarrow> bool" where
  "leaderElect env \<longleftrightarrow> mget env ''LEADER_ELECT'' \<noteq> ''false''"

text \<open>
  The manager of controller-runtime, as the two processes use it: \<open>None\<close> is success. \<open>Start\<close> runs
  the registered reconcilers until the process is told to stop.
\<close>

datatype reconciler = ConfigReconciler | HardwareReconciler | ClusterReconciler | NetBoxSyncReconciler

record 'w manager =
  NewManager :: "string \<Rightarrow> bool \<Rightarrow> go_error option"
  SetupWithManager :: "reconciler \<Rightarrow> go_error option"
  AddHealthzCheck :: "go_error option"
  AddReadyzCheck :: "go_error option"
  Start :: "reconciler list \<Rightarrow> 'w \<Rightarrow> go_error option \<times> 'w"

text \<open>Registering reconcilers in order: the first failure ends the process with code 1.\<close>

fun register :: "'w manager \<Rightarrow> reconciler list \<Rightarrow> bool" where
  "register mgr [] = True"
| "register mgr (r # rs) = (SetupWithManager mgr r = None \<and> register mgr rs)"

text \<open>The exit code of the end of \<open>main\<close>: the checks and the run of the manager.\<close>

definition serve :: "'w manager \<Rightarrow> reconciler list \<Rightarrow> 'w \<Rightarrow> nat \<times> 'w" where
  "serve mgr rs w =
     (if AddHealthzCheck mgr \<noteq> None then (1, w)
      else if AddReadyzCheck mgr \<noteq> None then (1, w)
      else case Start mgr rs w of
             (Some err, w) \<Rightarrow> (1, w)
           | (None, w) \<Rightarrow> (0, w))"

section \<open>Tracing (otel.go and its use in main.go)\<close>

text \<open>
  The tracing library: the exporter for an endpoint, the resource that names the service, the
  provider made of the two, the global provider, and the end of a provider.
\<close>

record ('w, 'e, 'r, 't) otel_library =
  otlptracegrpc_New :: "string \<Rightarrow> ('w, 'e) call"
  resource_New :: "string \<Rightarrow> ('w, 'r) call"
  NewTracerProvider :: "'e \<Rightarrow> 'r \<Rightarrow> 't"
  SetTracerProvider :: "'t \<Rightarrow> 'w \<Rightarrow> 'w"
  Shutdown :: "'t \<Rightarrow> 'w \<Rightarrow> go_error option \<times> 'w"

text \<open>The provider whose shutdown is deferred, if there is one; an error of \<open>InitOtel\<close> is only logged.\<close>

definition start_tracing :: "('w, 't option) call \<Rightarrow> bool \<Rightarrow> 'w \<Rightarrow> 't option \<times> 'w" where
  "start_tracing InitOtel enabled w =
     (if enabled then
        (case InitOtel w of
           (Inl otelErr, w) \<Rightarrow> (None, w)
         | (Inr shutdown, w) \<Rightarrow> (shutdown, w))
      else (None, w))"

text \<open>The deferred call.\<close>

definition stop_tracing :: "('w, 'e, 'r, 't) otel_library \<Rightarrow> 't option \<Rightarrow> 'w \<Rightarrow> 'w" where
  "stop_tracing lib shutdown w = (case shutdown of None \<Rightarrow> w | Some tp \<Rightarrow> snd (Shutdown lib tp w))"

text \<open>The rest of \<open>main\<close>: \<open>os.Exit\<close> does not run the deferred call, the end of \<open>main\<close> does.\<close>

definition run_process ::
  "('w, 'e, 'r, 't) otel_library \<Rightarrow> 't option \<Rightarrow> 'w manager \<Rightarrow> reconciler list \<Rightarrow> 'w \<Rightarrow> nat \<times> bool \<times> 'w" where
  "run_process lib shutdown mgr rs w =
     (if register mgr rs then
        (case serve mgr rs w of (code, w) \<Rightarrow> (code, True, if code = 0 then stop_tracing lib shutdown w else w))
      else (1, False, w))"

section \<open>Facts\<close>

lemma register_iff: "register mgr rs \<longleftrightarrow> (\<forall>r \<in> set rs. SetupWithManager mgr r = None)"
  by (induction rs) auto

lemma Atoi_Utoa: "int n < 2 ^ 63 \<Longrightarrow> Atoi (Utoa n) = Some (int n)"
proof -
  have "hd (Utoa n) \<noteq> CHR ''-''" and "hd (Utoa n) \<noteq> CHR ''+''"
    using hd_Utoa [of n] not_is_digit_sign by metis+
  then show "int n < 2 ^ 63 \<Longrightarrow> ?thesis" by (simp add: Atoi_def)
qed

section \<open>The contract of a controller process\<close>

text \<open>
  What the library documents: setting a provider makes it live, its shutdown ends it whether or not
  an error is reported, and making exporters and resources does neither.
\<close>

definition otel_laws :: "('w, 'e, 'r, 't) otel_library \<Rightarrow> ('w \<Rightarrow> 't set) \<Rightarrow> bool" where
  "otel_laws lib live \<longleftrightarrow>
     (\<forall>ep w r w'. otlptracegrpc_New lib ep w = (r, w') \<longrightarrow> live w' = live w) \<and>
     (\<forall>name w r w'. resource_New lib name w = (r, w') \<longrightarrow> live w' = live w) \<and>
     (\<forall>tp w. live (SetTracerProvider lib tp w) = insert tp (live w)) \<and>
     (\<forall>tp w r w'. Shutdown lib tp w = (r, w') \<longrightarrow> live w' = live w - {tp})"

lemma otel_lawsD:
  assumes "otel_laws lib live"
  shows "otlptracegrpc_New lib ep w = (r1, w') \<Longrightarrow> live w' = live w"
    and "resource_New lib name w = (r2, w') \<Longrightarrow> live w' = live w"
    and "live (SetTracerProvider lib tp w) = insert tp (live w)"
    and "live (snd (Shutdown lib tp w)) = live w - {tp}"
  using assms unfolding otel_laws_def by (blast, blast, blast, metis prod.collapse)

lemma stop_tracing_live: "otel_laws lib live \<Longrightarrow> live (stop_tracing lib tp w) = live w - set_option tp"
  by (cases tp) (simp_all add: stop_tracing_def otel_lawsD(4))

lemma serve_live:
  assumes "\<And>rs w. live (snd (Start mgr rs w)) = live w" and "serve mgr rs w = (code, w')"
  shows "live w' = live w \<and> (code = 0 \<or> code = 1)"
  using assms(2) assms(1) [of rs w]
  by (auto simp: serve_def split: if_split_asm prod.split_asm option.split_asm)

locale controller_process =
  fixes service :: string
    and init :: "('w, 'e, 'r, 't) otel_library \<Rightarrow> string \<Rightarrow> ('w, 't option) call"
    and boot :: "('w, 'o) kube \<Rightarrow> string \<Rightarrow> 'w \<Rightarrow> unit result \<times> 'cfg \<times> 'w"
    and otel_on :: "'cfg \<Rightarrow> bool"
    and otel_to :: "'cfg \<Rightarrow> string"
    and reconcilers :: "'cfg \<Rightarrow> reconciler list"
    and main :: "('w, 'e, 'r, 't) otel_library \<Rightarrow> 'w manager \<Rightarrow> string_map \<Rightarrow> ('w, 'o) kube \<Rightarrow> 'w \<Rightarrow>
      nat \<times> ('cfg \<times> reconciler list) option \<times> 'w"
  assumes init_eq: "init lib endpoint w =
      (if endpoint = [] then (Inr None, w)
       else case otlptracegrpc_New lib endpoint w of
              (Inl e, w) \<Rightarrow> (Inl (Wrapf (''cannot create OTEL trace exporter for '' @ endpoint @ '': '') e), w)
            | (Inr exporter, w) \<Rightarrow>
                (case resource_New lib service w of
                   (Inl e, w) \<Rightarrow> (Inl (Wrapf ''cannot create OTEL resource: '' e), w)
                 | (Inr res, w) \<Rightarrow>
                     let tp = NewTracerProvider lib exporter res in (Inr (Some tp), SetTracerProvider lib tp w)))"
    and main_eq: "main lib mgr env k w =
      (let namespace = controller_namespace env in
       if NewManager mgr namespace (leaderElect env) \<noteq> None then (1, None, w)
       else
         let (booted, cfg, w) = boot k namespace w;
             (shutdown, w) = start_tracing (init lib (otel_to cfg)) (otel_on cfg) w;
             (code, running, w) = run_process lib shutdown mgr (reconcilers cfg) w
         in (code, if running then Some (cfg, reconcilers cfg) else None, w))"
begin

text \<open>A provider is live after the set-up exactly if there is one to shut down.\<close>

lemma init_live:
  assumes "otel_laws lib live" and "init lib endpoint w = (r, w')"
  shows "live w' = live w \<union> (case r of Inl e \<Rightarrow> {} | Inr tp \<Rightarrow> set_option tp)"
    and "r = Inr (Some tp) \<Longrightarrow> endpoint \<noteq> []"
  using assms(2) otel_lawsD(1-3) [OF assms(1)]
  by (auto simp: init_eq Let_def split: if_split_asm prod.split_asm sum.split_asm)

lemma start_live:
  assumes "otel_laws lib live" and "start_tracing (init lib endpoint) on w = (tp, w')"
  shows "live w' = live w \<union> set_option tp" and "tp \<noteq> None \<Longrightarrow> on \<and> endpoint \<noteq> []"
proof -
  obtain r w1 where i: "init lib endpoint w = (r, w1)" by fastforce
  show "live w' = live w \<union> set_option tp" and "tp \<noteq> None \<Longrightarrow> on \<and> endpoint \<noteq> []"
    using assms(2) i init_live [OF assms(1) i] by (auto simp: start_tracing_def split: if_split_asm sum.split_asm)
qed

text \<open>The part of \<open>main\<close> after the creation of the manager.\<close>

lemma main_parts:
  assumes "main lib mgr env k w = (code, run, w')" and "NewManager mgr (controller_namespace env) (leaderElect env) = None"
  obtains booted cfg w1 tp w2 running where "boot k (controller_namespace env) w = (booted, cfg, w1)"
    "start_tracing (init lib (otel_to cfg)) (otel_on cfg) w1 = (tp, w2)"
    "run_process lib tp mgr (reconcilers cfg) w2 = (code, running, w')"
    "run = (if running then Some (cfg, reconcilers cfg) else None)"
  using assms by (auto simp: main_eq Let_def split: prod.split_asm)

text \<open>The failures of tracing do not keep a controller from running.\<close>

lemma main_running:
  assumes "main lib mgr env k w = (code, run, w')" and "boot k (controller_namespace env) w = (booted, cfg, w1)"
  shows "run = (if NewManager mgr (controller_namespace env) (leaderElect env) = None \<and> register mgr (reconcilers cfg)
    then Some (cfg, reconcilers cfg) else None)"
proof (cases "NewManager mgr (controller_namespace env) (leaderElect env) = None")
  case True
  from main_parts [OF assms(1) True] assms(2) obtain tp w2 running where
    "run_process lib tp mgr (reconcilers cfg) w2 = (code, running, w')" "run = (if running then Some (cfg, reconcilers cfg) else None)"
    by (metis prod.inject)
  with True show ?thesis by (cases "register mgr (reconcilers cfg)") (simp_all add: run_process_def split: prod.split_asm)
next
  case False
  with assms(1) show ?thesis by (auto simp: main_eq)
qed

lemma main_live:
  assumes "otel_laws lib live" and "\<And>ns w. live (snd (snd (boot k ns w))) = live w"
    and "\<And>rs w. live (snd (Start mgr rs w)) = live w" and "live w = {}"
    and "main lib mgr env k w = (code, run, w')" and "boot k (controller_namespace env) w = (booted, cfg, w1)"
  shows "(code = 0 \<or> code = 1) \<and>
    live w' = (if code = 0 \<or> NewManager mgr (controller_namespace env) (leaderElect env) \<noteq> None then {}
      else set_option (fst (start_tracing (init lib (otel_to cfg)) (otel_on cfg) w1)))"
proof (cases "NewManager mgr (controller_namespace env) (leaderElect env) = None")
  case False
  with assms(4,5) show ?thesis by (auto simp: main_eq)
next
  case True
  from main_parts [OF assms(5) True] assms(6) obtain tp w2 running where
    tp: "start_tracing (init lib (otel_to cfg)) (otel_on cfg) w1 = (tp, w2)"
    and run: "run_process lib tp mgr (reconcilers cfg) w2 = (code, running, w')" by (metis prod.inject)
  have "live w1 = {}" using assms(2) [of "controller_namespace env" w] assms(4,6) by simp
  with start_live(1) [OF assms(1) tp] have w2: "live w2 = set_option tp" by simp
  show ?thesis
  proof (cases "register mgr (reconcilers cfg)")
    case False
    with run w2 tp True show ?thesis by (simp add: run_process_def)
  next
    case reg: True
    obtain c w3 where s: "serve mgr (reconcilers cfg) w2 = (c, w3)" by fastforce
    from serve_live [OF assms(3) s] w2 have "live w3 = set_option tp" "c = 0 \<or> c = 1" by auto
    with run reg s tp True stop_tracing_live [OF assms(1), of tp w3] show ?thesis by (auto simp: run_process_def)
  qed
qed

end

end
