(* ===== verification/NetBox_Updater.thy ===== *)
theory NetBox_Updater
  imports Controller_Process Tinkerbell_Status Cluster_Sync
begin

text \<open>
  The controller that writes NetBox from Kubernetes (\<open>internal/controller/netbox_updater\<close>): its
  configuration, the reconciler of Hardware objects, which writes the status of devices, and the
  reconciler of CAPI clusters, which calls the cluster synchronisation of \<open>pkg/cluster\<close>.
\<close>

section \<open>Configuration (config.go)\<close>

definition ConfigMapName :: string where
  "ConfigMapName = ''netbox-updater-config''"

definition SecretName :: string where
  "SecretName = ''netbox-updater-secret''"

definition defaultNetBoxEndpoint :: string where
  "defaultNetBoxEndpoint = ''http://netbox.svc''"

definition defaultBackend :: string where
  "defaultBackend = ''tinkerbell''"

record 'c Config =
  netboxEndpoint :: string
  netboxToken :: string
  backend :: string
  otelEnabled :: bool
  otelEndpoint :: string
  netboxClient :: "'c option"

definition NewConfig :: "'c Config" where
  "NewConfig = \<lparr>netboxEndpoint = defaultNetBoxEndpoint, netboxToken = [], backend = defaultBackend,
     otelEnabled = False, otelEndpoint = [], netboxClient = None\<rparr>"

definition GetNetBoxClient :: "'c Config \<Rightarrow> 'c option" where
  "GetNetBoxClient c = netboxClient c"

definition GetBackend :: "'c Config \<Rightarrow> string" where
  "GetBackend c = (if backend c = [] then defaultBackend else backend c)"

definition GetOtelEnabled :: "'c Config \<Rightarrow> bool" where
  "GetOtelEnabled c = otelEnabled c"

definition GetOtelEndpoint :: "'c Config \<Rightarrow> string" where
  "GetOtelEndpoint c = otelEndpoint c"

lemmas plain_getters [simp] = GetNetBoxClient_def GetOtelEnabled_def GetOtelEndpoint_def

definition update ::
  "(string \<Rightarrow> string \<Rightarrow> 'c) \<Rightarrow> string \<Rightarrow> string \<Rightarrow> string \<Rightarrow> bool \<Rightarrow> string \<Rightarrow> 'c Config \<Rightarrow> 'c Config" where
  "update NewAPIClientFor endpoint token b otel otelEp c =
     (let c = c\<lparr>netboxEndpoint := endpoint, netboxToken := token, backend := b, otelEnabled := otel,
            otelEndpoint := otelEp\<rparr>
      in if endpoint \<noteq> [] \<and> token \<noteq> [] then c\<lparr>netboxClient := Some (NewAPIClientFor endpoint token)\<rparr> else c)"

definition config_endpoint :: "string_map \<Rightarrow> string" where
  "config_endpoint cm =
     (if mget cm ''netbox_endpoint'' = [] then defaultNetBoxEndpoint else mget cm ''netbox_endpoint'')"

definition applyConfigMapAndSecret ::
  "(string \<Rightarrow> string \<Rightarrow> 'c) \<Rightarrow> string_map \<Rightarrow> string_map \<Rightarrow> 'c Config \<Rightarrow> 'c Config" where
  "applyConfigMapAndSecret NewAPIClientFor cm secret c =
     (let endpoint = config_endpoint cm;
          b = (if mget cm ''backend'' = [] then defaultBackend else mget cm ''backend'');
          token = mget secret ''netbox_token''
      in update NewAPIClientFor endpoint token b (mget cm ''otel_enabled'' = ''true'') (mget cm ''otel_endpoint'') c)"

definition Bootstrap ::
  "(string \<Rightarrow> string \<Rightarrow> 'c) \<Rightarrow> ('w, 'o) kube \<Rightarrow> string \<Rightarrow> 'c Config \<Rightarrow> 'w \<Rightarrow> unit result \<times> 'c Config \<times> 'w" where
  "Bootstrap NewAPIClientFor k namespace c w =
     (case ConfigMapGet k namespace ConfigMapName w of
        (Inl err, w) \<Rightarrow>
          (Inl (Wrapf (''cannot read ConfigMap '' @ namespace @ ''/'' @ ConfigMapName @ '': '') err), c, w)
      | (Inr cm, w) \<Rightarrow>
          (case SecretGet k namespace SecretName w of
             (Inl err, w) \<Rightarrow>
               (Inl (Wrapf (''cannot read Secret '' @ namespace @ ''/'' @ SecretName @ '': '') err), c, w)
           | (Inr secret, w) \<Rightarrow> (Inr (), applyConfigMapAndSecret NewAPIClientFor cm secret c, w)))"

definition ConfigReconcile ::
  "(string \<Rightarrow> string \<Rightarrow> 'c) \<Rightarrow> ('w, 'o) kube \<Rightarrow> string \<Rightarrow> 'c Config \<Rightarrow> 'w \<Rightarrow> reconciled \<times> 'c Config \<times> 'w" where
  "ConfigReconcile NewAPIClientFor k namespace c w =
     (case ConfigMapGet k namespace ConfigMapName w of
        (Inl err, w) \<Rightarrow> ((no_requeue, IgnoreNotFound err), c, w)
      | (Inr cm, w) \<Rightarrow>
          (case SecretGet k namespace SecretName w of
             (Inl err, w) \<Rightarrow> ((no_requeue, IgnoreNotFound err), c, w)
           | (Inr secret, w) \<Rightarrow> ((no_requeue, None), applyConfigMapAndSecret NewAPIClientFor cm secret c, w)))"

section \<open>Hardware objects (hardware\_reconciler.go)\<close>

definition labelNetBoxDeviceID :: string where
  "labelNetBoxDeviceID = ''netbox-device-id''"

definition hardwareGVK :: gvk where
  "hardwareGVK = \<lparr>gvk_Group = ''tinkerbell.org'', gvk_Version = ''v1alpha1'', gvk_Kind = ''Hardware''\<rparr>"

definition deviceIDFromLabels :: "string_map \<Rightarrow> int32 result" where
  "deviceIDFromLabels labels =
     (let val = mget labels labelNetBoxDeviceID
      in if val = [] then Inl (Errorf (''label '' @ Quote labelNetBoxDeviceID @ '' missing''))
         else case ParseInt32 val of
                None \<Rightarrow> Inl (Errorf (''invalid '' @ Quote labelNetBoxDeviceID @ '' label value '' @ Quote val))
              | Some i \<Rightarrow> Inr (word_of_int i))"

definition targetNetBoxStatus :: "string_map \<Rightarrow> string \<times> string" where
  "targetNetBoxStatus annotations =
     (if mget annotations annotationProvisioned = ''true'' then (''active'', ''active'') else (''staged'', ''staged''))"

definition HardwareReconcile ::
  "('w, 'o) kube \<Rightarrow> 'w netbox Config \<Rightarrow> string \<Rightarrow> string \<Rightarrow> 'w \<Rightarrow> reconciled \<times> 'w" where
  "HardwareReconcile k c namespace name w =
     (case GetNetBoxClient c of
        None \<Rightarrow> ((\<lparr>Requeue = True, RequeueAfter = 0\<rparr>, None), w)
      | Some nb \<Rightarrow>
          (case ObjectGet k hardwareGVK namespace name w of
             (Inl err, w) \<Rightarrow>
               if IsNotFound err then ((no_requeue, None), w)
               else ((no_requeue, Some (Wrapf (''cannot get Hardware '' @ namespace @ ''/'' @ name @ '': '') err)), w)
           | (Inr hw, w) \<Rightarrow>
               (case deviceIDFromLabels (ObjectLabels k hw) of
                  Inl err \<Rightarrow> ((no_requeue, None), w)
                | Inr deviceID \<Rightarrow>
                    let (targetStatus, statusName) = targetNetBoxStatus (ObjectAnnotations k hw)
                    in (case SetDeviceStatus nb deviceID targetStatus w of
                          (Inl err, w) \<Rightarrow>
                            ((no_requeue, Some (Wrapf (''cannot set NetBox device '' @ Itoa32 deviceID @ '' to '' @
                                statusName @ '': '') err)),
                             Eventf k (ObjectName k hw) EventTypeWarning ''NetBoxUpdateFailed''
                               (''Failed to set NetBox device '' @ Itoa32 deviceID @ '' to '' @ statusName @ '': '' @
                                error_message err) w)
                        | (Inr updated, w) \<Rightarrow>
                            ((no_requeue, None),
                             if updated then
                               Eventf k (ObjectName k hw) EventTypeNormal ''NetBoxUpdated''
                                 (''NetBox device '' @ Itoa32 deviceID @ '' status set to '' @ statusName) w
                             else w)))))"

section \<open>Clusters (cluster\_reconciler.go)\<close>

fun report_results :: "('w, 'o) kube \<Rightarrow> 'o \<Rightarrow> cluster_sync_result list \<Rightarrow> 'w \<Rightarrow> 'w" where
  "report_results k capiCluster [] w = w"
| "report_results k capiCluster (result # results) w =
     report_results k capiCluster results
       (if cr_Error result \<noteq> [] then
          Eventf k (ObjectName k capiCluster) EventTypeWarning ''NetBoxSyncFailed''
            (''NetBox sync error: '' @ cr_Error result) w
        else if cr_Updated result then
          Eventf k (ObjectName k capiCluster) EventTypeNormal ''NetBoxUpdated'' ''NetBox cluster records updated'' w
        else w)"

definition ClusterReconcile ::
  "('w, 'o) kube \<Rightarrow> 'w netbox Config \<Rightarrow> string \<Rightarrow> string \<Rightarrow> ('w, reconciled) go" where
  "ClusterReconcile k c namespace name w =
     (case GetNetBoxClient c of
        None \<Rightarrow> Some ((\<lparr>Requeue = True, RequeueAfter = 0\<rparr>, None), w)
      | Some nb \<Rightarrow>
          (case ObjectGet k capiClusterGVK namespace name w of
             (Inl err, w) \<Rightarrow>
               if IsNotFound err then Some ((no_requeue, None), w)
               else Some ((no_requeue, Some (Wrapf (''cannot get CAPI Cluster '' @ namespace @ ''/'' @ name @ '': '') err)), w)
           | (Inr capiCluster, w) \<Rightarrow> do {
               (r, w) \<leftarrow> Cluster_SyncStatus k namespace nb [ObjectName k capiCluster] w;
               (case r of
                  Inl err \<Rightarrow>
                    Some ((no_requeue, Some (Wrapf (''cannot sync cluster '' @ name @ '' to NetBox: '') err)),
                      Eventf k (ObjectName k capiCluster) EventTypeWarning ''NetBoxSyncFailed''
                        (''NetBox sync failed: '' @ error_message err) w)
                | Inr results \<Rightarrow> Some ((no_requeue, None), report_results k capiCluster results w))
             }))"

section \<open>Tracing (otel.go)\<close>

definition otelServiceName :: string where
  "otelServiceName = ''machinecfg-controller-netbox-updater''"

definition InitOtel :: "('w, 'e, 'r, 't) otel_library \<Rightarrow> string \<Rightarrow> ('w, 't option) call" where
  "InitOtel lib endpoint w =
     (if endpoint = [] then (Inr None, w)
      else case otlptracegrpc_New lib endpoint w of
             (Inl err, w) \<Rightarrow> (Inl (Wrapf (''cannot create OTEL trace exporter for '' @ endpoint @ '': '') err), w)
           | (Inr exporter, w) \<Rightarrow>
               (case resource_New lib otelServiceName w of
                  (Inl err, w) \<Rightarrow> (Inl (Wrapf ''cannot create OTEL resource: '' err), w)
                | (Inr res, w) \<Rightarrow>
                    let tp = NewTracerProvider lib exporter res in (Inr (Some tp), SetTracerProvider lib tp w)))"

section \<open>Start-up (controllers/controller-netbox-updater/main.go)\<close>

text \<open>The reconcilers that are registered, given the configuration as it was read at the start.\<close>

definition controller_reconcilers :: "'c Config \<Rightarrow> reconciler list" where
  "controller_reconcilers cfg =
     [ConfigReconciler] @
     (if GetBackend cfg = ''tinkerbell'' \<or> GetBackend cfg = [] then [HardwareReconciler] else []) @
     [ClusterReconciler]"

definition netbox_updater_main ::
  "(string \<Rightarrow> string \<Rightarrow> 'c) \<Rightarrow> ('w, 'e, 'r, 't) otel_library \<Rightarrow> 'w manager \<Rightarrow> string_map \<Rightarrow> ('w, 'o) kube \<Rightarrow> 'w \<Rightarrow>
   nat \<times> ('c Config \<times> reconciler list) option \<times> 'w" where
  "netbox_updater_main NewAPIClientFor lib mgr env k w =
     (let namespace = controller_namespace env in
      if NewManager mgr namespace (leaderElect env) \<noteq> None then (1, None, w)
      else
        let (booted, cfg, w) = Bootstrap NewAPIClientFor k namespace NewConfig w;
            (shutdown, w) = start_tracing (InitOtel lib (GetOtelEndpoint cfg)) (GetOtelEnabled cfg) w;
            (code, running, w) = run_process lib shutdown mgr (controller_reconcilers cfg) w
        in (code, if running then Some (cfg, controller_reconcilers cfg) else None, w))"

section \<open>Facts on the configuration\<close>

definition config_wf :: "'c Config \<Rightarrow> bool" where
  "config_wf c \<longleftrightarrow> backend c \<noteq> [] \<and> netboxEndpoint c \<noteq> []"

lemma initial_wf: "config_wf NewConfig"
  by (simp add: config_wf_def NewConfig_def defaultBackend_def defaultNetBoxEndpoint_def)

lemma applied_wf: "config_wf (applyConfigMapAndSecret mk cm s c)"
  by (auto simp: config_wf_def applyConfigMapAndSecret_def update_def config_endpoint_def
      defaultBackend_def defaultNetBoxEndpoint_def Let_def)

lemma applied_client:
  "netboxClient (applyConfigMapAndSecret mk cm s c) =
     (if mget s ''netbox_token'' \<noteq> [] then Some (mk (config_endpoint cm) (mget s ''netbox_token'')) else netboxClient c)"
  by (auto simp: applyConfigMapAndSecret_def update_def config_endpoint_def defaultNetBoxEndpoint_def Let_def)

interpretation ncfg: reloadable ConfigMapName SecretName config_endpoint mk "applyConfigMapAndSecret mk" netboxClient config_wf
    "Bootstrap mk" "ConfigReconcile mk" for mk
  by unfold_locales (simp_all only: applied_wf applied_client Bootstrap_def ConfigReconcile_def)

interpretation nproc: controller_process otelServiceName InitOtel "\<lambda>k ns. Bootstrap mk k ns NewConfig" GetOtelEnabled GetOtelEndpoint
    controller_reconcilers "netbox_updater_main mk" for mk
  by unfold_locales (rule InitOtel_def, rule netbox_updater_main_def)

section \<open>Facts on the reconcilers\<close>

text \<open>The reading of an object and the recording of events leave NetBox alone.\<close>

definition kube_apart :: "('w, 'o) kube \<Rightarrow> ('w \<Rightarrow> netbox_db) \<Rightarrow> bool" where
  "kube_apart k v \<longleftrightarrow> (\<forall>g ns n. pure_call v (ObjectGet k g ns n)) \<and> (\<forall>obj t r m w. v (Eventf k obj t r m w) = v w)"

lemma kube_apartD:
  assumes "kube_apart k v"
  shows "ObjectGet k g ns n w = (r, w') \<Longrightarrow> v w' = v w" and "v (Eventf k obj t rs m w) = v w"
  using assms unfolding kube_apart_def by (auto dest: pure_callD)

interpretation exported: status_writer SetDeviceStatus
  unfolding SetDeviceStatus_def by (rule sds.status_writer_axioms)

lemma deviceIDFromLabels_label: "deviceIDFromLabels (hw_Labels hw) = Inr i \<longleftrightarrow> label_id hw = Some i"
  by (auto simp: deviceIDFromLabels_def label_id_def labelNetBoxDeviceID_def Let_def split: option.split)

lemma report_results_view: "kube_apart k v \<Longrightarrow> v (report_results k obj rs w) = v w"
  by (induction k obj rs w rule: report_results.induct) (auto simp: kube_apartD(2))

lemma HardwareReconcile_written:
  assumes "netboxClient c = Some nb" and "ObjectGet k hardwareGVK ns n w = (Inr hw, w1)"
    and "deviceIDFromLabels (ObjectLabels k hw) = Inr i" and "HardwareReconcile k c ns n w = ((res, err), w')"
    and "kube_apart k v"
  shows "\<exists>r w2. SetDeviceStatus nb i (fst (targetNetBoxStatus (ObjectAnnotations k hw))) w1 = (r, w2) \<and>
    res = no_requeue \<and> (err = None \<longleftrightarrow> \<not> isl r) \<and> v w' = v w2"
proof -
  obtain st name where t: "targetNetBoxStatus (ObjectAnnotations k hw) = (st, name)" by fastforce
  show ?thesis
  proof (cases "SetDeviceStatus nb i st w1" rule: call_cases)
    case (err e w2)
    with assms t show ?thesis by (auto simp: HardwareReconcile_def kube_apartD(2))
  next
    case (ok b w2)
    with assms t show ?thesis by (auto simp: HardwareReconcile_def kube_apartD(2))
  qed
qed

section \<open>Sample objects\<close>

lemma mem_kube_apart: "kube_apart mem_kube mem_view"
  unfolding kube_apart_def pure_call_def by (auto simp: mem_kube_def mem_view_def split: option.split)

definition paused_object :: mem_object where
  "paused_object = \<lparr>mo_Gvk = hardwareGVK, mo_Namespace = ''prod'', mo_Name = ''node7'',
     mo_Labels = [(''netbox-device-id'', ''7'')],
     mo_Annotations = [(''v1alpha1.tinkerbell.org/provisioned'', ''paused'')],
     mo_Strings = [], mo_Ints = [], mo_Maps = [], mo_Slices = []\<rparr>"

definition paused_hw :: hardware where
  "paused_hw = blank_hardware\<lparr>hw_Name := ''node7'', hw_Namespace := ''prod'',
     hw_Labels := [(''netbox-device-id'', ''7'')],
     hw_Annotations := [(''v1alpha1.tinkerbell.org/provisioned'', ''paused'')]\<rparr>"

definition paused_world :: mem where
  "paused_world = empty_mem\<lparr>m_devices := [blank_device\<lparr>dev_Id := 7, dev_StatusValue := ''active''\<rparr>],
     m_objects := [paused_object]\<rparr>"

definition connected :: "'w netbox \<Rightarrow> 'w netbox Config" where
  "connected nb = NewConfig\<lparr>netboxClient := Some nb\<rparr>"

lemma connected_client [simp]: "netboxClient (connected nb) = Some nb"
  by (simp add: connected_def)

lemma paused_get: "ObjectGet mem_kube hardwareGVK ''prod'' ''node7'' paused_world = (Inr paused_object, paused_world)"
  by (simp add: mem_kube_def paused_world_def paused_object_def)

lemma paused_fields:
  "deviceIDFromLabels (ObjectLabels mem_kube paused_object) = Inr 7"
  "ObjectLabels mem_kube paused_object = hw_Labels paused_hw"
  "ObjectAnnotations mem_kube paused_object = hw_Annotations paused_hw"
  "map_of (hw_Annotations paused_hw) annotationProvisioned = Some ''paused''"
  by (code_simp, simp_all add: mem_kube_def paused_object_def paused_hw_def annotationProvisioned_def)

section \<open>Properties\<close>



text \<open>
  C37. The controller and the batch command write the same status for an object whose annotation is
  \<open>"true"\<close> or absent. They part on any other value: the command leaves the device alone, the
  controller makes it staged.
\<close>
theorem controller_against_batch:
  assumes "device_laws nb v" and "kube_apart k v" and "netboxClient c = Some nb"
    and "ObjectGet k hardwareGVK ns n w = (Inr hwo, w)" and "label_id hw = Some i"
    and "ObjectLabels k hwo = hw_Labels hw" and "ObjectAnnotations k hwo = hw_Annotations hw"
    and "sync_hardware nb hw w = (r, w1)" and "HardwareReconcile k c ns n w = ((res, err), w2)"
  shows "(handled hw \<longrightarrow> v w2 = v w1) \<and>
    (\<not> handled hw \<longrightarrow> w1 = w \<and> (err = None \<longrightarrow> db_status (v w2) i = Some ''staged''))"
proof -
  have id: "deviceIDFromLabels (ObjectLabels k hwo) = Inr i" using assms(5,6) by (simp add: deviceIDFromLabels_label)
  let ?st = "fst (targetNetBoxStatus (hw_Annotations hw))"
  from HardwareReconcile_written [OF assms(3,4) id assms(9,2)] assms(7) obtain q w3 where
    q: "setDeviceStatus nb i ?st w = (q, w3)" "err = None \<longleftrightarrow> \<not> isl q" "v w2 = v w3"
    by (auto simp: SetDeviceStatus_def)
  show ?thesis
  proof (cases "handled hw")
    case True
    then have st: "?st = wanted_status hw"
      by (auto simp: handled_def wanted_status_def isProvisioned_def isUnprovisioned_def targetNetBoxStatus_def mget_def)
    from True have "w1 = w3"
    proof (cases rule: sync_hardware_handled [where nb = nb and w = w])
      case (bad_label e)
      with assms(5) show ?thesis by simp
    next
      case (failed j e w4)
      with assms(5,8) q(1) st show ?thesis by auto
    next
      case (written j b w4)
      with assms(5,8) q(1) st show ?thesis by auto
    qed
    with q True show ?thesis by simp
  next
    case False
    then have st: "?st = ''staged''"
      by (auto simp: handled_def isProvisioned_def isUnprovisioned_def targetNetBoxStatus_def mget_def split: option.split)
    from False assms(8) have "w1 = w" by (simp add: sync_hardware_unhandled)
    moreover have "db_status (v w2) i = Some ''staged''" if "err = None"
      using that q st sds.status_after [OF assms(1)] by (cases q) auto
    ultimately show ?thesis using False by simp
  qed
qed

theorem controller_against_batch_witness:
  "sync_hardware mem_netbox paused_hw paused_world = (None, paused_world) \<and>
   db_status (mem_view (snd (HardwareReconcile mem_kube (connected mem_netbox) ''prod'' ''node7'' paused_world))) 7 = Some ''staged''"
proof -
  have "snd (fst (HardwareReconcile mem_kube (connected mem_netbox) ''prod'' ''node7'' paused_world)) = None"
    by code_simp
  then obtain res w' where run: "HardwareReconcile mem_kube (connected mem_netbox) ''prod'' ''node7'' paused_world = ((res, None), w')"
    by (metis prod.collapse)
  have id: "label_id paused_hw = Some 7" by code_simp
  have un: "\<not> handled paused_hw" using paused_fields(4) by (simp add: handled_def isProvisioned_def isUnprovisioned_def)
  then have batch: "sync_hardware mem_netbox paused_hw paused_world = (None, paused_world)" by (rule sync_hardware_unhandled)
  from controller_against_batch [OF mem_device_laws mem_kube_apart connected_client paused_get id paused_fields(2,3) batch run] un
  show ?thesis unfolding run using batch by simp
qed

text \<open>
  The start of the process: the configuration and the cluster reconcilers always run, the
  Hardware reconciler runs exactly if the back end read at the start is \<open>tinkerbell\<close>; a
  configuration that cannot be read is not fatal, and then the default back end applies. Any
  other name of a back end leaves the Hardware objects without a reconciler.
\<close>
lemma startup_reconcilers:
  assumes "netbox_updater_main mk lib mgr env k w = (code, Some (cfg, rs), w')"
  shows "ConfigReconciler \<in> set rs \<and> ClusterReconciler \<in> set rs \<and>
    (HardwareReconciler \<in> set rs \<longleftrightarrow> backend cfg = ''tinkerbell'') \<and> config_wf cfg \<and>
    (\<forall>r \<in> set rs. SetupWithManager mgr r = None) \<and>
    (\<forall>e w1. ConfigMapGet k (controller_namespace env) ConfigMapName w = (Inl e, w1) \<longrightarrow>
       cfg = NewConfig \<and> HardwareReconciler \<in> set rs)"
proof -
  obtain booted boot w1 where b: "Bootstrap mk k (controller_namespace env) NewConfig w = (booted, boot, w1)" by (metis prod.collapse)
  from nproc.main_running [OF assms b] have cfg: "cfg = boot" and rs: "rs = controller_reconcilers cfg" "register mgr rs"
    by (auto split: if_split_asm)
  from ncfg.inv_boot [OF b initial_wf] cfg have wf: "config_wf cfg" by simp
  then have g: "GetBackend cfg = backend cfg" "backend cfg \<noteq> []" by (auto simp: config_wf_def GetBackend_def)
  have "cfg = NewConfig" if "ConfigMapGet k (controller_namespace env) ConfigMapName w = (Inl e, w1)" for e w1
    using that b cfg by (simp add: Bootstrap_def)
  moreover have "backend (NewConfig :: 'a Config) = ''tinkerbell''" by (simp add: NewConfig_def defaultBackend_def)
  ultimately show ?thesis using wf g rs by (auto simp: controller_reconcilers_def register_iff)
qed



end
