(* ===== verification/Config_Watch.thy ===== *)
theory Config_Watch
  imports Controller_Config Memory_World
begin

text \<open>
  How the two controllers hear of a change of their configuration: the events of the watched
  objects, the queue of requests, and the reload of the configuration read by read, between
  changes that others make. The contract \<open>watched_config\<close> gives that a controller that has nothing
  left to do works with the sources as they are.
\<close>

section \<open>Events and requests\<close>

text \<open>An event names the kind, the namespace and the name of the object; a request a namespace and a name.\<close>

datatype watched = ConfigMap_object | Secret_object | Unstructured_object gvk

type_synonym event = "watched \<times> string \<times> string"
type_synonym request = "string \<times> string"

section \<open>The two sources\<close>

text \<open>
  The ConfigMap and the Secret as the reader has them, \<open>None\<close> when there is no such object. A read
  that succeeds answers the object, \<open>NotFound\<close> means that there is none, and a read may fail for
  another reason at any time; it changes nothing.
\<close>

type_synonym sources = "string_map option \<times> string_map option"

definition read_law :: "(string \<Rightarrow> string \<Rightarrow> ('w, string_map) call) \<Rightarrow> string \<Rightarrow> string \<Rightarrow> ('w \<Rightarrow> sources) \<Rightarrow>
    (sources \<Rightarrow> string_map option) \<Rightarrow> bool" where
  "read_law get ns n src part \<longleftrightarrow>
     (\<forall>w r w'. get ns n w = (r, w') \<longrightarrow> src w' = src w \<and>
        (\<forall>m. r = Inr m \<longrightarrow> part (src w) = Some m) \<and>
        (\<forall>e. r = Inl e \<longrightarrow> IsNotFound e \<longrightarrow> part (src w) = None))"

definition source_laws :: "('w, 'o) kube \<Rightarrow> string \<Rightarrow> string \<Rightarrow> string \<Rightarrow> ('w \<Rightarrow> sources) \<Rightarrow> bool" where
  "source_laws k ns cm_name secret_name src \<longleftrightarrow>
     read_law (ConfigMapGet k) ns cm_name src fst \<and> read_law (SecretGet k) ns secret_name src snd"

text \<open>The API server answers: a read fails only because there is no such object.\<close>

definition server_answers :: "('w, 'o) kube \<Rightarrow> bool" where
  "server_answers k \<longleftrightarrow>
     (\<forall>ns n w e w'. ConfigMapGet k ns n w = (Inl e, w') \<or> SecretGet k ns n w = (Inl e, w') \<longrightarrow> IsNotFound e)"

lemma read_lawD:
  assumes "read_law get ns n src part"
  shows "get ns n w = (r, w') \<Longrightarrow> src w' = src w"
    and "get ns n w = (Inr m, w') \<Longrightarrow> part (src w) = Some m"
    and "get ns n w = (Inl e, w') \<Longrightarrow> IsNotFound e \<Longrightarrow> part (src w) = None"
  using assms unfolding read_law_def by blast+

section \<open>The worker of the configuration reconciler\<close>

text \<open>
  Where the worker is: waiting, or at work for a request, with what it has read. A request is
  taken out of the queue first; an answer with an error puts it back.
\<close>

datatype worker = Waiting | Reading request | Have_ConfigMap request string_map | Have_both request string_map string_map

definition requeue :: "request \<Rightarrow> go_error \<Rightarrow> request set \<Rightarrow> request set" where
  "requeue req e q = (case IgnoreNotFound e of None \<Rightarrow> q | Some err \<Rightarrow> insert req q)"

inductive worker_step ::
  "('w, 'o) kube \<Rightarrow> string \<Rightarrow> string \<Rightarrow> string \<Rightarrow> (string_map \<Rightarrow> string_map \<Rightarrow> 'cfg \<Rightarrow> 'cfg) \<Rightarrow>
   'cfg \<times> 'w \<times> request set \<times> worker \<Rightarrow> 'cfg \<times> 'w \<times> request set \<times> worker \<Rightarrow> bool"
  for k ns cm_name secret_name apply_sources where
  no_configmap: "ConfigMapGet k ns cm_name w = (Inl e, w') \<Longrightarrow>
    worker_step k ns cm_name secret_name apply_sources (c, w, q, Reading req) (c, w', requeue req e q, Waiting)"
| configmap: "ConfigMapGet k ns cm_name w = (Inr cm, w') \<Longrightarrow>
    worker_step k ns cm_name secret_name apply_sources (c, w, q, Reading req) (c, w', q, Have_ConfigMap req cm)"
| no_secret: "SecretGet k ns secret_name w = (Inl e, w') \<Longrightarrow>
    worker_step k ns cm_name secret_name apply_sources (c, w, q, Have_ConfigMap req cm) (c, w', requeue req e q, Waiting)"
| secret: "SecretGet k ns secret_name w = (Inr s, w') \<Longrightarrow>
    worker_step k ns cm_name secret_name apply_sources (c, w, q, Have_ConfigMap req cm) (c, w', q, Have_both req cm s)"
| applied: "worker_step k ns cm_name secret_name apply_sources (c, w, q, Have_both req cm s) (apply_sources cm s c, w, q, Waiting)"

text \<open>
  The steps of the controller with those of its surroundings: a request is taken, the worker does a
  step, or the world changes. A change of a source comes with the event of that source; other
  events may come at any time.
\<close>

inductive watch_step ::
  "(string \<Rightarrow> event \<Rightarrow> request list) \<Rightarrow> ('w \<Rightarrow> sources) \<Rightarrow>
   ('w, 'o) kube \<Rightarrow> string \<Rightarrow> string \<Rightarrow> string \<Rightarrow> (string_map \<Rightarrow> string_map \<Rightarrow> 'cfg \<Rightarrow> 'cfg) \<Rightarrow>
   'cfg \<times> 'w \<times> request set \<times> worker \<Rightarrow> 'cfg \<times> 'w \<times> request set \<times> worker \<Rightarrow> bool"
  for requests src k ns cm_name secret_name apply_sources where
  taken: "req \<in> q \<Longrightarrow>
    watch_step requests src k ns cm_name secret_name apply_sources (c, w, q, Waiting) (c, w, q - {req}, Reading req)"
| working: "worker_step k ns cm_name secret_name apply_sources s s' \<Longrightarrow>
    watch_step requests src k ns cm_name secret_name apply_sources s s'"
| changed: "fst (src w') = fst (src w) \<or> (ConfigMap_object, ns, cm_name) \<in> set es \<Longrightarrow>
    snd (src w') = snd (src w) \<or> (Secret_object, ns, secret_name) \<in> set es \<Longrightarrow>
    watch_step requests src k ns cm_name secret_name apply_sources (c, w, q, p) (c, w', q \<union> set (concat (map (requests ns) es)), p)"

inductive_cases worker_stepE: "worker_step k ns cm_name secret_name apply_sources (c, w, q, p) s'"
inductive_cases watch_stepE: "watch_step requests src k ns cm_name secret_name apply_sources (c, w, q, p) s'"

section \<open>The contract of a watched configuration\<close>

text \<open>
  Both sources make the same request, nothing else makes one, and applying the same sources again
  changes nothing.
\<close>

locale watched_config = reloadable cm_name secret_name endpoint_of make apply_sources current_client inv boot reload
  for cm_name secret_name endpoint_of and make :: "string \<Rightarrow> string \<Rightarrow> 'c"
    and apply_sources :: "string_map \<Rightarrow> string_map \<Rightarrow> 'cfg \<Rightarrow> 'cfg" and current_client inv
    and boot :: "('w, 'o) kube \<Rightarrow> string \<Rightarrow> 'cfg \<Rightarrow> 'w \<Rightarrow> unit result \<times> 'cfg \<times> 'w" and reload +
  fixes requests :: "string \<Rightarrow> event \<Rightarrow> request list"
  assumes requests_eq: "requests ns e =
      (if e = (ConfigMap_object, ns, cm_name) \<or> e = (Secret_object, ns, secret_name) then [(ns, cm_name)] else [])"
    and apply_twice: "apply_sources cm s (apply_sources cm s c) = apply_sources cm s c"
begin

text \<open>A configuration is up to date if applying the sources would change nothing.\<close>

definition up_to_date :: "'cfg \<Rightarrow> sources \<Rightarrow> bool" where
  "up_to_date c v \<longleftrightarrow> (\<forall>cm s. v = (Some cm, Some s) \<longrightarrow> apply_sources cm s c = c)"

text \<open>What holds of a controller at every moment: a request is waiting, or what it has is current.\<close>

definition fresh :: "string \<Rightarrow> ('w \<Rightarrow> sources) \<Rightarrow> 'cfg \<times> 'w \<times> request set \<times> worker \<Rightarrow> bool" where
  "fresh ns src = (\<lambda>(c, w, q, p). q \<subseteq> {(ns, cm_name)} \<and>
     (case p of
        Waiting \<Rightarrow> (ns, cm_name) \<in> q \<or> up_to_date c (src w)
      | Reading req \<Rightarrow> req = (ns, cm_name)
      | Have_ConfigMap req cm \<Rightarrow> req = (ns, cm_name) \<and> ((ns, cm_name) \<in> q \<or> fst (src w) = Some cm)
      | Have_both req cm s \<Rightarrow> req = (ns, cm_name) \<and> ((ns, cm_name) \<in> q \<or> src w = (Some cm, Some s))))"

lemma up_to_date_applied: "src = (Some cm, Some s) \<Longrightarrow> up_to_date (apply_sources cm s c) src"
  by (simp add: up_to_date_def apply_twice)

lemma up_to_date_missing: "fst v = None \<or> snd v = None \<Longrightarrow> up_to_date c v"
  by (auto simp: up_to_date_def)

lemma event_requests:
  "set (concat (map (requests ns) es)) =
     (if (ConfigMap_object, ns, cm_name) \<in> set es \<or> (Secret_object, ns, secret_name) \<in> set es then {(ns, cm_name)} else {})"
  by (auto simp: requests_eq)

text \<open>A read that fails: the object is not there, or the request is back in the queue.\<close>

lemma failed_read:
  assumes "read_law get ns n src part" and "get ns n w = (Inl e, w')"
  shows "req \<in> requeue req e q \<or> part (src w') = None"
  using read_lawD(1,3) [OF assms] by (auto simp: requeue_def IgnoreNotFound_def)

lemma requeue_subset: "requeue req e q \<subseteq> insert req q" "q \<subseteq> requeue req e q"
  by (auto simp: requeue_def split: option.split)

lemma fresh_worker:
  assumes "source_laws k ns cm_name secret_name src" and "worker_step k ns cm_name secret_name apply_sources s s'" and "fresh ns src s"
  shows "fresh ns src s'"
proof -
  from assms(1) have cm: "read_law (ConfigMapGet k) ns cm_name src fst" and sec: "read_law (SecretGet k) ns secret_name src snd"
    by (simp_all add: source_laws_def)
  from assms(2,3) show ?thesis
  proof (induction rule: worker_step.induct)
    case (no_configmap w e w' c q req)
    with failed_read [OF cm, of w e w' req q] requeue_subset(1) [of req e q] show ?case
      by (auto simp: fresh_def up_to_date_missing)
  next
    case (configmap w m w' c q req)
    with read_lawD(1,2) [OF cm] show ?case by (fastforce simp: fresh_def)
  next
    case (no_secret w e w' c q req m)
    with failed_read [OF sec, of w e w' req q] requeue_subset(1) [of req e q] show ?case
      by (auto simp: fresh_def up_to_date_missing)
  next
    case (secret w t w' c q req m)
    with read_lawD(1) [OF sec, of w "Inr t" w'] read_lawD(2) [OF sec, of w t w'] show ?case
      by (auto simp: fresh_def prod_eq_iff)
  next
    case (applied c w q req m t)
    then show ?case by (auto simp: fresh_def up_to_date_applied)
  qed
qed

lemma fresh_step:
  assumes "source_laws k ns cm_name secret_name src" and "watch_step requests src k ns cm_name secret_name apply_sources s s'"
    and "fresh ns src s"
  shows "fresh ns src s'"
  using assms(2,3)
proof (induction rule: watch_step.induct)
  case (taken req q c w)
  then show ?case by (auto simp: fresh_def)
next
  case (working s s')
  with fresh_worker [OF assms(1)] show ?case by blast
next
  case (changed w' w es c q p)
  define add where "add = set (concat (map (requests ns) es))"
  have "add = {(ns, cm_name)} \<or> add = {} \<and> src w' = src w"
    using changed(1,2) unfolding add_def event_requests by (auto simp: prod_eq_iff)
  with changed(3) show ?case unfolding add_def [symmetric] by (auto simp: fresh_def split: worker.split)
qed

lemma fresh_reachable:
  assumes "source_laws k ns cm_name secret_name src"
    and "(watch_step requests src k ns cm_name secret_name apply_sources)\<^sup>*\<^sup>* (c0, w0, {(ns, cm_name)}, Waiting) s"
  shows "fresh ns src s"
  using assms(2)
proof (induction rule: rtranclp_induct)
  case base
  show ?case by (simp add: fresh_def)
next
  case (step s s')
  with fresh_step [OF assms(1)] show ?case by blast
qed

text \<open>With nothing left to do the configuration is that of the sources.\<close>

lemma quiet_current:
  fixes src :: "'w \<Rightarrow> sources"
  assumes "source_laws k ns cm_name secret_name src"
    and "(watch_step requests src k ns cm_name secret_name apply_sources)\<^sup>*\<^sup>* (c0, w0, {(ns, cm_name)}, Waiting) (c, w, {}, Waiting)"
    and "src w = (Some cm, Some s)"
  shows "apply_sources cm s c = c"
  using fresh_reachable [OF assms(1,2)] assms(3) by (simp add: fresh_def up_to_date_def)

text \<open>Left alone, the worker does what the reconciliation in one step does.\<close>

lemma worker_runs:
  assumes "reload k ns c w = ((res, err), c', w')"
  shows "(worker_step k ns cm_name secret_name apply_sources)\<^sup>*\<^sup>* (c, w, q, Reading req)
    (c', w', if err = None then q else insert req q, Waiting)"
proof -
  let ?step = "worker_step k ns cm_name secret_name apply_sources"
  have again: "requeue req e q = (if IgnoreNotFound e = None then q else insert req q)" for e
    by (auto simp: requeue_def split: option.split)
  show ?thesis
  proof (cases "ConfigMapGet k ns cm_name w" rule: call_cases)
    case (err e w1)
    note worker_step.no_configmap [OF err, of secret_name apply_sources c q req]
    with assms err again [of e] show ?thesis by (auto simp: reload_reads intro: r_into_rtranclp)
  next
    case cm: (ok cm w1)
    note first = worker_step.configmap [OF cm, of secret_name apply_sources c q req]
    show ?thesis
    proof (cases "SecretGet k ns secret_name w1" rule: call_cases)
      case (err e w2)
      note worker_step.no_secret [OF err, of cm_name apply_sources c q req cm]
      with first have "?step\<^sup>*\<^sup>* (c, w, q, Reading req) (c, w2, requeue req e q, Waiting)"
        by (rule converse_rtranclp_into_rtranclp [OF _ r_into_rtranclp])
      with assms cm err again [of e] show ?thesis by (auto simp: reload_reads)
    next
      case (ok s w2)
      note worker_step.secret [OF ok, of cm_name apply_sources c q req cm]
      with first have "?step\<^sup>*\<^sup>* (c, w, q, Reading req) (c, w2, q, Have_both req cm s)"
        by (rule converse_rtranclp_into_rtranclp [OF _ r_into_rtranclp])
      from rtranclp.rtrancl_into_rtrancl [OF this worker_step.applied] assms cm ok show ?thesis by (auto simp: reload_reads)
    qed
  qed
qed

text \<open>
  While the server answers and nothing changes, the worker comes to its end with the request
  done, and then with every request done.
\<close>

lemma answered_requeue:
  assumes "server_answers k"
  shows "ConfigMapGet k ns n w = (Inl e, w') \<Longrightarrow> requeue req e q = q"
    and "SecretGet k ns n w = (Inl e, w') \<Longrightarrow> requeue req e q = q"
  using assms unfolding server_answers_def requeue_def IgnoreNotFound_def by auto

lemma worker_ends:
  assumes "server_answers k"
  shows "\<exists>c' w'. (worker_step k ns cm_name secret_name apply_sources)\<^sup>*\<^sup>* (c, w, q, p) (c', w', q, Waiting)"
proof -
  let ?step = "worker_step k ns cm_name secret_name apply_sources"
  have both: "\<exists>c' w'. ?step\<^sup>*\<^sup>* (c, w, q, Have_both req cm s) (c', w', q, Waiting)" for c w req cm s
    by (blast intro: worker_step.applied r_into_rtranclp)
  have half: "\<exists>c' w'. ?step\<^sup>*\<^sup>* (c, w, q, Have_ConfigMap req cm) (c', w', q, Waiting)" for c w req cm
  proof (cases "SecretGet k ns secret_name w" rule: call_cases)
    case (err e w1)
    from worker_step.no_secret [OF err, of cm_name apply_sources c q req cm] show ?thesis
      unfolding answered_requeue(2) [OF assms err] by blast
  next
    case (ok s w1)
    from worker_step.secret [OF ok, of cm_name apply_sources c q req cm] both [of c w1 req cm s] show ?thesis
      by (meson converse_rtranclp_into_rtranclp)
  qed
  have start: "\<exists>c' w'. ?step\<^sup>*\<^sup>* (c, w, q, Reading req) (c', w', q, Waiting)" for c w req
  proof (cases "ConfigMapGet k ns cm_name w" rule: call_cases)
    case (err e w1)
    from worker_step.no_configmap [OF err, of secret_name apply_sources c q req] show ?thesis
      unfolding answered_requeue(1) [OF assms err] by blast
  next
    case (ok cm w1)
    from worker_step.configmap [OF ok, of secret_name apply_sources c q req] half [of c w1 req cm] show ?thesis
      by (meson converse_rtranclp_into_rtranclp)
  qed
  show ?thesis using start half both by (cases p) blast+
qed

lemma worker_watch:
  "(worker_step k ns cm_name secret_name apply_sources)\<^sup>*\<^sup>* s s' \<Longrightarrow>
   (watch_step requests src k ns cm_name secret_name apply_sources)\<^sup>*\<^sup>* s s'"
  by (rule rtranclp_mono [THEN predicate2D, rotated]) (auto intro: watch_step.working)

lemma settles:
  assumes "server_answers k" and "q \<subseteq> {(ns, cm_name)}"
  shows "\<exists>c' w'. (watch_step requests src k ns cm_name secret_name apply_sources)\<^sup>*\<^sup>* (c, w, q, p) (c', w', {}, Waiting)"
proof -
  from worker_ends [OF assms(1)] obtain c1 w1 where
    "(worker_step k ns cm_name secret_name apply_sources)\<^sup>*\<^sup>* (c, w, q, p) (c1, w1, q, Waiting)" by blast
  note first = worker_watch [OF this, of src]
  show ?thesis
  proof (cases "q = {}")
    case True
    with first show ?thesis by blast
  next
    case False
    with assms(2) have q: "q = {(ns, cm_name)}" by blast
    have "watch_step requests src k ns cm_name secret_name apply_sources (c1, w1, q, Waiting) (c1, w1, {}, Reading (ns, cm_name))"
      using watch_step.taken [of "(ns, cm_name)" q] q by fastforce
    moreover from worker_ends [OF assms(1)] obtain c2 w2 where
      "(worker_step k ns cm_name secret_name apply_sources)\<^sup>*\<^sup>* (c1, w1, {}, Reading (ns, cm_name)) (c2, w2, {}, Waiting)" by blast
    note worker_watch [OF this, of src]
    ultimately show ?thesis using first by (meson converse_rtranclp_into_rtranclp rtranclp_trans)
  qed
qed

end

section \<open>The sources of the memory world\<close>

definition mem_sources :: "string \<Rightarrow> string \<Rightarrow> string \<Rightarrow> mem \<Rightarrow> sources" where
  "mem_sources ns cm_name secret_name w = (map_of (m_configmaps w) (ns, cm_name), map_of (m_secrets w) (ns, secret_name))"

lemma mem_source_laws: "source_laws mem_kube ns cm_name secret_name (mem_sources ns cm_name secret_name)"
  by (simp add: source_laws_def read_law_def mem_kube_def mem_sources_def split: option.split)

lemma mem_server_answers: "server_answers mem_kube"
  by (auto simp: server_answers_def mem_kube_def not_found_def split: option.split_asm)

end
