(* ===== verification/NetBox_Events.thy ===== *)
theory NetBox_Events
  imports NetBox_Updater Config_Watch
begin

text \<open>
  The events of the netbox updater: which objects its reconcilers are registered for, that a change
  of its configuration reaches the running process, and what does not: the choice of the
  reconcilers and the tracing are made once, at the start.
\<close>

section \<open>Watches (SetupWithManager)\<close>

text \<open>
  A predicate sees the object of an event, whatever its kind; \<open>For\<close> and \<open>Watches\<close> choose the kind. The
  reconcilers of Hardware objects and of clusters are registered for every object of their kind.
\<close>

definition cmPredicate :: "string \<Rightarrow> event \<Rightarrow> bool" where
  "cmPredicate namespace obj \<longleftrightarrow> (case obj of (kind, ns, name) \<Rightarrow> name = ConfigMapName \<and> ns = namespace)"

definition secretPredicate :: "string \<Rightarrow> event \<Rightarrow> bool" where
  "secretPredicate namespace obj \<longleftrightarrow> (case obj of (kind, ns, name) \<Rightarrow> name = SecretName \<and> ns = namespace)"

definition secretHandler :: "string \<Rightarrow> event \<Rightarrow> request list" where
  "secretHandler namespace obj =
     (case obj of (kind, ns, name) \<Rightarrow> if name = SecretName \<and> ns = namespace then [(namespace, ConfigMapName)] else [])"

definition config_requests :: "string \<Rightarrow> event \<Rightarrow> request list" where
  "config_requests namespace e =
     (case e of
        (ConfigMap_object, ns, name) \<Rightarrow> if cmPredicate namespace e then [(ns, name)] else []
      | (Secret_object, ns, name) \<Rightarrow> if secretPredicate namespace e then secretHandler namespace e else []
      | (Unstructured_object g, ns, name) \<Rightarrow> [])"

definition hardware_requests :: "event \<Rightarrow> request list" where
  "hardware_requests e = (case e of (kind, ns, name) \<Rightarrow> if kind = Unstructured_object hardwareGVK then [(ns, name)] else [])"

definition cluster_requests :: "event \<Rightarrow> request list" where
  "cluster_requests e = (case e of (kind, ns, name) \<Rightarrow> if kind = Unstructured_object capiClusterGVK then [(ns, name)] else [])"

text \<open>The requests that an event makes for the reconcilers that run.\<close>

definition event_requests :: "string \<Rightarrow> reconciler list \<Rightarrow> event \<Rightarrow> (reconciler \<times> request) list" where
  "event_requests namespace rs e =
     concat (map (\<lambda>r. map (Pair r)
       (case r of
          ConfigReconciler \<Rightarrow> config_requests namespace e
        | HardwareReconciler \<Rightarrow> hardware_requests e
        | ClusterReconciler \<Rightarrow> cluster_requests e
        | NetBoxSyncReconciler \<Rightarrow> [])) rs)"

section \<open>Facts\<close>

lemma watch_requests_eq:
  "config_requests ns e =
     (if e = (ConfigMap_object, ns, ConfigMapName) \<or> e = (Secret_object, ns, SecretName) then [(ns, ConfigMapName)] else [])"
  by (auto simp: config_requests_def cmPredicate_def secretPredicate_def secretHandler_def split: prod.split watched.split)

lemma apply_again: "applyConfigMapAndSecret mk cm s (applyConfigMapAndSecret mk cm s c) = applyConfigMapAndSecret mk cm s c"
  by (simp add: applyConfigMapAndSecret_def update_def Let_def)

interpretation nwatch: watched_config ConfigMapName SecretName config_endpoint mk "applyConfigMapAndSecret mk" netboxClient config_wf
    "Bootstrap mk" "ConfigReconcile mk" config_requests for mk
  by unfold_locales (rule watch_requests_eq, rule apply_again)

lemma kind_requests:
  "hardware_requests (Unstructured_object hardwareGVK, n, x) = [(n, x)]"
  "cluster_requests (Unstructured_object hardwareGVK, n, x) = []"
  "hardware_requests (Unstructured_object capiClusterGVK, n, x) = []"
  "cluster_requests (Unstructured_object capiClusterGVK, n, x) = [(n, x)]"
  "config_requests ns (Unstructured_object g, n, x) = []"
  by (simp_all add: hardware_requests_def cluster_requests_def config_requests_def hardwareGVK_def capiClusterGVK_def)

text \<open>What the sources say, read off the configuration that applying them leaves alone.\<close>

lemma applied_settings:
  assumes "applyConfigMapAndSecret mk cm s c = c"
  shows "netboxEndpoint c = config_endpoint cm" and "netboxToken c = mget s ''netbox_token''"
    and "GetBackend c = (if mget cm ''backend'' = [] then ''tinkerbell'' else mget cm ''backend'')"
    and "mget s ''netbox_token'' \<noteq> [] \<Longrightarrow> GetNetBoxClient c = Some (mk (config_endpoint cm) (mget s ''netbox_token''))"
proof -
  show "netboxEndpoint c = config_endpoint cm" "netboxToken c = mget s ''netbox_token''"
      "GetBackend c = (if mget cm ''backend'' = [] then ''tinkerbell'' else mget cm ''backend'')"
    by (subst assms [symmetric], simp add: applyConfigMapAndSecret_def update_def GetBackend_def defaultBackend_def Let_def)+
  show "GetNetBoxClient c = Some (mk (config_endpoint cm) (mget s ''netbox_token''))" if "mget s ''netbox_token'' \<noteq> []"
    using applied_client [of mk cm s c] that unfolding assms by simp
qed

section \<open>A sample process\<close>

text \<open>A tracing library that keeps the live providers among the events of the memory world.\<close>

definition mem_otel :: "(mem, string, string, string) otel_library" where
  "mem_otel = \<lparr>otlptracegrpc_New = \<lambda>endpoint w. (Inr endpoint, w), resource_New = \<lambda>name w. (Inr name, w),
     NewTracerProvider = \<lambda>exporter res. res @ '' to '' @ exporter,
     SetTracerProvider = \<lambda>tp w. w\<lparr>m_events := (''tracer'', tp) # m_events w\<rparr>,
     Shutdown = \<lambda>tp w. (None, w\<lparr>m_events := removeAll (''tracer'', tp) (m_events w)\<rparr>)\<rparr>"

definition mem_live :: "mem \<Rightarrow> string set" where
  "mem_live w = {tp. (''tracer'', tp) \<in> set (m_events w)}"

definition sample_manager :: "go_error option \<Rightarrow> mem manager" where
  "sample_manager err = \<lparr>NewManager = \<lambda>ns elect. None, SetupWithManager = \<lambda>r. None, AddHealthzCheck = None,
     AddReadyzCheck = None, Start = \<lambda>rs w. (err, w)\<rparr>"

definition process_env :: string_map where
  "process_env = [(''CONTROLLER_NAMESPACE'', ''prod'')]"

definition process_world :: "string \<Rightarrow> mem" where
  "process_world b = empty_mem\<lparr>m_configmaps := [((''prod'', ConfigMapName),
       [(''backend'', b), (''otel_enabled'', ''true''), (''otel_endpoint'', ''collector'')])],
     m_secrets := [((''prod'', SecretName), [(''netbox_token'', ''secret'')])]\<rparr>"

lemma mem_otel_laws: "otel_laws mem_otel mem_live"
  by (auto simp: otel_laws_def mem_otel_def mem_live_def)

lemma mem_reads_live:
  "\<forall>ns n w. mem_live (snd (ConfigMapGet mem_kube ns n w)) = mem_live w"
  "\<forall>ns n w. mem_live (snd (SecretGet mem_kube ns n w)) = mem_live w"
  "\<forall>rs w. mem_live (snd (Start (sample_manager err) rs w)) = mem_live w"
  "mem_live (process_world b) = {}"
  by (simp_all add: mem_kube_def sample_manager_def mem_live_def process_world_def empty_mem_def split: option.split)

lemma process_reads:
  "ConfigMapGet mem_kube ''prod'' ConfigMapName (process_world b) =
     (Inr [(''backend'', b), (''otel_enabled'', ''true''), (''otel_endpoint'', ''collector'')], process_world b)"
  "SecretGet mem_kube ''prod'' SecretName (process_world b) = (Inr [(''netbox_token'', ''secret'')], process_world b)"
  "mem_sources ''prod'' ConfigMapName SecretName (process_world b) =
     (Some [(''backend'', b), (''otel_enabled'', ''true''), (''otel_endpoint'', ''collector'')], Some [(''netbox_token'', ''secret'')])"
  "controller_namespace process_env = ''prod''"
  by (simp_all add: mem_kube_def mem_sources_def process_world_def controller_namespace_def process_env_def)

definition process_config :: "string \<Rightarrow> mem netbox Config" where
  "process_config b = applyConfigMapAndSecret (\<lambda>ep tok. mem_netbox)
     [(''backend'', b), (''otel_enabled'', ''true''), (''otel_endpoint'', ''collector'')] [(''netbox_token'', ''secret'')] NewConfig"

lemma process_boot:
  "Bootstrap (\<lambda>ep tok. mem_netbox) mem_kube (controller_namespace process_env) NewConfig (process_world b) =
     (Inr (), process_config b, process_world b)"
  by (simp add: Bootstrap_def process_reads process_config_def)

lemma process_settings:
  "GetOtelEnabled (process_config b)" "GetOtelEndpoint (process_config b) = ''collector''" "b \<noteq> [] \<Longrightarrow> GetBackend (process_config b) = b"
  by (simp_all add: process_config_def applyConfigMapAndSecret_def update_def GetBackend_def Let_def)

section \<open>Properties\<close>

text \<open>
  C18. What a running netbox updater takes from a changed configuration. Once a reload has caught up
  with the ConfigMap and the Secret, in any interleaving of changes and reads, the address, the
  token, the client and the name of the back end are theirs. But which reconcilers run was settled
  at the start: a Hardware object makes a request exactly if the back end was \<open>tinkerbell\<close> then,
  whatever it is now; a CAPI cluster always makes one.
\<close>
theorem settings_at_run_time:
  assumes "netbox_updater_main mk lib mgr env k w0 = (code, Some (cfg, rs), w1)" and "ns = controller_namespace env"
    and "source_laws k ns ConfigMapName SecretName src"
    and "(watch_step config_requests src k ns ConfigMapName SecretName (applyConfigMapAndSecret mk))\<^sup>*\<^sup>*
      (cfg, w2, {(ns, ConfigMapName)}, Waiting) (c, w, {}, Waiting)"
    and "src w = (Some cm, Some s)"
  shows "netboxEndpoint c = config_endpoint cm \<and> netboxToken c = mget s ''netbox_token'' \<and>
    GetBackend c = (if mget cm ''backend'' = [] then ''tinkerbell'' else mget cm ''backend'') \<and>
    (mget s ''netbox_token'' \<noteq> [] \<longrightarrow> GetNetBoxClient c = Some (mk (config_endpoint cm) (mget s ''netbox_token''))) \<and>
    event_requests ns rs (Unstructured_object hardwareGVK, n, x) =
      (if GetBackend cfg = ''tinkerbell'' then [(HardwareReconciler, n, x)] else []) \<and>
    event_requests ns rs (Unstructured_object capiClusterGVK, n, x) = [(ClusterReconciler, n, x)]"
proof -
  obtain booted boot w3 where b: "Bootstrap mk k (controller_namespace env) NewConfig w0 = (booted, boot, w3)" by (metis prod.collapse)
  from nproc.main_running [OF assms(1) b] have rs: "rs = controller_reconcilers cfg" by (auto split: if_split_asm)
  have "GetBackend cfg \<noteq> []" by (simp add: GetBackend_def defaultBackend_def)
  with rs have "event_requests ns rs (Unstructured_object hardwareGVK, n, x) =
      (if GetBackend cfg = ''tinkerbell'' then [(HardwareReconciler, n, x)] else [])"
    and "event_requests ns rs (Unstructured_object capiClusterGVK, n, x) = [(ClusterReconciler, n, x)]"
    by (simp_all add: event_requests_def controller_reconcilers_def kind_requests)
  with applied_settings [OF nwatch.quiet_current [OF assms(3-5)]] show ?thesis by blast
qed

theorem settings_at_run_time_witness:
  "\<exists>code w1 c w. netbox_updater_main (\<lambda>ep tok. mem_netbox) mem_otel (sample_manager None) process_env mem_kube (process_world ''tinkerbell'') =
      (code, Some (process_config ''tinkerbell'', controller_reconcilers (process_config ''tinkerbell'')), w1) \<and>
    (watch_step config_requests (mem_sources ''prod'' ConfigMapName SecretName) mem_kube ''prod'' ConfigMapName SecretName
        (applyConfigMapAndSecret (\<lambda>ep tok. mem_netbox)))\<^sup>*\<^sup>*
      (process_config ''tinkerbell'', process_world ''metal3'', {(''prod'', ConfigMapName)}, Waiting) (c, w, {}, Waiting) \<and>
    GetBackend c = ''metal3'' \<and>
    event_requests ''prod'' (controller_reconcilers (process_config ''tinkerbell'')) (Unstructured_object hardwareGVK, ''prod'', ''node7'') =
      [(HardwareReconciler, ''prod'', ''node7'')]"
proof -
  let ?mk = "\<lambda>ep tok. mem_netbox" and ?key = "(''prod'', ConfigMapName)" and ?cfg = "process_config ''tinkerbell''"
  let ?cm = "[(''backend'', ''metal3''), (''otel_enabled'', ''true''), (''otel_endpoint'', ''collector'')]"
  let ?s = "[(''netbox_token'', ''secret'')]"
  obtain code run w1 where run: "netbox_updater_main ?mk mem_otel (sample_manager None) process_env mem_kube (process_world ''tinkerbell'') = (code, run, w1)"
    by (metis prod.collapse)
  with nproc.main_running [OF run process_boot] have
    main: "netbox_updater_main ?mk mem_otel (sample_manager None) process_env mem_kube (process_world ''tinkerbell'') =
      (code, Some (?cfg, controller_reconcilers ?cfg), w1)" by (simp add: sample_manager_def register_iff)
  have "ConfigReconcile ?mk mem_kube ''prod'' ?cfg (process_world ''metal3'') =
      ((no_requeue, None), applyConfigMapAndSecret ?mk ?cm ?s ?cfg, process_world ''metal3'')"
    by (simp add: ConfigReconcile_def process_reads)
  note worker = nwatch.worker_watch [OF nwatch.worker_runs [OF this, of "{}" ?key], of "mem_sources ''prod'' ConfigMapName SecretName"]
  have "watch_step config_requests (mem_sources ''prod'' ConfigMapName SecretName) mem_kube ''prod'' ConfigMapName SecretName
      (applyConfigMapAndSecret ?mk) (?cfg, process_world ''metal3'', {?key}, Waiting) (?cfg, process_world ''metal3'', {}, Reading ?key)"
    using watch_step.taken [of ?key "{?key}"] by fastforce
  with worker [simplified if_P [OF refl]] have reload:
    "(watch_step config_requests (mem_sources ''prod'' ConfigMapName SecretName) mem_kube ''prod'' ConfigMapName SecretName
        (applyConfigMapAndSecret ?mk))\<^sup>*\<^sup>* (?cfg, process_world ''metal3'', {?key}, Waiting)
      (applyConfigMapAndSecret ?mk ?cm ?s ?cfg, process_world ''metal3'', {}, Waiting)"
    by (meson converse_rtranclp_into_rtranclp)
  from settings_at_run_time [OF main process_reads(4) [symmetric] mem_source_laws reload process_reads(3), of "''prod''" "''node7''"]
  have "GetBackend (applyConfigMapAndSecret ?mk ?cm ?s ?cfg) = ''metal3''"
    "event_requests ''prod'' (controller_reconcilers ?cfg) (Unstructured_object hardwareGVK, ''prod'', ''node7'') = [(HardwareReconciler, ''prod'', ''node7'')]"
    by (simp_all add: process_settings)
  with main reload show ?thesis by blast
qed

text \<open>
  C40. Tracing never decides whether the controller runs, and its spans are flushed only at an orderly
  end. The reconcilers start exactly if the manager was created and they could be registered,
  whatever the tracing library answers. A provider is live only if tracing is enabled with an
  endpoint; after exit code 0 none is left, while every exit with code 1 after the set-up leaves
  the provider running, because \<open>os.Exit\<close> skips the deferred shutdown.
\<close>
theorem tracing_of_process:
  assumes "otel_laws lib live" and "\<forall>ns n w. live (snd (ConfigMapGet k ns n w)) = live w"
    and "\<forall>ns n w. live (snd (SecretGet k ns n w)) = live w" and "\<forall>rs w. live (snd (Start mgr rs w)) = live w"
    and "live w = {}" and "Bootstrap mk k (controller_namespace env) NewConfig w = (booted, cfg, w1)"
    and "start_tracing (InitOtel lib (GetOtelEndpoint cfg)) (GetOtelEnabled cfg) w1 = (provider, w2)"
    and "netbox_updater_main mk lib mgr env k w = (code, run, w')"
  shows "(run \<noteq> None \<longleftrightarrow> NewManager mgr (controller_namespace env) (leaderElect env) = None \<and>
      (\<forall>r \<in> set (controller_reconcilers cfg). SetupWithManager mgr r = None)) \<and>
    (provider \<noteq> None \<longrightarrow> GetOtelEnabled cfg \<and> GetOtelEndpoint cfg \<noteq> []) \<and>
    (code = 0 \<and> live w' = {} \<or>
     code = 1 \<and> live w' = (if NewManager mgr (controller_namespace env) (leaderElect env) = None then set_option provider else {}))"
proof -
  have boot: "live (snd (snd (Bootstrap mk k ns NewConfig w))) = live w" for ns w
    using assms(2,3) by (intro ncfg.boot_view) simp_all
  have start: "live (snd (Start mgr rs w)) = live w" for rs w using assms(4) by simp
  from nproc.main_running [OF assms(8,6)] have "run \<noteq> None \<longleftrightarrow> NewManager mgr (controller_namespace env) (leaderElect env) = None \<and>
      (\<forall>r \<in> set (controller_reconcilers cfg). SetupWithManager mgr r = None)" by (simp add: register_iff)
  moreover from nproc.start_live(2) [OF assms(1,7)] have "provider \<noteq> None \<longrightarrow> GetOtelEnabled cfg \<and> GetOtelEndpoint cfg \<noteq> []" by blast
  moreover from nproc.main_live [OF assms(1) boot start assms(5,8,6)] assms(7)
  have "code = 0 \<and> live w' = {} \<or>
     code = 1 \<and> live w' = (if NewManager mgr (controller_namespace env) (leaderElect env) = None then set_option provider else {})"
    by (auto split: if_split_asm)
  ultimately show ?thesis by blast
qed

theorem tracing_of_process_witness:
  "\<exists>w1 w2 run1 run2.
     netbox_updater_main (\<lambda>ep tok. mem_netbox) mem_otel (sample_manager None) process_env mem_kube (process_world ''metal3'') = (0, run1, w1) \<and>
     mem_live w1 = {} \<and>
     netbox_updater_main (\<lambda>ep tok. mem_netbox) mem_otel (sample_manager (Some not_found)) process_env mem_kube (process_world ''metal3'') =
       (1, run2, w2) \<and> mem_live w2 = {''machinecfg-controller-netbox-updater to collector''}"
proof -
  let ?main = "\<lambda>e. netbox_updater_main (\<lambda>ep tok. mem_netbox) mem_otel (sample_manager e) process_env mem_kube (process_world ''metal3'')"
  let ?tp = "''machinecfg-controller-netbox-updater to collector''" and ?cfg = "process_config ''metal3''"
  have new: "NewManager (sample_manager e) (controller_namespace process_env) (leaderElect process_env) = None" for e
    by (simp add: sample_manager_def)
  have "fst (start_tracing (InitOtel mem_otel (GetOtelEndpoint ?cfg)) (GetOtelEnabled ?cfg) (process_world ''metal3'')) = Some ?tp"
    by (simp only: process_settings start_tracing_def if_True InitOtel_def) (simp add: mem_otel_def otelServiceName_def Let_def)
  then obtain w3 where tp: "start_tracing (InitOtel mem_otel (GetOtelEndpoint ?cfg)) (GetOtelEnabled ?cfg) (process_world ''metal3'') = (Some ?tp, w3)"
    by (metis prod.collapse)
  have code: "fst (?main e) = (if e = None then 0 else 1)" for e
  proof -
    obtain code run w' where m: "?main e = (code, run, w')" by (metis prod.collapse)
    have "code = (if e = None then 0 else 1)"
    proof (rule nproc.main_parts [OF m new])
      fix tp w2 running and cfg :: "mem netbox Config"
      assume "run_process mem_otel tp (sample_manager e) (controller_reconcilers cfg) w2 = (code, running, w')"
      then show ?thesis by (auto simp: run_process_def register_iff serve_def sample_manager_def split: option.split_asm)
    qed
    with m show ?thesis by simp
  qed
  obtain run1 w1 run2 w2 where m: "?main None = (0, run1, w1)" "?main (Some not_found) = (1, run2, w2)"
    using code [of None] code [of "Some not_found"] by (metis option.simps(3) prod.collapse)
  note live = tracing_of_process [OF mem_otel_laws mem_reads_live(1,2,3,4) process_boot tp]
  from live [OF m(1)] have "mem_live w1 = {}" by simp
  moreover from live [OF m(2)] new have "mem_live w2 = {?tp}" by simp
  ultimately show ?thesis using m by blast
qed

end
