(* ===== verification/Kubernetes_Updater.thy ===== *)
theory Kubernetes_Updater
  imports Controller_Process Tinkerbell_Hardware
begin

text \<open>
  The controller that writes Kubernetes from NetBox
  (\<open>internal/controller/kubernetes_updater\<close>): its configuration, the reconciler that reloads it,
  and the reconciler that polls NetBox and creates, relabels and deletes Hardware objects. The
  state of the running controller is the pair of its configuration and the world.
\<close>

section \<open>Configuration (config.go)\<close>

definition ConfigMapName :: string where
  "ConfigMapName = ''kubernetes-updater-config''"

definition SecretName :: string where
  "SecretName = ''kubernetes-updater-secret''"

definition defaultNetBoxEndpoint :: string where
  "defaultNetBoxEndpoint = ''http://netbox.svc''"

definition defaultBackend :: string where
  "defaultBackend = ''tinkerbell''"

definition defaultSyncInterval :: int where
  "defaultSyncInterval = 5 * Minute"

record 'c Config =
  netboxEndpoint :: string
  netboxToken :: string
  backend :: string
  syncInterval :: int
  ignitionVariant :: "string option"
  deviceFilters :: device_filters
  otelEnabled :: bool
  otelEndpoint :: string
  netboxClient :: "'c option"

definition NewConfig :: "'c Config" where
  "NewConfig = \<lparr>netboxEndpoint = defaultNetBoxEndpoint, netboxToken = [], backend = defaultBackend,
     syncInterval = defaultSyncInterval, ignitionVariant = None, deviceFilters = no_filters,
     otelEnabled = False, otelEndpoint = [], netboxClient = None\<rparr>"

definition GetNetBoxClient :: "'c Config \<Rightarrow> 'c option" where
  "GetNetBoxClient c = netboxClient c"

definition GetBackend :: "'c Config \<Rightarrow> string" where
  "GetBackend c = (if backend c = [] then defaultBackend else backend c)"

definition GetSyncInterval :: "'c Config \<Rightarrow> int" where
  "GetSyncInterval c = (if syncInterval c \<le> 0 then defaultSyncInterval else syncInterval c)"

definition GetDeviceFilters :: "'c Config \<Rightarrow> device_filters" where
  "GetDeviceFilters c = deviceFilters c"

definition GetIgnitionVariant :: "'c Config \<Rightarrow> string option" where
  "GetIgnitionVariant c = ignitionVariant c"

definition GetOtelEnabled :: "'c Config \<Rightarrow> bool" where
  "GetOtelEnabled c = otelEnabled c"

definition GetOtelEndpoint :: "'c Config \<Rightarrow> string" where
  "GetOtelEndpoint c = otelEndpoint c"

text \<open>The getters that only read a field.\<close>

lemmas plain_getters [simp] = GetNetBoxClient_def GetDeviceFilters_def GetIgnitionVariant_def GetOtelEnabled_def GetOtelEndpoint_def

text \<open>A nil slice and an empty one are both the empty list.\<close>

definition splitCSV :: "string \<Rightarrow> string list" where
  "splitCSV s =
     (let s = TrimSpace s in
      if s = [] then []
      else filter (\<lambda>t. t \<noteq> []) (map (\<lambda>p. ToLower (TrimSpace p)) (Split s CHR '','')))"

definition update ::
  "(string \<Rightarrow> string \<Rightarrow> 'c) \<Rightarrow> string \<Rightarrow> string \<Rightarrow> string \<Rightarrow> int \<Rightarrow> string option \<Rightarrow> device_filters \<Rightarrow> bool \<Rightarrow> string \<Rightarrow>
   'c Config \<Rightarrow> 'c Config" where
  "update NewAPIClientFor endpoint token b interval variant filters otel otelEp c =
     (let c = c\<lparr>netboxEndpoint := endpoint, netboxToken := token, backend := b, syncInterval := interval,
            ignitionVariant := variant, deviceFilters := filters, otelEnabled := otel, otelEndpoint := otelEp\<rparr>
      in if endpoint \<noteq> [] \<and> token \<noteq> [] then c\<lparr>netboxClient := Some (NewAPIClientFor endpoint token)\<rparr> else c)"

definition config_endpoint :: "string_map \<Rightarrow> string" where
  "config_endpoint cm =
     (if mget cm ''netbox_endpoint'' = [] then defaultNetBoxEndpoint else mget cm ''netbox_endpoint'')"

definition config_interval :: "string_map \<Rightarrow> int" where
  "config_interval cm =
     (let raw = mget cm ''sync_interval'' in
      if raw = [] then defaultSyncInterval
      else case ParseDuration raw of
             Some d \<Rightarrow> if d > 0 then d else defaultSyncInterval
           | None \<Rightarrow> defaultSyncInterval)"

definition config_filters :: "string_map \<Rightarrow> device_filters" where
  "config_filters cm = no_filters\<lparr>f_Sites := splitCSV (mget cm ''sites''), f_Roles := splitCSV (mget cm ''roles''),
     f_Tenants := splitCSV (mget cm ''tenants''), f_Regions := splitCSV (mget cm ''regions''),
     f_Locations := splitCSV (mget cm ''locations'')\<rparr>"

definition applyConfigMapAndSecret ::
  "(string \<Rightarrow> string \<Rightarrow> 'c) \<Rightarrow> string_map \<Rightarrow> string_map \<Rightarrow> 'c Config \<Rightarrow> 'c Config" where
  "applyConfigMapAndSecret NewAPIClientFor cm secret c =
     (let endpoint = config_endpoint cm;
          b = (if mget cm ''backend'' = [] then defaultBackend else mget cm ''backend'');
          variant = (let v = TrimSpace (mget cm ''ignition_variant'') in if v \<noteq> [] then Some v else None);
          token = mget secret ''netbox_token''
      in update NewAPIClientFor endpoint token b (config_interval cm) variant (config_filters cm)
           (mget cm ''otel_enabled'' = ''true'') (mget cm ''otel_endpoint'') c)"

definition Bootstrap ::
  "(string \<Rightarrow> string \<Rightarrow> 'c) \<Rightarrow> ('w, 'o) kube \<Rightarrow> string \<Rightarrow> 'c Config \<Rightarrow> 'w \<Rightarrow> unit result \<times> 'c Config \<times> 'w" where
  "Bootstrap NewAPIClientFor k namespace c w =
     (case ConfigMapGet k namespace ConfigMapName w of
        (Inl err, w) \<Rightarrow>
          (Inl (Wrapf (''cannot read ConfigMap '' @ namespace @ ''/'' @ ConfigMapName @ '': '') err), c, w)
      | (Inr cm, w) \<Rightarrow>
          (case SecretGet k namespace SecretName w of
             (Inl err, w) \<Rightarrow>
               (Inl (Wrapf (''cannot read Secret '' @ namespace @ ''/'' @ SecretName @ '': '') err), c, w)
           | (Inr secret, w) \<Rightarrow> (Inr (), applyConfigMapAndSecret NewAPIClientFor cm secret c, w)))"

definition ConfigReconcile ::
  "(string \<Rightarrow> string \<Rightarrow> 'c) \<Rightarrow> ('w, 'o) kube \<Rightarrow> string \<Rightarrow> 'c Config \<Rightarrow> 'w \<Rightarrow> reconciled \<times> 'c Config \<times> 'w" where
  "ConfigReconcile NewAPIClientFor k namespace c w =
     (case ConfigMapGet k namespace ConfigMapName w of
        (Inl err, w) \<Rightarrow> ((no_requeue, IgnoreNotFound err), c, w)
      | (Inr cm, w) \<Rightarrow>
          (case SecretGet k namespace SecretName w of
             (Inl err, w) \<Rightarrow> ((no_requeue, IgnoreNotFound err), c, w)
           | (Inr secret, w) \<Rightarrow> ((no_requeue, None), applyConfigMapAndSecret NewAPIClientFor cm secret c, w)))"

section \<open>Synchronisation (netbox\_sync\_reconciler.go)\<close>

definition applyHardware :: "('w, 'o) kube \<Rightarrow> 'w netbox \<Rightarrow> hardware \<Rightarrow> ('w, unit) call" where
  "applyHardware k nb hw w =
     (case HardwareGet k (hw_Namespace hw) (hw_Name hw) w of
        (Inl err, w) \<Rightarrow>
          if IsNotFound err then
            (case HardwareCreate k hw w of
               (Inl createErr, w) \<Rightarrow>
                 (Inl (Wrapf (''cannot create Hardware '' @ hw_Namespace hw @ ''/'' @ hw_Name hw @ '': '') createErr), w)
             | (Inr created, w) \<Rightarrow> (Inr (), w))
          else (Inl (Wrapf (''cannot get Hardware '' @ hw_Namespace hw @ ''/'' @ hw_Name hw @ '': '') err), w)
      | (Inr existing, w) \<Rightarrow>
          (case ReconcileExistingHardware k hw nb w of
             (Inl reconcileErr, w) \<Rightarrow>
               (Inl (Wrapf (''cannot reconcile Hardware '' @ hw_Namespace hw @ ''/'' @ hw_Name hw @ '': '') reconcileErr), w)
           | (Inr u, w) \<Rightarrow> (Inr (), w)))"

definition pruneHardware :: "('w, 'o) kube \<Rightarrow> string \<Rightarrow> hardware \<Rightarrow> ('w, unit) call" where
  "pruneHardware k namespace hw w =
     (case HardwareGet k (hw_Namespace hw) (hw_Name hw) w of
        (Inl err, w) \<Rightarrow>
          if IsNotFound err then (Inr (), w)
          else (Inl (Wrapf (''cannot get Hardware '' @ hw_Namespace hw @ ''/'' @ hw_Name hw @ '': '') err), w)
      | (Inr existing, w) \<Rightarrow>
          (case HardwareDelete k existing w of
             (Inl deleteErr, w) \<Rightarrow>
               (Inl (Wrapf (''cannot delete Hardware '' @ hw_Namespace hw @ ''/'' @ hw_Name hw @ '': '') deleteErr), w)
           | (Inr u, w) \<Rightarrow>
               (case ConfigMapGet k namespace ConfigMapName w of
                  (Inl getErr, w) \<Rightarrow> (Inr (), w)
                | (Inr cm, w) \<Rightarrow>
                    (Inr (), Eventf k ConfigMapName EventTypeNormal ''HardwarePruned''
                       (''Hardware '' @ hw_Namespace hw @ ''/'' @ hw_Name hw @
                        '' deleted (device is offline/planned in NetBox)'') w))))"

text \<open>A loop over objects that goes on after an error and counts the errors.\<close>

fun counted :: "(hardware \<Rightarrow> ('w, unit) call) \<Rightarrow> hardware list \<Rightarrow> nat \<Rightarrow> 'w \<Rightarrow> nat \<times> 'w" where
  "counted f [] syncErrors w = (syncErrors, w)"
| "counted f (hw # hws) syncErrors w =
     (case f hw w of
        (Inl err, w) \<Rightarrow> counted f hws (Suc syncErrors) w
      | (Inr u, w) \<Rightarrow> counted f hws syncErrors w)"

definition apply_and_prune ::
  "('w, 'o) kube \<Rightarrow> string \<Rightarrow> 'w netbox \<Rightarrow> hardware list \<Rightarrow> hardware list \<Rightarrow> ('w, unit) call" where
  "apply_and_prune k namespace nb desired toPrune w =
     (let (syncErrors, w) = counted (applyHardware k nb) desired 0 w;
          (syncErrors, w) = counted (pruneHardware k namespace) toPrune syncErrors w
      in if syncErrors > 0 then (Inl (Errorf (Utoa syncErrors @ '' Hardware object(s) failed to sync'')), w)
         else (Inr (), w))"

definition syncTinkerbell ::
  "(butane_config \<Rightarrow> string result) \<Rightarrow> ('w, 'o) kube \<Rightarrow> string \<Rightarrow> 'w netbox \<Rightarrow> device_filters \<Rightarrow> string option \<Rightarrow>
   ('w, unit result) go" where
  "syncTinkerbell ToIgn k namespace nb filters variant w = do {
     (desired, w) \<leftarrow> CreateHardwares ToIgn nb filters variant w;
     (case desired of
        Inl err \<Rightarrow> Some (Inl (Wrapf ''cannot build desired Hardware list from NetBox: '' err), w)
      | Inr desired \<Rightarrow> do {
          (toPrune, w) \<leftarrow> CreateHardwaresToPrune nb filters w;
          (case toPrune of
             Inl err \<Rightarrow> Some (Inl (Wrapf ''cannot build Hardware prune list from NetBox: '' err), w)
           | Inr toPrune \<Rightarrow> Some (apply_and_prune k namespace nb desired toPrune w))
        })
   }"

definition NetBoxSyncReconcile ::
  "(butane_config \<Rightarrow> string result) \<Rightarrow> ('w, 'o) kube \<Rightarrow> string \<Rightarrow> ('w netbox) Config \<Rightarrow> ('w, reconciled) go" where
  "NetBoxSyncReconcile ToIgn k namespace c w =
     (let after = \<lparr>Requeue = False, RequeueAfter = GetSyncInterval c\<rparr> in
      case GetNetBoxClient c of
        None \<Rightarrow> Some ((after, None), w)
      | Some nb \<Rightarrow>
          if GetBackend c = ''tinkerbell'' \<or> GetBackend c = [] then do {
            (r, w) \<leftarrow> syncTinkerbell ToIgn k namespace nb (GetDeviceFilters c) (GetIgnitionVariant c) w;
            (case r of
               Inl err \<Rightarrow> Some ((after, Some err), w)
             | Inr u \<Rightarrow> Some ((after, None), w))
          }
          else Some ((after, None), w))"

section \<open>Tracing (otel.go)\<close>

definition otelServiceName :: string where
  "otelServiceName = ''machinecfg-controller-kubernetes-updater''"

definition InitOtel :: "('w, 'e, 'r, 't) otel_library \<Rightarrow> string \<Rightarrow> ('w, 't option) call" where
  "InitOtel lib endpoint w =
     (if endpoint = [] then (Inr None, w)
      else case otlptracegrpc_New lib endpoint w of
             (Inl err, w) \<Rightarrow> (Inl (Wrapf (''cannot create OTEL trace exporter for '' @ endpoint @ '': '') err), w)
           | (Inr exporter, w) \<Rightarrow>
               (case resource_New lib otelServiceName w of
                  (Inl err, w) \<Rightarrow> (Inl (Wrapf ''cannot create OTEL resource: '' err), w)
                | (Inr res, w) \<Rightarrow>
                    let tp = NewTracerProvider lib exporter res in (Inr (Some tp), SetTracerProvider lib tp w)))"

section \<open>Start-up (controllers/controller-kubernetes-updater/main.go)\<close>

text \<open>
  The outcome of the process: its exit code and the reconcilers that were running, with the
  configuration they share.
\<close>

definition controller_reconcilers :: "'c Config \<Rightarrow> reconciler list" where
  "controller_reconcilers cfg = [ConfigReconciler, NetBoxSyncReconciler]"

definition kubernetes_updater_main ::
  "(string \<Rightarrow> string \<Rightarrow> 'c) \<Rightarrow> ('w, 'e, 'r, 't) otel_library \<Rightarrow> 'w manager \<Rightarrow> string_map \<Rightarrow> ('w, 'o) kube \<Rightarrow> 'w \<Rightarrow>
   nat \<times> ('c Config \<times> reconciler list) option \<times> 'w" where
  "kubernetes_updater_main NewAPIClientFor lib mgr env k w =
     (let namespace = controller_namespace env in
      if NewManager mgr namespace (leaderElect env) \<noteq> None then (1, None, w)
      else
        let (booted, cfg, w) = Bootstrap NewAPIClientFor k namespace NewConfig w;
            (shutdown, w) = start_tracing (InitOtel lib (GetOtelEndpoint cfg)) (GetOtelEnabled cfg) w;
            (code, running, w) = run_process lib shutdown mgr (controller_reconcilers cfg) w
        in (code, if running then Some (cfg, controller_reconcilers cfg) else None, w))"

section \<open>Facts on the configuration\<close>

text \<open>The tokens of a filter: not blank, trimmed, in lower case and without a comma.\<close>

definition csv_token :: "string \<Rightarrow> bool" where
  "csv_token t \<longleftrightarrow> t \<noteq> [] \<and> TrimSpace t = t \<and> ToLower t = t \<and> CHR '','' \<notin> set t"

lemma splitCSV_tokens:
  assumes "t \<in> set (splitCSV s)"
  shows "csv_token t"
proof -
  from assms obtain p where p: "p \<in> set (Split (TrimSpace s) CHR '','')" and t: "t = ToLower (TrimSpace p)" "t \<noteq> []"
    by (auto simp: splitCSV_def Let_def split: if_split_asm)
  from Split_no_sep [OF p] set_TrimSpace [of p] have "CHR '','' \<notin> set (TrimSpace p)" by auto
  moreover have "CHR '','' \<notin> set (ToLower u)" if "CHR '','' \<notin> set u" for u
  proof
    assume "CHR '','' \<in> set (ToLower u)"
    then obtain c where c: "c \<in> set u" "to_lower c = CHR '',''" unfolding ToLower_def by fastforce
    have "(of_char (CHR '','') :: nat) < 65" by simp
    from to_lower_eq_sep [OF this, of c] c(2) have "c = CHR '',''" by blast
    with c(1) that show False by blast
  qed
  ultimately have "CHR '','' \<notin> set t" unfolding t by blast
  moreover have "TrimSpace t = t" unfolding t ToLower_TrimSpace by simp
  ultimately show ?thesis using t by (simp add: csv_token_def)
qed

lemma Join_ends:
  "ts \<noteq> [] \<Longrightarrow> \<forall>t \<in> set ts. t \<noteq> [] \<Longrightarrow>
   Join ts sep \<noteq> [] \<and> hd (Join ts sep) = hd (hd ts) \<and> last (Join ts sep) = last (last ts)"
  by (induction ts sep rule: Join.induct) auto

lemma splitCSV_Join:
  assumes "ts \<noteq> []" and "\<forall>t \<in> set ts. csv_token t"
  shows "splitCSV (Join ts '','') = ts"
proof -
  have split: "Split (Join ts '','') CHR '','' = ts"
    using assms by (intro Split_Join) (auto simp: csv_token_def)
  have ends: "Join ts '','' \<noteq> []" "hd (Join ts '','') = hd (hd ts)" "last (Join ts '','') = last (last ts)"
    using Join_ends [OF assms(1), of "'',''"] assms(2) by (auto simp: csv_token_def)
  have "hd ts \<in> set ts" "last ts \<in> set ts" using assms(1) by auto
  with assms(2) have "\<not> is_space (hd (hd ts))" "\<not> is_space (last (last ts))"
    by (metis csv_token_def TrimSpace_hd, metis csv_token_def TrimSpace_last)
  with ends have trim: "TrimSpace (Join ts '','') = Join ts '',''" by (intro TrimSpace_id) simp
  have "map (\<lambda>p. ToLower (TrimSpace p)) ts = ts" "filter (\<lambda>t. t \<noteq> []) ts = ts"
    using assms by (simp_all add: csv_token_def map_idI)
  then show ?thesis unfolding splitCSV_def Let_def trim using ends(1) split by simp
qed

lemma splitCSV_given: "filter_given (splitCSV s) \<longleftrightarrow> splitCSV s \<noteq> []"
  using splitCSV_tokens [of _ s] by (cases "splitCSV s") (auto simp: csv_token_def)

text \<open>What every configuration that was applied satisfies.\<close>

definition config_wf :: "'c Config \<Rightarrow> bool" where
  "config_wf c \<longleftrightarrow> 0 < syncInterval c \<and> syncInterval c < 2 ^ 63 \<and> backend c \<noteq> [] \<and> netboxEndpoint c \<noteq> [] \<and>
     f_Status (deviceFilters c) = [] \<and>
     (\<forall>t \<in> set (f_Sites (deviceFilters c) @ f_Roles (deviceFilters c) @ f_Tenants (deviceFilters c) @
        f_Regions (deviceFilters c) @ f_Locations (deviceFilters c)). csv_token t)"

lemma config_interval_range: "0 < config_interval cm \<and> config_interval cm < 2 ^ 63"
  using ParseDuration_range [of "mget cm ''sync_interval''"]
  by (auto simp: config_interval_def defaultSyncInterval_def Minute_def Let_def split: option.split)

lemma NewConfig_wf: "config_wf NewConfig"
  by (simp add: config_wf_def NewConfig_def defaultSyncInterval_def Minute_def defaultBackend_def
      defaultNetBoxEndpoint_def no_filters_def)

lemma apply_wf: "config_wf (applyConfigMapAndSecret mk cm s c)"
  using config_interval_range [of cm] splitCSV_tokens
  by (auto simp: config_wf_def applyConfigMapAndSecret_def update_def config_filters_def config_endpoint_def
      no_filters_def defaultBackend_def defaultNetBoxEndpoint_def Let_def)

lemma apply_client:
  "netboxClient (applyConfigMapAndSecret mk cm s c) =
     (if mget s ''netbox_token'' \<noteq> [] then Some (mk (config_endpoint cm) (mget s ''netbox_token'')) else netboxClient c)"
  by (auto simp: applyConfigMapAndSecret_def update_def config_endpoint_def defaultNetBoxEndpoint_def Let_def)

interpretation kcfg: reloadable ConfigMapName SecretName config_endpoint mk "applyConfigMapAndSecret mk" netboxClient config_wf
    "Bootstrap mk" "ConfigReconcile mk" for mk
  by unfold_locales (simp_all only: apply_wf apply_client Bootstrap_def ConfigReconcile_def)

interpretation kproc: controller_process otelServiceName InitOtel "\<lambda>k ns. Bootstrap mk k ns NewConfig" GetOtelEnabled GetOtelEndpoint
    controller_reconcilers "kubernetes_updater_main mk" for mk
  by unfold_locales (rule InitOtel_def, rule kubernetes_updater_main_def)

lemma wf_getters:
  assumes "config_wf c"
  shows "GetBackend c = backend c" and "GetSyncInterval c = syncInterval c" and "0 < GetSyncInterval c"
  using assms by (auto simp: config_wf_def GetBackend_def GetSyncInterval_def)

lemma GetSyncInterval_pos: "0 < GetSyncInterval c"
  by (simp add: GetSyncInterval_def defaultSyncInterval_def Minute_def)

text \<open>
  The process: both reconcilers run with a well-formed configuration if the manager is there, whatever
  becomes of the tracing, and a provider is left behind exactly after a failure that follows its set-up.
\<close>

lemma updater_process:
  assumes "kubernetes_updater_main mk lib mgr env k w = (code, Some (cfg, rs), w')"
  shows "rs = [ConfigReconciler, NetBoxSyncReconciler] \<and> config_wf cfg \<and> (\<forall>r \<in> set rs. SetupWithManager mgr r = None)"
proof -
  obtain booted boot w1 where b: "Bootstrap mk k (controller_namespace env) NewConfig w = (booted, boot, w1)" by (metis prod.collapse)
  from kproc.main_running [OF assms b] have "cfg = boot" "rs = controller_reconcilers cfg" "register mgr rs"
    by (auto split: if_split_asm)
  with kcfg.inv_boot [OF b NewConfig_wf] show ?thesis by (simp add: controller_reconcilers_def register_iff)
qed

lemma updater_tracing:
  assumes "otel_laws lib live" and "\<And>ns n w. live (snd (ConfigMapGet k ns n w)) = live w"
    and "\<And>ns n w. live (snd (SecretGet k ns n w)) = live w" and "\<And>rs w. live (snd (Start mgr rs w)) = live w"
    and "live w = {}" and "kubernetes_updater_main mk lib mgr env k w = (code, run, w')"
    and "Bootstrap mk k (controller_namespace env) NewConfig w = (booted, cfg, w1)"
  shows "(code = 0 \<or> code = 1) \<and>
    live w' = (if code = 0 \<or> NewManager mgr (controller_namespace env) (leaderElect env) \<noteq> None then {}
      else set_option (fst (start_tracing (InitOtel lib (GetOtelEndpoint cfg)) (GetOtelEnabled cfg) w1)))"
proof (rule kproc.main_live [OF assms(1) _ assms(4-7)])
  show "live (snd (snd (Bootstrap mk k ns NewConfig w))) = live w" for ns w by (rule kcfg.boot_view [OF assms(2,3)])
qed

section \<open>Facts on the synchronisation\<close>

text \<open>What a successful treatment of an object makes of the store.\<close>

definition applied :: "hardware \<Rightarrow> hardware option \<Rightarrow> hardware" where
  "applied hw found = (case found of None \<Rightarrow> hw | Some h \<Rightarrow> relabelled hw h)"

definition apply_effect :: "hardware \<Rightarrow> hw_store \<Rightarrow> hw_store" where
  "apply_effect hw s = s(hw_key hw \<mapsto> applied hw (s (hw_key hw)))"

definition prune_effect :: "hardware \<Rightarrow> hw_store \<Rightarrow> hw_store" where
  "prune_effect hw s = s(hw_key hw := None)"

lemma status_step_store: "views_apart k hv nb v \<Longrightarrow> status_step desired h nb w = (r, w') \<Longrightarrow> hv w' = hv w"
  by (auto simp: status_step_def Let_def dest: views_apartD(3) split: if_split_asm option.split_asm prod.split_asm sum.split_asm)

lemma relabelled_unchanged:
  assumes "\<not> snd (merge_labels (hw_Labels d) (hw_Labels h) False)"
  shows "relabelled d h = h"
  using merge_labels_same [OF assms] by (simp add: relabelled_def)

lemma reconcile_store:
  assumes "hardware_laws k hv" and "views_apart k hv nb v" and "hv w (hw_key d) = Some h"
    and "ReconcileExistingHardware k d nb w = (r, w')"
  shows "hv w' = hv w \<or> hv w' = (hv w)(hw_key d \<mapsto> relabelled d h)"
proof (cases "HardwareGet k (hw_Namespace d) (hw_Name d) w" rule: call_cases)
  case (err e w1)
  with assms(4) get_lawD(1) [OF assms(1) err] show ?thesis by (simp add: ReconcileExistingHardware_def)
next
  case (ok h' w1)
  from get_lawD(2) [OF assms(1) ok] assms(3) have h': "h' = h" by simp
  note hv1 = get_lawD(1) [OF assms(1) ok]
  from hardware_laws_keyed [OF assms(1,3)] have key: "hw_key h = hw_key d" .
  obtain labels flag where m: "merge_labels (hw_Labels d) (hw_Labels h) False = (labels, flag)" by fastforce
  show ?thesis
  proof (cases flag)
    case False
    with assms(4) ok h' m have "status_step d h nb w1 = (r, w')" by (simp add: ReconcileExistingHardware_def)
    from status_step_store [OF assms(2) this] hv1 show ?thesis by simp
  next
    case True
    show ?thesis
    proof (cases "HardwarePatch k h (h\<lparr>hw_Labels := labels\<rparr>) w1" rule: call_cases)
      case (err e w2)
      with assms(4) ok h' m True patch_lawD(2) [OF assms(1) err] hv1 show ?thesis
        by (simp add: ReconcileExistingHardware_def)
    next
      case patch: (ok h2 w2)
      have "hw_key (h\<lparr>hw_Labels := labels\<rparr>) = hw_key h" by simp
      moreover have "hv w1 (hw_key h) = Some h" using assms(3) hv1 key by simp
      ultimately have "hv w2 = (hv w1)(hw_key h \<mapsto> h\<lparr>hw_Labels := labels\<rparr>)"
        using patch_lawD(1) [OF assms(1) patch] by blast
      moreover have "status_step d h2 nb w2 = (r, w')"
        using assms(4) ok h' m True patch by (simp add: ReconcileExistingHardware_def)
      ultimately show ?thesis using status_step_store [OF assms(2)] hv1 m key by (simp add: relabelled_def)
    qed
  qed
qed

lemma reconcile_success_store:
  assumes "hardware_laws k hv" and "views_apart k hv nb v" and "ReconcileExistingHardware k d nb w = (Inr u, w')"
    and "hv w (hw_key d) = Some h"
  shows "hv w' = (hv w)(hw_key d \<mapsto> relabelled d h)"
  using reconcile_success [OF assms(1-3)] assms(4) status_step_store [OF assms(2)] by (metis option.inject)

lemma applyHardware_store:
  assumes "hardware_laws k hv" and "views_apart k hv nb v" and "applyHardware k nb hw w = (r, w')"
  shows "r = Inr () \<longrightarrow> hv w' = apply_effect hw (hv w)" and "hv w' = hv w \<or> hv w' = apply_effect hw (hv w)"
proof -
  have "(r = Inr () \<longrightarrow> hv w' = apply_effect hw (hv w)) \<and> (hv w' = hv w \<or> hv w' = apply_effect hw (hv w))"
  proof (cases "HardwareGet k (hw_Namespace hw) (hw_Name hw) w" rule: call_cases)
    case (err e w1)
    note hv1 = get_lawD(1) [OF assms(1) err]
    show ?thesis
    proof (cases "IsNotFound e")
      case False
      with assms(3) err hv1 show ?thesis by (auto simp: applyHardware_def)
    next
      case True
      from get_lawD(3) [OF assms(1) err True] have none: "hv w (hw_key hw) = None" .
      show ?thesis
      proof (cases "HardwareCreate k hw w1" rule: call_cases)
        case create: (err e2 w2)
        with assms(3) err True create_lawD(3) [OF assms(1) create] hv1 show ?thesis by (auto simp: applyHardware_def)
      next
        case create: (ok h w2)
        with assms(3) err True create_lawD(2) [OF assms(1) create] hv1 none show ?thesis
          by (auto simp: applyHardware_def apply_effect_def applied_def)
      qed
    qed
  next
    case (ok h w1)
    note hv1 = get_lawD(1) [OF assms(1) ok] and h = get_lawD(2) [OF assms(1) ok]
    from h hv1 have h1: "hv w1 (hw_key hw) = Some h" by simp
    show ?thesis
    proof (cases "ReconcileExistingHardware k hw nb w1" rule: call_cases)
      case rec: (err e2 w2)
      with assms(3) ok reconcile_store [OF assms(1,2) h1 rec] hv1 h show ?thesis
        by (auto simp: applyHardware_def apply_effect_def applied_def)
    next
      case rec: (ok u w2)
      with assms(3) ok reconcile_success_store [OF assms(1,2) rec h1] hv1 h show ?thesis
        by (auto simp: applyHardware_def apply_effect_def applied_def)
    qed
  qed
  then show "r = Inr () \<longrightarrow> hv w' = apply_effect hw (hv w)" and "hv w' = hv w \<or> hv w' = apply_effect hw (hv w)"
    by blast+
qed

text \<open>The calls that leave the Hardware objects alone: the reading of the ConfigMap and the events.\<close>

definition quiet_events :: "('w, 'o) kube \<Rightarrow> ('w \<Rightarrow> hw_store) \<Rightarrow> bool" where
  "quiet_events k hv \<longleftrightarrow> (\<forall>ns n. pure_call hv (ConfigMapGet k ns n)) \<and> (\<forall>obj t r m w. hv (Eventf k obj t r m w) = hv w)"

lemma pruneHardware_store:
  assumes "hardware_laws k hv" and "quiet_events k hv" and "pruneHardware k ns hw w = (r, w')"
  shows "r = Inr () \<longrightarrow> hv w' = prune_effect hw (hv w)" and "hv w' = hv w \<or> hv w' = prune_effect hw (hv w)"
proof -
  from assms(2) have cm: "\<And>n w x w'. ConfigMapGet k ns n w = (x, w') \<Longrightarrow> hv w' = hv w"
    and ev: "\<And>obj t x m w. hv (Eventf k obj t x m w) = hv w"
    unfolding quiet_events_def by (auto dest: pure_callD)
  have "(r = Inr () \<longrightarrow> hv w' = prune_effect hw (hv w)) \<and> (hv w' = hv w \<or> hv w' = prune_effect hw (hv w))"
  proof (cases "HardwareGet k (hw_Namespace hw) (hw_Name hw) w" rule: call_cases)
    case (err e w1)
    note hv1 = get_lawD(1) [OF assms(1) err]
    have "hv w (hw_key hw) = None" if "IsNotFound e" using get_lawD(3) [OF assms(1) err that] .
    then have "IsNotFound e \<Longrightarrow> prune_effect hw (hv w) = hv w" by (auto simp: prune_effect_def)
    with assms(3) err hv1 show ?thesis by (auto simp: pruneHardware_def split: if_split_asm)
  next
    case (ok h w1)
    note hv1 = get_lawD(1) [OF assms(1) ok]
    from hardware_laws_keyed [OF assms(1) get_lawD(2) [OF assms(1) ok]] have key: "hw_key h = hw_key hw" .
    show ?thesis
    proof (cases "HardwareDelete k h w1" rule: call_cases)
      case del: (err e w2)
      with assms(3) ok hv1 delete_lawD(2) [OF assms(1) del] show ?thesis by (auto simp: pruneHardware_def)
    next
      case del: (ok u w2)
      have "hv w2 = prune_effect hw (hv w)"
        using delete_lawD(1) [OF assms(1) del] hv1 key by (simp add: prune_effect_def)
      with assms(3) ok del cm ev show ?thesis
        by (cases "ConfigMapGet k ns ConfigMapName w2" rule: call_cases) (auto simp: pruneHardware_def)
    qed
  qed
  then show "r = Inr () \<longrightarrow> hv w' = prune_effect hw (hv w)" and "hv w' = hv w \<or> hv w' = prune_effect hw (hv w)"
    by blast+
qed

text \<open>
  The contract of a worker on objects: a treatment without error has its effect on the store, a
  failed one has it or not, and the effect is on the object's own key. The loop over a list of
  objects then has all the effects, or those of a part of the list.
\<close>

locale store_worker =
  fixes laws :: "'e \<Rightarrow> bool"
    and view :: "'e \<Rightarrow> 'w \<Rightarrow> hw_store"
    and work :: "'e \<Rightarrow> hardware \<Rightarrow> ('w, unit) call"
    and effect :: "hardware \<Rightarrow> hw_store \<Rightarrow> hw_store"
  assumes work_done: "laws e \<Longrightarrow> work e hw w = (r, w') \<Longrightarrow> r = Inr () \<longrightarrow> view e w' = effect hw (view e w)"
    and work_some: "laws e \<Longrightarrow> work e hw w = (r, w') \<Longrightarrow> view e w' = view e w \<or> view e w' = effect hw (view e w)"
begin

lemma counted_ge: "counted (work e) hws n w = (m, w') \<Longrightarrow> n \<le> m \<and> m \<le> n + length hws"
proof (induction hws arbitrary: n w)
  case Nil
  then show ?case by simp
next
  case (Cons hw hws)
  show ?case
  proof (cases "work e hw w" rule: call_cases)
    case (err x w1)
    with Cons.prems Cons.IH [of "Suc n" w1] show ?thesis by simp
  next
    case (ok u w1)
    with Cons.prems Cons.IH [of n w1] show ?thesis by simp
  qed
qed

lemma counted_all:
  assumes "laws e" and "counted (work e) hws n w = (n, w')"
  shows "view e w' = fold effect hws (view e w)"
  using assms(2)
proof (induction hws arbitrary: w)
  case Nil
  then show ?case by simp
next
  case (Cons hw hws)
  show ?case
  proof (cases "work e hw w" rule: call_cases)
    case (err x w1)
    with Cons.prems counted_ge [of e hws "Suc n" w1 n w'] show ?thesis by simp
  next
    case (ok u w1)
    with Cons.prems have "counted (work e) hws n w1 = (n, w')" by simp
    with Cons.IH work_done [OF assms(1) ok] show ?thesis by simp
  qed
qed

lemma counted_some:
  assumes "laws e" and "counted (work e) hws n w = (m, w')"
  shows "\<exists>treated. subseq treated hws \<and> view e w' = fold effect treated (view e w)"
  using assms(2)
proof (induction hws arbitrary: n w)
  case Nil
  then show ?case by auto
next
  case (Cons hw hws)
  obtain r w1 where r: "work e hw w = (r, w1)" by fastforce
  with Cons.prems have "\<exists>n'. counted (work e) hws n' w1 = (m, w')" by (auto split: sum.split_asm)
  with Cons.IH obtain ts where ts: "subseq ts hws" "view e w' = fold effect ts (view e w1)" by blast
  from work_some [OF assms(1) r] show ?case
  proof
    assume "view e w1 = view e w"
    with ts show ?thesis by (intro exI [of _ ts]) auto
  next
    assume "view e w1 = effect hw (view e w)"
    with ts show ?thesis by (intro exI [of _ "hw # ts"]) auto
  qed
qed

end

interpretation applying: store_worker "\<lambda>(k, hv, nb, v). hardware_laws k hv \<and> views_apart k hv nb v" "\<lambda>(k, hv, nb, v). hv"
    "\<lambda>(k, hv, nb, v). applyHardware k nb" apply_effect
proof (unfold_locales, goal_cases)
  case (1 e hw w r w')
  obtain k hv nb v where "e = (k, hv, nb, v)" by (cases e)
  with 1 applyHardware_store(1) [of k hv nb v hw w r w'] show ?case by simp
next
  case (2 e hw w r w')
  obtain k hv nb v where "e = (k, hv, nb, v)" by (cases e)
  with 2 applyHardware_store(2) [of k hv nb v hw w r w'] show ?case by simp
qed

interpretation pruning: store_worker "\<lambda>(k, hv, ns). hardware_laws k hv \<and> quiet_events k hv" "\<lambda>(k, hv, ns). hv"
    "\<lambda>(k, hv, ns). pruneHardware k ns" prune_effect
proof (unfold_locales, goal_cases)
  case (1 e hw w r w')
  obtain k hv ns where "e = (k, hv, ns)" by (cases e)
  with 1 pruneHardware_store(1) [of k hv ns hw w r w'] show ?case by simp
next
  case (2 e hw w r w')
  obtain k hv ns where "e = (k, hv, ns)" by (cases e)
  with 2 pruneHardware_store(2) [of k hv ns hw w r w'] show ?case by simp
qed

text \<open>The store that a synchronisation aims at: the abstract specification.\<close>

definition wanted_store :: "hardware list \<Rightarrow> hardware list \<Rightarrow> hw_store \<Rightarrow> hw_store" where
  "wanted_store desired toPrune s key =
     (if key \<in> hw_key ` set toPrune then None
      else case find (\<lambda>hw. hw_key hw = key) desired of
             Some hw \<Rightarrow> Some (applied hw (s key))
           | None \<Rightarrow> s key)"

lemma fold_prune: "fold prune_effect hws s key = (if key \<in> hw_key ` set hws then None else s key)"
  by (induction hws arbitrary: s) (auto simp: prune_effect_def)

lemma find_key_None: "key \<notin> hw_key ` set hws \<Longrightarrow> find (\<lambda>x. hw_key x = key) hws = None"
  by (induction hws) auto

lemma fold_apply:
  "distinct (map hw_key hws) \<Longrightarrow>
   fold apply_effect hws s key = (case find (\<lambda>hw. hw_key hw = key) hws of Some hw \<Rightarrow> Some (applied hw (s key)) | None \<Rightarrow> s key)"
proof (induction hws arbitrary: s)
  case Nil
  then show ?case by simp
next
  case (Cons hw hws)
  have "hw_key hw \<notin> hw_key ` set hws" using Cons.prems by simp
  then have "find (\<lambda>x. hw_key x = hw_key hw) hws = None" by (rule find_key_None)
  moreover have "distinct (map hw_key hws)" using Cons.prems by simp
  note Cons.IH [OF this, of "apply_effect hw s"]
  ultimately show ?case by (auto simp: apply_effect_def split: option.split)
qed

lemma fold_wanted:
  "distinct (map hw_key desired) \<Longrightarrow>
   fold prune_effect toPrune (fold apply_effect desired s) = wanted_store desired toPrune s"
  by (intro ext) (simp add: fold_prune fold_apply wanted_store_def)

lemma apply_and_prune_success:
  assumes "hardware_laws k hv" and "views_apart k hv nb v" and "quiet_events k hv"
    and "apply_and_prune k ns nb desired toPrune w = (Inr u, w')"
  shows "hv w' = fold prune_effect toPrune (fold apply_effect desired (hv w))"
proof -
  obtain m w1 where a: "counted (applyHardware k nb) desired 0 w = (m, w1)" by fastforce
  obtain n w2 where p: "counted (pruneHardware k ns) toPrune m w1 = (n, w2)" by fastforce
  from assms(4) a p have "n = 0" and w': "w' = w2" by (auto simp: apply_and_prune_def split: if_split_asm)
  moreover from pruning.counted_ge [of "(k, hv, ns)" toPrune m w1 n w2] p have "m \<le> n" by simp
  ultimately have "m = 0" "n = 0" by simp_all
  with applying.counted_all [of "(k, hv, nb, v)" desired 0 w w1] a assms(1,2)
  have "hv w1 = fold apply_effect desired (hv w)" by simp
  moreover from pruning.counted_all [of "(k, hv, ns)" toPrune 0 w1 w2] p assms(1,3) \<open>m = 0\<close> \<open>n = 0\<close>
  have "hv w2 = fold prune_effect toPrune (hv w1)" by simp
  ultimately show ?thesis using w' by simp
qed

text \<open>Whatever happens, the store is that of a part of the work.\<close>

lemma apply_and_prune_some:
  assumes "hardware_laws k hv" and "views_apart k hv nb v" and "quiet_events k hv"
    and "apply_and_prune k ns nb desired toPrune w = (r, w')"
  shows "\<exists>ds ps. subseq ds desired \<and> subseq ps toPrune \<and> hv w' = fold prune_effect ps (fold apply_effect ds (hv w))"
proof -
  obtain m w1 where a: "counted (applyHardware k nb) desired 0 w = (m, w1)" by fastforce
  obtain n w2 where p: "counted (pruneHardware k ns) toPrune m w1 = (n, w2)" by fastforce
  from assms(4) a p have "w' = w2" by (auto simp: apply_and_prune_def split: if_split_asm)
  moreover from applying.counted_some [of "(k, hv, nb, v)" desired 0 w m w1] a assms(1,2) obtain ds where
    "subseq ds desired" "hv w1 = fold apply_effect ds (hv w)" by auto
  moreover from pruning.counted_some [of "(k, hv, ns)" toPrune m w1 n w2] p assms(1,3) obtain ps where
    "subseq ps toPrune" "hv w2 = fold prune_effect ps (hv w1)" by auto
  ultimately show ?thesis by (intro exI [of _ ds] exI [of _ ps]) simp
qed

text \<open>An object that was applied once is not changed by being applied again.\<close>

lemma relabelled_self:
  assumes "distinct (map fst (hw_Labels hw))"
  shows "relabelled hw hw = hw"
proof (rule relabelled_unchanged)
  show "\<not> snd (merge_labels (hw_Labels hw) (hw_Labels hw) False)"
    using assms by (auto simp: merge_labels_flag mget_def)
qed

lemma applied_idem:
  assumes "distinct (map fst (hw_Labels hw))"
  shows "applied hw (Some (applied hw h)) = applied hw h"
  using relabelled_self [OF assms] relabelled_idem [OF assms] by (simp add: applied_def split: option.split)

lemma wanted_store_idem:
  assumes "\<forall>hw \<in> set desired. distinct (map fst (hw_Labels hw))"
  shows "wanted_store desired toPrune (wanted_store desired toPrune s) = wanted_store desired toPrune s"
proof
  fix key
  show "wanted_store desired toPrune (wanted_store desired toPrune s) key = wanted_store desired toPrune s key"
  proof (cases "find (\<lambda>hw. hw_key hw = key) desired")
    case None
    then show ?thesis by (simp add: wanted_store_def)
  next
    case (Some hw)
    then have "hw \<in> set desired" by (auto simp: find_Some_iff)
    with assms have "distinct (map fst (hw_Labels hw))" by blast
    from applied_idem [OF this] Some show ?thesis by (simp add: wanted_store_def)
  qed
qed

section \<open>The running controller\<close>

text \<open>
  The steps of the process: a reload of the configuration, a synchronisation, and whatever the
  other clients of NetBox and Kubernetes do in between.
\<close>

inductive updater_step ::
  "(butane_config \<Rightarrow> string result) \<Rightarrow> (string \<Rightarrow> string \<Rightarrow> 'w netbox) \<Rightarrow> ('w, 'o) kube \<Rightarrow> string \<Rightarrow>
   'w netbox Config \<times> 'w \<Rightarrow> 'w netbox Config \<times> 'w \<Rightarrow> bool"
  for ToIgn mk k ns where
  reload: "ConfigReconcile mk k ns c w = (out, c', w') \<Longrightarrow> updater_step ToIgn mk k ns (c, w) (c', w')"
| sync: "NetBoxSyncReconcile ToIgn k ns c w = Some (out, w') \<Longrightarrow> updater_step ToIgn mk k ns (c, w) (c, w')"
| environment: "updater_step ToIgn mk k ns (c, w) (c, w')"

inductive_cases updater_stepE: "updater_step ToIgn mk k ns s s'"

definition controller_inv :: "(string \<Rightarrow> string \<Rightarrow> 'w netbox) \<Rightarrow> 'w netbox Config \<times> 'w \<Rightarrow> bool" where
  "controller_inv mk s \<longleftrightarrow> config_wf (fst s) \<and>
     (\<forall>nb. netboxClient (fst s) = Some nb \<longrightarrow> (\<exists>ep tok. tok \<noteq> [] \<and> nb = mk ep tok))"

lemma controller_inv_step: "updater_step ToIgn mk k ns s s' \<Longrightarrow> controller_inv mk s \<Longrightarrow> controller_inv mk s'"
proof (induction rule: updater_step.induct)
  case (reload c w out c' w')
  then show ?case
    using kcfg.inv_reload [OF reload(1)] kcfg.reload_client(1) [OF reload(1)]
    by (simp add: controller_inv_def kcfg.made_def)
qed (simp_all add: controller_inv_def)

lemma client_kept_step:
  "updater_step ToIgn mk k ns s s' \<Longrightarrow> netboxClient (fst s) \<noteq> None \<Longrightarrow> netboxClient (fst s') \<noteq> None"
  by (erule updater_stepE) (auto dest: kcfg.reload_client(2))

lemma NetBoxSyncReconcile_requeues:
  assumes "NetBoxSyncReconcile ToIgn k ns c w = Some ((res, err), w')"
  shows "res = \<lparr>Requeue = False, RequeueAfter = GetSyncInterval c\<rparr>"
  using assms by (auto simp: NetBoxSyncReconcile_def Let_def elim!: bind_SomeE
      split: option.split_asm if_split_asm sum.split_asm)

section \<open>Sample runs\<close>

lemma mem_quiet_events: "quiet_events mem_kube mem_store"
  unfolding quiet_events_def pure_call_def
  by (auto simp: mem_kube_def mem_store_def split: option.split)

lemma staged_prune: "CreateHardwaresToPrune mem_netbox no_filters staged_world = Some (Inr [], staged_world)"
proof -
  have "GetDevices mem_netbox (no_filters\<lparr>f_Status := [''offline'', ''planned'']\<rparr>) staged_world = (Inr (page []), staged_world)"
    by code_simp
  then show ?thesis by (simp add: CreateHardwaresToPrune_def page_def)
qed

definition updater_world :: mem where
  "updater_world = empty_mem\<lparr>m_configmaps := [((''machinecfg'', ConfigMapName),
       [(''sites'', '' Paris, ,LYON ''), (''sync_interval'', ''90s'')])],
     m_secrets := [((''machinecfg'', SecretName), [(''netbox_token'', ''secret'')])]\<rparr>"

section \<open>Properties\<close>

text \<open>
  C2. The synchronisation refines its specification. Once NetBox has given the desired objects and
  the objects to prune, the run goes to its end. If it reports no error the Hardware objects of
  the cluster are exactly those wanted: the objects to prune are gone, a desired object that was
  missing is there as desired, one that existed has the desired labels merged over its own, and
  every other object is untouched. If it reports errors, the store is that of a part of this
  work, so that no object is in any other state.
\<close>
theorem sync_refines_wanted_store:
  assumes "hardware_laws k hv" and "views_apart k hv nb v" and "quiet_events k hv"
    and "CreateHardwares ToIgn nb filters variant w = Some (Inr desired, w1)"
    and "CreateHardwaresToPrune nb filters w1 = Some (Inr toPrune, w2)"
    and "distinct (map hw_key desired)"
  shows "\<exists>r w'. syncTinkerbell ToIgn k ns nb filters variant w = Some (r, w') \<and>
    (r = Inr () \<longrightarrow> hv w' = wanted_store desired toPrune (hv w2)) \<and>
    (\<exists>ds ps. subseq ds desired \<and> subseq ps toPrune \<and> hv w' = wanted_store ds ps (hv w2))"
proof -
  obtain r w' where run: "apply_and_prune k ns nb desired toPrune w2 = (r, w')" by fastforce
  with assms(4,5) have "syncTinkerbell ToIgn k ns nb filters variant w = Some (r, w')"
    by (simp add: syncTinkerbell_def)
  moreover have "r = Inr () \<longrightarrow> hv w' = wanted_store desired toPrune (hv w2)"
    using apply_and_prune_success [OF assms(1-3), of ns desired toPrune w2 "()" w'] run fold_wanted [OF assms(6)] by simp
  moreover from apply_and_prune_some [OF assms(1-3) run] obtain ds ps where
    parts: "subseq ds desired" "subseq ps toPrune" "hv w' = fold prune_effect ps (fold apply_effect ds (hv w2))" by blast
  moreover have "distinct (map hw_key ds)"
    using subseq_map [OF parts(1), of hw_key] assms(6) by (auto simp: subseq_conv_nths)
  ultimately show ?thesis using fold_wanted [of ds ps "hv w2"] by metis
qed

theorem sync_refines_wanted_store_witness:
  "\<exists>r w'. syncTinkerbell no_ignition mem_kube ''machinecfg'' mem_netbox no_filters None staged_world = Some (r, w') \<and>
     (r = Inr () \<longrightarrow> mem_store w' = wanted_store [node7_hw] [] (mem_store staged_world))"
  using sync_refines_wanted_store [OF mem_hardware_laws mem_views_apart mem_quiet_events staged_run staged_prune,
      of "''machinecfg''"] by auto

text \<open>
  C13. The synchronisation converges: a second run over the same lists that reports no error, from
  any world with the same Hardware objects, changes none of them.
\<close>
theorem sync_converges:
  assumes "hardware_laws k hv" and "views_apart k hv nb v" and "quiet_events k hv"
    and "distinct (map hw_key desired)" and "\<forall>hw \<in> set desired. distinct (map fst (hw_Labels hw))"
    and "apply_and_prune k ns nb desired toPrune w = (Inr (), w1)" and "hv w2 = hv w1"
    and "apply_and_prune k ns nb desired toPrune w2 = (Inr (), w3)"
  shows "hv w3 = hv w1"
  using apply_and_prune_success [OF assms(1-3,6)] apply_and_prune_success [OF assms(1-3,8)] assms(7)
    fold_wanted [OF assms(4)] wanted_store_idem [OF assms(5)] by simp

theorem sync_converges_witness:
  "let w1 = snd (apply_and_prune mem_kube ''machinecfg'' mem_netbox [node7_hw] [provisioned_hw] staged_world);
       w2 = snd (apply_and_prune mem_kube ''machinecfg'' mem_netbox [node7_hw] [provisioned_hw] w1)
   in mem_store w2 = mem_store w1"
proof -
  let ?run = "apply_and_prune mem_kube ''machinecfg'' mem_netbox [node7_hw] [provisioned_hw]"
  have ok: "fst (?run staged_world) = Inr ()" "fst (?run (snd (?run staged_world))) = Inr ()"
    by (code_simp, code_simp)
  have "?run staged_world = (Inr (), snd (?run staged_world))"
    and "?run (snd (?run staged_world)) = (Inr (), snd (?run (snd (?run staged_world))))"
    using ok by (metis prod.collapse)+
  from sync_converges [OF mem_hardware_laws mem_views_apart mem_quiet_events _ _ this(1) refl this(2)] node7_labels(1)
  show ?thesis by simp
qed

text \<open>
  C5. The configuration of the running controller, in every state that it can reach from its start
  by any interleaving of reloads, synchronisations and outside changes: the polling interval is a
  positive 64-bit duration, the back end and the endpoint are not empty, the filters are trimmed,
  lower-case and not blank, and a client, once there, was built with a token that is not empty
  and is never lost again.
\<close>
theorem controller_invariant:
  assumes "(updater_step ToIgn mk k ns)\<^sup>*\<^sup>* (NewConfig, w0) (c, w)"
  shows "config_wf c \<and> 0 < GetSyncInterval c \<and> GetBackend c = backend c \<and>
    (\<forall>nb. netboxClient c = Some nb \<longrightarrow> (\<exists>ep tok. tok \<noteq> [] \<and> nb = mk ep tok)) \<and>
    (\<forall>c' w'. (updater_step ToIgn mk k ns)\<^sup>*\<^sup>* (c, w) (c', w') \<longrightarrow> netboxClient c \<noteq> None \<longrightarrow> netboxClient c' \<noteq> None)"
proof -
  have "controller_inv mk s" if "(updater_step ToIgn mk k ns)\<^sup>*\<^sup>* (NewConfig, w0) s" for s
    using that
  proof (induction rule: rtranclp_induct)
    case base
    show ?case using NewConfig_wf by (simp add: controller_inv_def) (simp add: NewConfig_def)
  next
    case (step s s')
    then show ?case using controller_inv_step by blast
  qed
  from this [OF assms] have inv: "config_wf c" "\<forall>nb. netboxClient c = Some nb \<longrightarrow> (\<exists>ep tok. tok \<noteq> [] \<and> nb = mk ep tok)"
    by (simp_all add: controller_inv_def)
  have "netboxClient (fst s) \<noteq> None \<longrightarrow> netboxClient (fst s') \<noteq> None" if "(updater_step ToIgn mk k ns)\<^sup>*\<^sup>* s s'" for s s'
    using that by (induction rule: rtranclp_induct) (auto dest: client_kept_step)
  from this [of "(c, w)"] inv wf_getters [OF inv(1)] show ?thesis by auto
qed

theorem controller_invariant_witness:
  "let c = fst (snd (ConfigReconcile (\<lambda>ep tok. mem_netbox) mem_kube ''machinecfg'' NewConfig updater_world))
   in 0 < GetSyncInterval c \<and> syncInterval c = 90000000000 \<and> f_Sites (deviceFilters c) = [''paris'', ''lyon''] \<and>
      netboxClient c = Some mem_netbox"
proof -
  let ?c = "fst (snd (ConfigReconcile (\<lambda>ep tok. mem_netbox) mem_kube ''machinecfg'' NewConfig updater_world))"
  let ?w = "snd (snd (ConfigReconcile (\<lambda>ep tok. mem_netbox) mem_kube ''machinecfg'' NewConfig updater_world))"
  have "updater_step no_ignition (\<lambda>ep tok. mem_netbox) mem_kube ''machinecfg'' (NewConfig, updater_world) (?c, ?w)"
    by (rule updater_step.reload) (simp add: prod_eq_iff)
  then have reach: "(updater_step no_ignition (\<lambda>ep tok. mem_netbox) mem_kube ''machinecfg'')\<^sup>*\<^sup>* (NewConfig, updater_world) (?c, ?w)" ..
  have get: "ConfigMapGet mem_kube ''machinecfg'' ConfigMapName updater_world =
      (Inr [(''sites'', '' Paris, ,LYON ''), (''sync_interval'', ''90s'')], updater_world)"
    "SecretGet mem_kube ''machinecfg'' SecretName updater_world = (Inr [(''netbox_token'', ''secret'')], updater_world)"
    by (simp_all add: mem_kube_def updater_world_def)
  have csv: "splitCSV '' Paris, ,LYON '' = [''paris'', ''lyon'']" by code_simp
  have "Utoa 90 = ''90''" by code_simp
  with ParseDuration_seconds [of 90] have "ParseDuration ''90s'' = Some 90000000000" by simp
  then have "syncInterval ?c = 90000000000 \<and> f_Sites (deviceFilters ?c) = [''paris'', ''lyon''] \<and> netboxClient ?c = Some mem_netbox"
    by (simp add: ConfigReconcile_def get applyConfigMapAndSecret_def update_def config_interval_def config_filters_def
        config_endpoint_def defaultNetBoxEndpoint_def csv)
  with controller_invariant [OF reach] show ?thesis by simp
qed

text \<open>
  C16. Polling never stops: whatever the configuration and whatever NetBox and Kubernetes answer, a
  synchronisation returns and asks to be run again after a positive delay, the configured one;
  without a client, and with any back end other than Tinkerbell, it touches nothing. The only
  exception is a panic while one of the two lists of objects is built from NetBox.
\<close>
theorem sync_always_requeues:
  "case NetBoxSyncReconcile ToIgn k ns c w of
     Some ((res, err), w') \<Rightarrow>
       RequeueAfter res = GetSyncInterval c \<and> 0 < RequeueAfter res \<and>
       (netboxClient c = None \<or> GetBackend c \<noteq> ''tinkerbell'' \<longrightarrow> err = None \<and> w' = w)
   | None \<Rightarrow> \<exists>nb. netboxClient c = Some nb \<and> GetBackend c = ''tinkerbell'' \<and>
       (CreateHardwares ToIgn nb (deviceFilters c) (ignitionVariant c) w = None \<or>
        (\<exists>hws w1. CreateHardwares ToIgn nb (deviceFilters c) (ignitionVariant c) w = Some (Inr hws, w1) \<and>
           CreateHardwaresToPrune nb (deviceFilters c) w1 = None))"
proof (cases "NetBoxSyncReconcile ToIgn k ns c w")
  case None
  have backend: "GetBackend c \<noteq> []" by (simp add: GetBackend_def defaultBackend_def)
  with None obtain nb where "netboxClient c = Some nb" "GetBackend c = ''tinkerbell''"
    "syncTinkerbell ToIgn k ns nb (deviceFilters c) (ignitionVariant c) w = None"
    by (auto simp: NetBoxSyncReconcile_def Let_def bind_eq_None_conv split: option.split_asm if_split_asm sum.split_asm prod.split_asm)
  moreover from this(3) have "CreateHardwares ToIgn nb (deviceFilters c) (ignitionVariant c) w = None \<or>
        (\<exists>hws w1. CreateHardwares ToIgn nb (deviceFilters c) (ignitionVariant c) w = Some (Inr hws, w1) \<and>
           CreateHardwaresToPrune nb (deviceFilters c) w1 = None)"
    by (auto simp: syncTinkerbell_def bind_eq_None_conv split: sum.split_asm prod.split_asm)
  ultimately show ?thesis using None by simp
next
  case (Some x)
  obtain res err w' where x: "x = ((res, err), w')" by (metis prod.exhaust)
  with Some have run: "NetBoxSyncReconcile ToIgn k ns c w = Some ((res, err), w')" by simp
  have "GetBackend c \<noteq> []" by (simp add: GetBackend_def defaultBackend_def)
  with run have "netboxClient c = None \<or> GetBackend c \<noteq> ''tinkerbell'' \<Longrightarrow> err = None \<and> w' = w"
    by (auto simp: NetBoxSyncReconcile_def Let_def split: option.split_asm)
  with run NetBoxSyncReconcile_requeues [OF run] GetSyncInterval_pos [of c] show ?thesis by simp
qed

theorem sync_always_requeues_witness:
  "0 < RequeueAfter (fst (fst (the (NetBoxSyncReconcile no_ignition mem_kube ''machinecfg'' NewConfig staged_world))))"
proof -
  have run: "NetBoxSyncReconcile no_ignition mem_kube ''machinecfg'' NewConfig staged_world =
      Some ((\<lparr>Requeue = False, RequeueAfter = GetSyncInterval (NewConfig :: mem netbox Config)\<rparr>, None), staged_world)"
    by (simp add: NetBoxSyncReconcile_def NewConfig_def Let_def)
  from sync_always_requeues [where ToIgn = no_ignition and k = mem_kube and ns = "''machinecfg''" and c = NewConfig and w = staged_world]
  show ?thesis
    unfolding run by simp
qed

text \<open>
  The filters of the ConfigMap: the tokens of a comma-separated value are read back from it,
  and a blank value gives no filter, exactly as an absent key.
\<close>
lemma csv_roundtrip:
  assumes "ts \<noteq> []" and "\<forall>t \<in> set ts. csv_token t"
  shows "splitCSV (Join ts '','') = ts \<and> filter_given (splitCSV (Join ts '','')) \<and>
    (TrimSpace s = [] \<longrightarrow> \<not> filter_given (splitCSV s)) \<and> (\<forall>t \<in> set (splitCSV s). csv_token t)"
proof (intro conjI)
  show "splitCSV (Join ts '','') = ts" by (rule splitCSV_Join [OF assms])
  then show "filter_given (splitCSV (Join ts '',''))" using assms(1) unfolding splitCSV_given by simp
  show "TrimSpace s = [] \<longrightarrow> \<not> filter_given (splitCSV s)" by (simp add: splitCSV_def)
  show "\<forall>t \<in> set (splitCSV s). csv_token t" using splitCSV_tokens by blast
qed

end
