(* ===== verification/Controller_Events.thy ===== *)
theory Controller_Events
  imports Kubernetes_Updater Config_Watch
begin

text \<open>
  The events of the kubernetes updater and the interleaving of its reconcilers. The shared
  configuration is read through getters, each of which takes the lock for itself, while a reload
  may replace the configuration between any two of them. Here a poll is a sequence of such reads
  next to reloads; the theorems relate it to the single step \<open>NetBoxSyncReconcile\<close>.
\<close>

section \<open>Watches (SetupWithManager)\<close>

text \<open>
  A predicate sees the object of an event, whatever its kind; \<open>For\<close> and \<open>Watches\<close> choose the kind.
  The poll listens to the ConfigMap only.
\<close>

definition cmPredicate :: "string \<Rightarrow> event \<Rightarrow> bool" where
  "cmPredicate namespace obj \<longleftrightarrow> (case obj of (kind, ns, name) \<Rightarrow> name = ConfigMapName \<and> ns = namespace)"

definition secretPredicate :: "string \<Rightarrow> event \<Rightarrow> bool" where
  "secretPredicate namespace obj \<longleftrightarrow> (case obj of (kind, ns, name) \<Rightarrow> name = SecretName \<and> ns = namespace)"

definition secretHandler :: "string \<Rightarrow> event \<Rightarrow> request list" where
  "secretHandler namespace obj =
     (case obj of (kind, ns, name) \<Rightarrow> if name = SecretName \<and> ns = namespace then [(namespace, ConfigMapName)] else [])"

definition config_requests :: "string \<Rightarrow> event \<Rightarrow> request list" where
  "config_requests namespace e =
     (case e of
        (ConfigMap_object, ns, name) \<Rightarrow> if cmPredicate namespace e then [(ns, name)] else []
      | (Secret_object, ns, name) \<Rightarrow> if secretPredicate namespace e then secretHandler namespace e else []
      | (Unstructured_object g, ns, name) \<Rightarrow> [])"

definition sync_requests :: "string \<Rightarrow> event \<Rightarrow> request list" where
  "sync_requests namespace e =
     (case e of
        (ConfigMap_object, ns, name) \<Rightarrow> if cmPredicate namespace e then [(ns, name)] else []
      | (Secret_object, ns, name) \<Rightarrow> []
      | (Unstructured_object g, ns, name) \<Rightarrow> [])"

section \<open>A poll, read by read\<close>

text \<open>
  Where a poll is, with what it has read so far. \<open>NilClient\<close> is the use of a nil client after the
  check, \<open>Panicked\<close> a panic of the packages that it calls.
\<close>

datatype 'c poll =
    Start
  | Backend
  | Client
  | Filters 'c
  | Variant 'c device_filters
  | Working 'c device_filters "string option"
  | Interval "go_error option"
  | Finished reconciled
  | NilClient
  | Panicked

inductive read_step ::
  "(butane_config \<Rightarrow> string result) \<Rightarrow> ('w, 'o) kube \<Rightarrow> string \<Rightarrow>
   'w netbox Config \<times> 'w \<times> 'w netbox poll \<Rightarrow> 'w netbox Config \<times> 'w \<times> 'w netbox poll \<Rightarrow> bool"
  for ToIgn k ns where
  no_client: "GetNetBoxClient c = None \<Longrightarrow> read_step ToIgn k ns (c, w, Start) (c, w, Interval None)"
| client: "GetNetBoxClient c \<noteq> None \<Longrightarrow> read_step ToIgn k ns (c, w, Start) (c, w, Backend)"
| tinkerbell: "GetBackend c = ''tinkerbell'' \<or> GetBackend c = [] \<Longrightarrow> read_step ToIgn k ns (c, w, Backend) (c, w, Client)"
| other: "\<not> (GetBackend c = ''tinkerbell'' \<or> GetBackend c = []) \<Longrightarrow> read_step ToIgn k ns (c, w, Backend) (c, w, Interval None)"
| get_client: "GetNetBoxClient c = Some nb \<Longrightarrow> read_step ToIgn k ns (c, w, Client) (c, w, Filters nb)"
| nil_client: "GetNetBoxClient c = None \<Longrightarrow> read_step ToIgn k ns (c, w, Client) (c, w, NilClient)"
| get_filters: "read_step ToIgn k ns (c, w, Filters nb) (c, w, Variant nb (GetDeviceFilters c))"
| get_variant: "read_step ToIgn k ns (c, w, Variant nb f) (c, w, Working nb f (GetIgnitionVariant c))"
| work: "syncTinkerbell ToIgn k ns nb f v w = Some (r, w') \<Longrightarrow>
    read_step ToIgn k ns (c, w, Working nb f v) (c, w', Interval (case r of Inl err \<Rightarrow> Some err | Inr u \<Rightarrow> None))"
| panic: "syncTinkerbell ToIgn k ns nb f v w = None \<Longrightarrow> read_step ToIgn k ns (c, w, Working nb f v) (c, w, Panicked)"
| get_interval: "read_step ToIgn k ns (c, w, Interval err)
    (c, w, Finished (\<lparr>Requeue = False, RequeueAfter = GetSyncInterval c\<rparr>, err))"

text \<open>Between two reads the configuration may be reloaded and other parts of the system may change the world.\<close>

inductive poll_step ::
  "(butane_config \<Rightarrow> string result) \<Rightarrow> (string \<Rightarrow> string \<Rightarrow> 'w netbox) \<Rightarrow> ('w, 'o) kube \<Rightarrow> string \<Rightarrow>
   'w netbox Config \<times> 'w \<times> 'w netbox poll \<Rightarrow> 'w netbox Config \<times> 'w \<times> 'w netbox poll \<Rightarrow> bool"
  for ToIgn mk k ns where
  reading: "read_step ToIgn k ns s s' \<Longrightarrow> poll_step ToIgn mk k ns s s'"
| reloading: "ConfigReconcile mk k ns c w = (res, c', w') \<Longrightarrow> poll_step ToIgn mk k ns (c, w, p) (c', w', p)"
| elsewhere: "poll_step ToIgn mk k ns (c, w, p) (c, w', p)"

inductive_cases read_stepE: "read_step ToIgn k ns (c, w, p) s'"
inductive_cases poll_stepE: "poll_step ToIgn mk k ns (c, w, p) s'"

section \<open>Facts\<close>

text \<open>The versions of the configuration: one comes from another by reloads.\<close>

definition reloaded :: "(string \<Rightarrow> string \<Rightarrow> 'w netbox) \<Rightarrow> ('w, 'o) kube \<Rightarrow> string \<Rightarrow> 'w netbox Config \<Rightarrow> 'w netbox Config \<Rightarrow> bool" where
  "reloaded mk k ns c c' \<longleftrightarrow> (\<exists>w res w'. ConfigReconcile mk k ns c w = (res, c', w'))"

definition versions :: "(string \<Rightarrow> string \<Rightarrow> 'w netbox) \<Rightarrow> ('w, 'o) kube \<Rightarrow> string \<Rightarrow> 'w netbox Config \<Rightarrow> 'w netbox Config \<Rightarrow> bool" where
  "versions mk k ns = (reloaded mk k ns)\<^sup>*\<^sup>*"

lemma versions_refl [simp]: "versions mk k ns c c"
  by (simp add: versions_def)

lemma versions_trans: "versions mk k ns c c1 \<Longrightarrow> versions mk k ns c1 c2 \<Longrightarrow> versions mk k ns c c2"
  unfolding versions_def by (rule rtranclp_trans)

lemma versions_reload: "versions mk k ns c c' \<Longrightarrow> ConfigReconcile mk k ns c' w = (res, c'', w') \<Longrightarrow> versions mk k ns c c''"
  unfolding versions_def reloaded_def by (rule rtranclp.rtrancl_into_rtrancl) blast+

lemma reloaded_client: "reloaded mk k ns c c' \<Longrightarrow> netboxClient c \<noteq> None \<Longrightarrow> netboxClient c' \<noteq> None"
  unfolding reloaded_def by (auto dest: kcfg.reload_client(2))

text \<open>What a poll has read is what the configuration held at some moment, in the order of the reads.\<close>

definition read_so_far ::
  "(string \<Rightarrow> string \<Rightarrow> 'w netbox) \<Rightarrow> ('w, 'o) kube \<Rightarrow> string \<Rightarrow> 'w netbox Config \<Rightarrow> 'w netbox Config \<Rightarrow> 'w netbox poll \<Rightarrow> bool" where
  "read_so_far mk k ns c0 c p =
     (case p of
        Start \<Rightarrow> versions mk k ns c0 c
      | Backend \<Rightarrow> versions mk k ns c0 c \<and> netboxClient c \<noteq> None
      | Client \<Rightarrow> versions mk k ns c0 c \<and> netboxClient c \<noteq> None
      | Filters nb \<Rightarrow> \<exists>c1. versions mk k ns c0 c1 \<and> netboxClient c1 = Some nb \<and> versions mk k ns c1 c
      | Variant nb f \<Rightarrow> \<exists>c1 c2. versions mk k ns c0 c1 \<and> netboxClient c1 = Some nb \<and> versions mk k ns c1 c2 \<and>
          deviceFilters c2 = f \<and> versions mk k ns c2 c
      | Working nb f v \<Rightarrow> \<exists>c1 c2 c3. versions mk k ns c0 c1 \<and> netboxClient c1 = Some nb \<and> versions mk k ns c1 c2 \<and>
          deviceFilters c2 = f \<and> versions mk k ns c2 c3 \<and> ignitionVariant c3 = v \<and> versions mk k ns c3 c
      | Interval err \<Rightarrow> versions mk k ns c0 c
      | Finished out \<Rightarrow> \<exists>c1. versions mk k ns c0 c1 \<and> fst out = \<lparr>Requeue = False, RequeueAfter = GetSyncInterval c1\<rparr>
      | NilClient \<Rightarrow> False
      | Panicked \<Rightarrow> True)"

lemma read_so_far_read:
  assumes "read_step ToIgn k ns (c, w, p) (c', w', p')" and "read_so_far mk k ns c0 c p"
  shows "read_so_far mk k ns c0 c' p'"
  using assms(1)
proof (cases rule: read_step.cases)
  case (get_client nb)
  with assms(2) show ?thesis by (auto simp: read_so_far_def GetNetBoxClient_def intro!: exI [of _ c])
next
  case (get_filters nb)
  with assms(2) obtain c1 where "versions mk k ns c0 c1" "netboxClient c1 = Some nb" "versions mk k ns c1 c"
    by (auto simp: read_so_far_def)
  with get_filters show ?thesis
    by (simp add: read_so_far_def GetDeviceFilters_def) (rule exI [of _ c1], simp, rule exI [of _ c], simp)
next
  case (get_variant nb f)
  with assms(2) obtain c1 c2 where "versions mk k ns c0 c1" "netboxClient c1 = Some nb" "versions mk k ns c1 c2"
    "deviceFilters c2 = f" "versions mk k ns c2 c" by (auto simp: read_so_far_def)
  with get_variant show ?thesis
    by (simp add: read_so_far_def GetIgnitionVariant_def) (rule exI [of _ c1], simp, rule exI [of _ c2], simp, rule exI [of _ c], simp)
next
  case (work nb f v r)
  with assms(2) show ?thesis by (auto simp: read_so_far_def intro: versions_trans)
next
  case (get_interval err)
  with assms(2) show ?thesis by (auto simp: read_so_far_def)
qed (use assms(2) in \<open>auto simp: read_so_far_def GetNetBoxClient_def\<close>)

lemma read_so_far_reload:
  assumes "ConfigReconcile mk k ns c w = (res, c', w')" and "read_so_far mk k ns c0 c p"
  shows "read_so_far mk k ns c0 c' p"
proof -
  from assms(1) have "reloaded mk k ns c c'" unfolding reloaded_def by blast
  then have "netboxClient c \<noteq> None \<Longrightarrow> netboxClient c' \<noteq> None" by (rule reloaded_client)
  moreover have "versions mk k ns x c \<Longrightarrow> versions mk k ns x c'" for x by (rule versions_reload [OF _ assms(1)])
  ultimately show ?thesis using assms(2) by (cases p) (auto simp: read_so_far_def, blast+)
qed

text \<open>What is left to do at each point of a poll, and what it will answer if nobody interferes.\<close>

fun rank :: "'c poll \<Rightarrow> nat" where
  "rank Start = 7"
| "rank Backend = 6"
| "rank Client = 5"
| "rank (Filters nb) = 4"
| "rank (Variant nb f) = 3"
| "rank (Working nb f v) = 2"
| "rank (Interval err) = 1"
| "rank (Finished out) = 0"
| "rank NilClient = 0"
| "rank Panicked = 0"

function meaning ::
  "(butane_config \<Rightarrow> string result) \<Rightarrow> ('w, 'o) kube \<Rightarrow> string \<Rightarrow> 'w netbox Config \<Rightarrow> 'w \<Rightarrow> 'w netbox poll \<Rightarrow>
   (reconciled \<times> 'w) option" where
  "meaning ToIgn k ns c w (Interval err) = Some ((\<lparr>Requeue = False, RequeueAfter = GetSyncInterval c\<rparr>, err), w)"
| "meaning ToIgn k ns c w (Working nb f v) = do {
     (r, w') \<leftarrow> syncTinkerbell ToIgn k ns nb f v w;
     meaning ToIgn k ns c w' (Interval (case r of Inl err \<Rightarrow> Some err | Inr u \<Rightarrow> None))
   }"
| "meaning ToIgn k ns c w (Variant nb f) = meaning ToIgn k ns c w (Working nb f (GetIgnitionVariant c))"
| "meaning ToIgn k ns c w (Filters nb) = meaning ToIgn k ns c w (Variant nb (GetDeviceFilters c))"
| "meaning ToIgn k ns c w Client =
     (case GetNetBoxClient c of None \<Rightarrow> None | Some nb \<Rightarrow> meaning ToIgn k ns c w (Filters nb))"
| "meaning ToIgn k ns c w Backend =
     (if GetBackend c = ''tinkerbell'' \<or> GetBackend c = [] then meaning ToIgn k ns c w Client
      else meaning ToIgn k ns c w (Interval None))"
| "meaning ToIgn k ns c w Start =
     (if GetNetBoxClient c = None then meaning ToIgn k ns c w (Interval None) else meaning ToIgn k ns c w Backend)"
| "meaning ToIgn k ns c w (Finished out) = Some (out, w)"
| "meaning ToIgn k ns c w NilClient = None"
| "meaning ToIgn k ns c w Panicked = None"
  by pat_completeness auto
termination
  by (relation "measure (\<lambda>(_, _, _, _, _, p). rank p)") auto

lemma meaning_Start: "meaning ToIgn k ns c w Start = NetBoxSyncReconcile ToIgn k ns c w"
  by (auto simp: NetBoxSyncReconcile_def Let_def GetNetBoxClient_def GetDeviceFilters_def GetIgnitionVariant_def
      intro!: Option.bind_cong split: option.split sum.split)

lemma read_step_meaning:
  "read_step ToIgn k ns s s' \<Longrightarrow> (case s of (c, w, p) \<Rightarrow> meaning ToIgn k ns c w p) = (case s' of (c, w, p) \<Rightarrow> meaning ToIgn k ns c w p)"
  by (induction rule: read_step.induct) auto

lemma read_step_rank: "read_step ToIgn k ns s s' \<Longrightarrow> rank (snd (snd s')) < rank (snd (snd s)) \<and> fst s' = fst s"
  by (induction rule: read_step.induct) simp_all

lemma read_step_enabled:
  assumes "rank p \<noteq> 0"
  shows "\<exists>s'. read_step ToIgn k ns (c, w, p) s'"
proof (cases p)
  case (Working nb f v)
  show ?thesis
  proof (cases "syncTinkerbell ToIgn k ns nb f v w")
    case None
    from read_step.panic [OF this] Working show ?thesis by blast
  next
    case (Some x)
    then obtain r w' where "syncTinkerbell ToIgn k ns nb f v w = Some (r, w')" by (cases x) simp
    from read_step.work [OF this] Working show ?thesis by blast
  qed
next
  case Client
  then show ?thesis unfolding Client by (cases "GetNetBoxClient c") (blast intro: read_step.intros)+
qed (use assms in \<open>simp_all, (blast intro: read_step.intros)+\<close>)

lemma reads_end: "\<exists>w' p'. (read_step ToIgn k ns)\<^sup>*\<^sup>* (c, w, p) (c, w', p') \<and> rank p' = 0"
proof (induction "rank p" arbitrary: w p rule: less_induct)
  case less
  show ?case
  proof (cases "rank p = 0")
    case True
    then show ?thesis by blast
  next
    case False
    from read_step_enabled [OF this] obtain s' where s': "read_step ToIgn k ns (c, w, p) s'" by blast
    obtain c' w' p' where eq: "s' = (c', w', p')" by (cases s')
    from read_step_rank [OF s'] eq have "rank p' < rank p" "c' = c" by simp_all
    with less [of p' w'] s' eq show ?thesis by (meson converse_rtranclp_into_rtranclp)
  qed
qed

lemma reads_meaning:
  assumes "(read_step ToIgn k ns)\<^sup>*\<^sup>* (c, w, p) (c', w', p')"
  shows "c' = c \<and> meaning ToIgn k ns c' w' p' = meaning ToIgn k ns c w p"
proof -
  have "fst s' = fst s \<and> (case s of (c, w, p) \<Rightarrow> meaning ToIgn k ns c w p) = (case s' of (c, w, p) \<Rightarrow> meaning ToIgn k ns c w p)"
    if "(read_step ToIgn k ns)\<^sup>*\<^sup>* s s'" for s s'
    using that by (induction rule: rtranclp_induct) (auto dest: read_step_meaning read_step_rank)
  from this [OF assms] show ?thesis by simp
qed

lemma poll_inv:
  assumes "(poll_step ToIgn mk k ns)\<^sup>*\<^sup>* (c0, w0, Start) (c, w, p)"
  shows "read_so_far mk k ns c0 c p"
proof -
  have "read_so_far mk k ns c0 (fst s) (snd (snd s))" if "(poll_step ToIgn mk k ns)\<^sup>*\<^sup>* (c0, w0, Start) s" for s
    using that
  proof (induction rule: rtranclp_induct)
    case base
    show ?case by (simp add: read_so_far_def)
  next
    case (step s s')
    from step(2) step(3) show ?case
    proof (cases rule: poll_step.cases)
      case reading
      with step(3) show ?thesis
        using read_so_far_read [of ToIgn k ns "fst s" "fst (snd s)" "snd (snd s)" "fst s'" "fst (snd s')" "snd (snd s')"] by simp
    next
      case (reloading c w res c' w' p)
      with step(3) show ?thesis using read_so_far_reload by simp
    next
      case (elsewhere c w p w')
      with step(3) show ?thesis by simp
    qed
  qed
  from this [OF assms] show ?thesis by simp
qed

text \<open>The configuration reconciler hears of its two sources and of nothing else.\<close>

lemma config_requests_eq:
  "config_requests ns e =
     (if e = (ConfigMap_object, ns, ConfigMapName) \<or> e = (Secret_object, ns, SecretName) then [(ns, ConfigMapName)] else [])"
  by (auto simp: config_requests_def cmPredicate_def secretPredicate_def secretHandler_def split: prod.split watched.split)

lemma sync_requests_eq:
  "sync_requests ns e = (if e = (ConfigMap_object, ns, ConfigMapName) then [(ns, ConfigMapName)] else [])"
  by (auto simp: sync_requests_def cmPredicate_def split: prod.split watched.split)

lemma apply_same: "applyConfigMapAndSecret mk cm s (applyConfigMapAndSecret mk cm s c) = applyConfigMapAndSecret mk cm s c"
  by (simp add: applyConfigMapAndSecret_def update_def Let_def)

interpretation kwatch: watched_config ConfigMapName SecretName config_endpoint mk "applyConfigMapAndSecret mk" netboxClient config_wf
    "Bootstrap mk" "ConfigReconcile mk" config_requests for mk
  by unfold_locales (rule config_requests_eq, rule apply_same)

section \<open>A race\<close>

text \<open>The world before the ConfigMap was changed to that of \<open>updater_world\<close>.\<close>

definition older_world :: mem where
  "older_world = updater_world\<lparr>m_configmaps := [((''machinecfg'', ConfigMapName), [(''sync_interval'', ''60s'')])]\<rparr>"

abbreviation updater_sources :: "mem \<Rightarrow> sources" where
  "updater_sources \<equiv> mem_sources ''machinecfg'' ConfigMapName SecretName"

abbreviation updater_watch ::
  "mem netbox Config \<times> mem \<times> request set \<times> worker \<Rightarrow> mem netbox Config \<times> mem \<times> request set \<times> worker \<Rightarrow> bool" where
  "updater_watch \<equiv> watch_step config_requests updater_sources mem_kube ''machinecfg'' ConfigMapName SecretName
     (applyConfigMapAndSecret (\<lambda>ep tok. mem_netbox))"

lemma race_reads:
  "ConfigMapGet mem_kube ''machinecfg'' ConfigMapName older_world = (Inr [(''sync_interval'', ''60s'')], older_world)"
  "ConfigMapGet mem_kube ''machinecfg'' ConfigMapName updater_world =
     (Inr [(''sites'', '' Paris, ,LYON ''), (''sync_interval'', ''90s'')], updater_world)"
  "SecretGet mem_kube ''machinecfg'' SecretName updater_world = (Inr [(''netbox_token'', ''secret'')], updater_world)"
  "updater_sources updater_world =
     (Some [(''sites'', '' Paris, ,LYON ''), (''sync_interval'', ''90s'')], Some [(''netbox_token'', ''secret'')])"
  "snd (updater_sources older_world) = snd (updater_sources updater_world)"
  by (simp_all add: mem_kube_def mem_sources_def updater_world_def older_world_def)

text \<open>The ConfigMap is changed after it was read and before the Secret is: the old settings are applied, and a request waits.\<close>

lemma race_run:
  "updater_watch\<^sup>*\<^sup>* (c, older_world, {(''machinecfg'', ConfigMapName)}, Waiting)
     (applyConfigMapAndSecret (\<lambda>ep tok. mem_netbox) [(''sync_interval'', ''60s'')] [(''netbox_token'', ''secret'')] c, updater_world,
      {(''machinecfg'', ConfigMapName)}, Waiting)"
proof -
  let ?key = "(''machinecfg'', ConfigMapName)"
  have "updater_watch (c, older_world, {?key}, Waiting) (c, older_world, {}, Reading ?key)"
    using watch_step.taken [of ?key "{?key}"] by fastforce
  moreover have "updater_watch (c, older_world, {}, Reading ?key) (c, older_world, {}, Have_ConfigMap ?key [(''sync_interval'', ''60s'')])"
    by (intro watch_step.working worker_step.configmap race_reads)
  moreover have "updater_watch (c, older_world, {}, Have_ConfigMap ?key m) (c, updater_world, {?key}, Have_ConfigMap ?key m)" for m
    using watch_step.changed [where es = "[(ConfigMap_object, ''machinecfg'', ConfigMapName)]" and q = "{}" and w = older_world
        and w' = updater_world and src = updater_sources and requests = config_requests and ns = "''machinecfg''" and cm_name = ConfigMapName]
    by (simp add: race_reads(5) config_requests_eq)
  moreover have "updater_watch (c, updater_world, {?key}, Have_ConfigMap ?key m)
      (c, updater_world, {?key}, Have_both ?key m [(''netbox_token'', ''secret'')])" for m
    by (intro watch_step.working worker_step.secret race_reads)
  moreover have "updater_watch (c, updater_world, {?key}, Have_both ?key m s)
      (applyConfigMapAndSecret (\<lambda>ep tok. mem_netbox) m s c, updater_world, {?key}, Waiting)" for m s
    by (intro watch_step.working worker_step.applied)
  ultimately show ?thesis by (meson converse_rtranclp_into_rtranclp rtranclp.rtrancl_refl)
qed

section \<open>Properties\<close>







end
