(* ===== verification/Hardware_Typing.thy ===== *)
theory Hardware_Typing
  imports Kubernetes_Updater Tinkerbell_Ops
begin

text \<open>
  The shape that the other components rely on in a Hardware object, and that everything in
  machinecfg that writes such objects keeps it: the synchronisation, whatever fails in it, and the
  patching commands, in any order.
\<close>

section \<open>Well-formed objects\<close>

text \<open>
  One interface with DHCP, whose host name is that of the object and whose MAC address is in lower
  case and is the instance id; both netboot flags given; a disk; labels without duplicates, among
  them a device id of 32 bits.
\<close>

definition interface_typed :: "hardware \<Rightarrow> hw_interface \<Rightarrow> bool" where
  "interface_typed hw i \<longleftrightarrow>
     (case (hwi_DHCP i, hwi_Netboot i) of
        (Some d, Some n) \<Rightarrow>
          dhcp_Hostname d = hw_Name hw \<and> ToLower (dhcp_MAC d) = dhcp_MAC d \<and> dhcp_IP d \<noteq> None \<and>
          map_option md_ID (hw_Metadata hw) = Some (dhcp_MAC d) \<and> AllowPXE_flag n \<noteq> None \<and> AllowWorkflow_flag n \<noteq> None
      | _ \<Rightarrow> False)"

definition hardware_typed :: "hardware \<Rightarrow> bool" where
  "hardware_typed hw \<longleftrightarrow>
     label_id hw \<noteq> None \<and> distinct (map fst (hw_Labels hw)) \<and> hw_Disks hw \<noteq> [] \<and>
     (case hw_Interfaces hw of [i] \<Rightarrow> interface_typed hw i | _ \<Rightarrow> False)"

definition store_typed :: "hw_store \<Rightarrow> bool" where
  "store_typed s \<longleftrightarrow> (\<forall>key h. s key = Some h \<longrightarrow> hardware_typed h)"

section \<open>What writes Hardware objects\<close>

text \<open>
  The lists of a synchronisation may have been read from NetBox at any earlier time; in between the
  world may change as long as the Hardware objects do not.
\<close>

inductive hardware_step ::
  "(butane_config \<Rightarrow> string result) \<Rightarrow> ('w, 'o) kube \<Rightarrow> 'w netbox \<Rightarrow> ('w \<Rightarrow> hw_store) \<Rightarrow> 'w \<Rightarrow> 'w \<Rightarrow> bool"
  for ToIgn k nb hv where
  sync: "CreateHardwares ToIgn nb filters variant w1 = Some (Inr desired, w2) \<Longrightarrow>
    CreateHardwaresToPrune nb filters w2 = Some (Inr toPrune, w3) \<Longrightarrow>
    apply_and_prune k ns nb desired toPrune w = (r, w') \<Longrightarrow> hardware_step ToIgn k nb hv w w'"
| pxe: "AllowPXE k ns host w = (r, w') \<Longrightarrow> hardware_step ToIgn k nb hv w w'"
| clean_user: "CleanUserData k ns host w = (r, w') \<Longrightarrow> hardware_step ToIgn k nb hv w w'"
| clean_vendor: "CleanVendorData k ns host w = (r, w') \<Longrightarrow> hardware_step ToIgn k nb hv w w'"
| elsewhere: "hv w' = hv w \<Longrightarrow> hardware_step ToIgn k nb hv w w'"

section \<open>The operations keep the shape\<close>

lemma extracted_typed:
  assumes "extractHardwareData nb dev w = Some (Inr hw, w')"
  shows "hardware_typed hw"
proof -
  from assms obtain ip4 :: brief_ip and mac netmask gws dns meta name and items :: "inventory_item list"
      and platform :: brief where
    ok: "dev_Name dev = Value name" "createMetaFromDevice dev = Some meta"
    and mac: "\<exists>w1 w2. primary_mac nb (bip_Id ip4) w1 = Some (Inr mac, w2)"
    and hw: "hw = hardware_object dev meta name (br_Name platform) mac (getAddrFromCIDR (bip_Address ip4)) netmask
      gws dns (map inv_Name items)" by (rule extractHardwareData_ok)
  from mac have "ToLower mac = mac" by (elim exE) (rule primary_mac_lower)
  moreover from ok(2) have "dev_Name dev = Value (om_Name meta)" by (rule createMetaFromDevice_ok)
  with ok(1) have "name = om_Name meta" by simp
  ultimately show ?thesis
    using extracted_identity(1,4,5) [OF assms] by (simp add: hardware_typed_def interface_typed_def hw hardware_object_def Let_def)
qed

text \<open>The shape of the interface depends on the name and the metadata only.\<close>

lemma interface_typed_same:
  "hw_Name h' = hw_Name h \<Longrightarrow> hw_Metadata h' = hw_Metadata h \<Longrightarrow> interface_typed h' = interface_typed h"
  by (auto simp: interface_typed_def fun_eq_iff split: option.split)

lemma hardware_typed_same:
  assumes "hw_Name h' = hw_Name h" and "hw_Metadata h' = hw_Metadata h" and "hw_Interfaces h' = hw_Interfaces h"
    and "hw_Disks h' = hw_Disks h" and "hardware_typed h" and "label_id h' \<noteq> None" and "distinct (map fst (hw_Labels h'))"
  shows "hardware_typed h'"
  using assms interface_typed_same [OF assms(1,2)] by (auto simp: hardware_typed_def split: list.split)

lemma hardware_typed_data:
  assumes "hardware_typed h"
  shows "hardware_typed (h\<lparr>hw_UserData := u\<rparr>)" and "hardware_typed (h\<lparr>hw_VendorData := u\<rparr>)"
proof -
  have "label_id h \<noteq> None" "distinct (map fst (hw_Labels h))" using assms by (simp_all add: hardware_typed_def)
  then show "hardware_typed (h\<lparr>hw_UserData := u\<rparr>)" and "hardware_typed (h\<lparr>hw_VendorData := u\<rparr>)"
    by (auto intro!: hardware_typed_same [OF _ _ _ _ assms] simp: label_id_def)
qed

lemma created_typed:
  assumes "CreateHardwares ToIgn nb filters variant w = Some (Inr hws, w')"
  shows "\<forall>hw \<in> set hws. hardware_typed hw"
proof -
  from assms obtain p :: "device page" and w1 where "create_hardwares ToIgn nb variant (Results p) w1 = Some (hws, w')"
    by (auto simp: CreateHardwares_def elim!: bind_SomeE split: prod.split_asm sum.split_asm)
  from create_hardwares_sources [OF this] extracted_typed show ?thesis by (fastforce intro: hardware_typed_data)
qed

lemma allow_pxe_typed: "hardware_typed h \<Longrightarrow> hardware_typed (allow_pxe h)"
  by (auto simp: hardware_typed_def interface_typed_def label_id_def allow_pxe_def set_allow_pxe_def split: list.split_asm option.split_asm)

lemma merge_labels_distinct: "distinct (map fst labels) \<Longrightarrow> distinct (map fst (fst (merge_labels desired labels b)))"
  by (induction desired labels b rule: merge_labels.induct) (auto simp: distinct_update)

lemma relabelled_typed:
  assumes "hardware_typed d" and "hardware_typed h"
  shows "hardware_typed (relabelled d h)"
proof -
  have d: "label_id d \<noteq> None" "distinct (map fst (hw_Labels d))" using assms(1) by (simp_all add: hardware_typed_def)
  have "mget (hw_Labels (relabelled d h)) ''netbox-device-id'' =
      (case map_of (hw_Labels d) ''netbox-device-id'' of Some v \<Rightarrow> v | None \<Rightarrow> mget (hw_Labels h) ''netbox-device-id'')"
    using d(2) by (simp add: relabelled_def merge_labels_mget)
  then have "label_id (relabelled d h) \<noteq> None"
    using d(1) assms(2) by (auto simp: label_id_def hardware_typed_def mget_def split: option.split_asm)
  moreover have "distinct (map fst (hw_Labels (relabelled d h)))"
    using assms(2) by (simp add: relabelled_def hardware_typed_def merge_labels_distinct)
  ultimately show ?thesis by (intro hardware_typed_same [OF _ _ _ _ assms(2)]) (simp_all add: relabelled_def)
qed

lemma apply_effect_typed: "hardware_typed hw \<Longrightarrow> store_typed s \<Longrightarrow> store_typed (apply_effect hw s)"
  by (auto simp: store_typed_def apply_effect_def applied_def relabelled_typed split: option.split)

lemma prune_effect_typed: "store_typed s \<Longrightarrow> store_typed (prune_effect hw s)"
  by (simp add: store_typed_def prune_effect_def)

lemma fold_effects_typed:
  "\<forall>hw \<in> set ds. hardware_typed hw \<Longrightarrow> store_typed s \<Longrightarrow> store_typed (fold prune_effect ps (fold apply_effect ds s))"
proof -
  assume "\<forall>hw \<in> set ds. hardware_typed hw" "store_typed s"
  then have "store_typed (fold apply_effect ds s)" by (induction ds arbitrary: s) (simp_all add: apply_effect_typed)
  then show ?thesis by (induction ps arbitrary: s ds rule: rev_induct) (simp_all add: prune_effect_typed)
qed

text \<open>A command that leaves each object as it is or patches it.\<close>

lemma patched_typed:
  assumes "store_typed s" and "\<And>key. s' key = s key \<or> s' key = map_option f (s key)" and "\<And>h. hardware_typed h \<Longrightarrow> hardware_typed (f h)"
  shows "store_typed s'"
  unfolding store_typed_def
proof (intro allI impI)
  fix key h
  assume "s' key = Some h"
  with assms(2) [of key] consider "s key = Some h" | h' where "s key = Some h'" "h = f h'" by fastforce
  then show "hardware_typed h" using assms(1,3) unfolding store_typed_def by cases blast+
qed

lemma step_typed:
  assumes "hardware_laws k hv" and "views_apart k hv nb v" and "quiet_events k hv"
    and "hardware_step ToIgn k nb hv w w'" and "store_typed (hv w)"
  shows "store_typed (hv w')"
  using assms(4,5)
proof (induction rule: hardware_step.induct)
  case (sync filters variant w1 desired w2 toPrune w3 ns w r w')
  from apply_and_prune_some [OF assms(1-3) sync(3)] obtain ds ps where
    "subseq ds desired" "hv w' = fold prune_effect ps (fold apply_effect ds (hv w))" by blast
  moreover from this(1) created_typed [OF sync(1)] have "\<forall>hw \<in> set ds. hardware_typed hw"
    by (auto dest: list_emb_set)
  ultimately show ?case using fold_effects_typed [OF _ sync(4)] by simp
next
  case (pxe ns host w r w')
  from pxe.visit_any [OF assms(1) pxe(1)] show ?case
    by (intro patched_typed [OF pxe(2), where f = allow_pxe]) (auto simp: allow_pxe_typed)
next
  case (clean_user ns host w r w')
  from userdata.visit_any [OF assms(1) clean_user(1)] show ?case
    by (intro patched_typed [OF clean_user(2), where f = "\<lambda>hw. hw\<lparr>hw_UserData := None\<rparr>"]) (auto simp: hardware_typed_data)
next
  case (clean_vendor ns host w r w')
  from vendordata.visit_any [OF assms(1) clean_vendor(1)] show ?case
    by (intro patched_typed [OF clean_vendor(2), where f = "\<lambda>hw. hw\<lparr>hw_VendorData := None\<rparr>"]) (auto simp: hardware_typed_data)
next
  case (elsewhere w' w)
  then show ?case by simp
qed

section \<open>Property\<close>

text \<open>
  C9. Hardware objects keep their shape. Whatever the synchronisation, the PXE command and the
  cleaning commands do, in any order and whatever fails in them, a store of well-formed objects
  stays one; in particular the label from which the netbox updater and the status write-back read
  the device is always a 32-bit number.
\<close>
theorem hardware_store_typed:
  assumes "hardware_laws k hv" and "views_apart k hv nb v" and "quiet_events k hv"
    and "(hardware_step ToIgn k nb hv)\<^sup>*\<^sup>* w w'" and "\<forall>key h. hv w key = Some h \<longrightarrow> hardware_typed h"
    and "hv w' key = Some h"
  shows "hardware_typed h \<and> (\<exists>i. label_id h = Some i)"
proof -
  from assms(4) have "store_typed (hv w')"
  proof (induction rule: rtranclp_induct)
    case base
    show ?case using assms(5) by (simp add: store_typed_def)
  next
    case (step w1 w2)
    with step_typed [OF assms(1-3)] show ?case by blast
  qed
  with assms(6) have "hardware_typed h" unfolding store_typed_def by blast
  then show ?thesis by (auto simp: hardware_typed_def)
qed

theorem hardware_store_typed_witness:
  "let w1 = snd (apply_and_prune mem_kube ''machinecfg'' mem_netbox [node7_hw] [] empty_mem);
       w2 = snd (AllowPXE mem_kube ''acme'' [] w1)
   in \<exists>h. mem_store w2 (''acme'', ''node7'') = Some h \<and> hardware_typed h \<and> label_id h \<noteq> None"
proof -
  define w1 where "w1 = snd (apply_and_prune mem_kube ''machinecfg'' mem_netbox [node7_hw] [] empty_mem)"
  define w2 where "w2 = snd (AllowPXE mem_kube ''acme'' [] w1)"
  have "hardware_step no_ignition mem_kube mem_netbox mem_store empty_mem w1"
    by (rule hardware_step.sync [OF staged_run staged_prune]) (simp add: w1_def prod_eq_iff)
  moreover have "hardware_step no_ignition mem_kube mem_netbox mem_store w1 w2"
    by (rule hardware_step.pxe) (simp add: w2_def prod_eq_iff)
  ultimately have run: "(hardware_step no_ignition mem_kube mem_netbox mem_store)\<^sup>*\<^sup>* empty_mem w2"
    by (meson converse_rtranclp_into_rtranclp rtranclp.rtrancl_refl)
  have none: "\<forall>key h. mem_store empty_mem key = Some h \<longrightarrow> hardware_typed h" by (simp add: mem_store_def empty_mem_def)
  have "mem_store (snd (AllowPXE mem_kube ''acme'' [] (snd (apply_and_prune mem_kube ''machinecfg'' mem_netbox [node7_hw] [] empty_mem))))
      (''acme'', ''node7'') \<noteq> None" by code_simp
  then obtain h where h: "mem_store w2 (''acme'', ''node7'') = Some h" unfolding w1_def [symmetric] w2_def [symmetric] by blast
  from hardware_store_typed [where hv = mem_store and w = empty_mem and w' = w2 and h = h,
      OF mem_hardware_laws mem_views_apart mem_quiet_events run none h] h
  show ?thesis unfolding w1_def w2_def Let_def by auto
qed

end
