(* ===== verification/Command_Line.thy ===== *)
theory Command_Line
  imports Kubernetes_Updater Tinkerbell_Ops Cluster_Show Talos
begin

text \<open>
  The command line (\<open>cli/machinecfg/cmd\<close>): the options that all commands share, and each command
  as the composition of the packages that it is. A command ends with exit code 1 or with what it
  prints; the layout of tables and JSON text is left to the libraries. The text flags and the
  environment are maps (an absent entry reads as the empty text); the set-up of the Kubernetes
  client, the existence of files and the creation of files are parameters.
\<close>

section \<open>Options (root.go)\<close>

record ConfigurationArgs =
  ca_Endpoint :: string
  ca_Token :: string
  ca_OutputDirectory :: string
  ca_Filters :: device_filters

text \<open>The loop over the rack numbers: the numbers, and whether one was refused.\<close>

fun parse_racks :: "string list \<Rightarrow> int32 list \<times> bool" where
  "parse_racks [] = ([], False)"
| "parse_racks (s # ss) =
     (let (rackIDs, fatalError) = parse_racks ss in
      if s = [] then (rackIDs, fatalError)
      else case ParseInt32 s of
             None \<Rightarrow> (rackIDs, True)
           | Some i \<Rightarrow> (word_of_int i # rackIDs, fatalError))"

definition root_filters :: "string_map \<Rightarrow> bool \<Rightarrow> int32 list \<Rightarrow> device_filters" where
  "root_filters flags virtualization rackIDs =
     \<lparr>f_Regions = Split (mget flags ''regions'') CHR '','', f_Sites = Split (mget flags ''sites'') CHR '','',
      f_Locations = Split (mget flags ''locations'') CHR '','', f_Racks = rackIDs,
      f_Tenants = Split (mget flags ''tenants'') CHR '','', f_Roles = Split (mget flags ''roles'') CHR '','',
      f_Virtualisation = virtualization, f_Clusters = Split (mget flags ''clusters'') CHR '','', f_Status = []\<rparr>"

text \<open>\<open>None\<close> is \<open>os.Exit(1)\<close>. The last argument is variadic in Go: absent or one Boolean.\<close>

definition processRootArgs ::
  "string_map \<Rightarrow> bool \<Rightarrow> string_map \<Rightarrow> bool \<Rightarrow> bool option \<Rightarrow> ConfigurationArgs option" where
  "processRootArgs flags virtualization env requireOutputDirectory requireDeviceFilters =
     (let endpoint = (if mget flags ''netbox-endpoint'' = [] then mget env ''NETBOX_ENDPOINT''
                      else mget flags ''netbox-endpoint'');
          token = (if mget flags ''netbox-token'' = [] then mget env ''NETBOX_TOKEN'' else mget flags ''netbox-token'');
          outputDirectory = mget flags ''output-directory'';
          needDeviceFilters = (case requireDeviceFilters of None \<Rightarrow> True | Some b \<Rightarrow> b);
          (rackIDs, badRack) = parse_racks (Split (mget flags ''racks'') CHR '','');
          fatalError = (endpoint = [] \<or> length token \<noteq> 40 \<or>
            (requireOutputDirectory \<and> outputDirectory = []) \<or>
            (needDeviceFilters \<and> mget flags ''sites'' = []) \<or>
            (needDeviceFilters \<and> mget flags ''roles'' = []) \<or> badRack)
      in if fatalError then None
         else Some \<lparr>ca_Endpoint = endpoint, ca_Token = token, ca_OutputDirectory = outputDirectory,
                ca_Filters = root_filters flags virtualization rackIDs\<rparr>)"

text \<open>
  \<open>os.Stat\<close> is a parameter: the error it returns, if any. \<open>fileExists\<close> looks whether the error is
  that the file does not exist, with the same answer in both cases.
\<close>

definition dirExists :: "(string \<Rightarrow> go_error option) \<Rightarrow> string \<Rightarrow> bool" where
  "dirExists Stat path = (case Stat path of None \<Rightarrow> True | Some err \<Rightarrow> False)"

definition fileExists :: "(string \<Rightarrow> go_error option) \<Rightarrow> string \<Rightarrow> bool" where
  "fileExists Stat path =
     (case Stat path of None \<Rightarrow> True | Some err \<Rightarrow> False)"

definition createFileDescriptor_path :: "string \<Rightarrow> string \<Rightarrow> string \<Rightarrow> string" where
  "createFileDescriptor_path dirPath filename extension = dirPath @ ''/'' @ filename @ ''.'' @ extension"

definition getKubeconfigPath :: "string_map \<Rightarrow> string \<Rightarrow> string" where
  "getKubeconfigPath env override =
     (if override \<noteq> [] then override
      else if mget env ''KUBECONFIG'' = [] then mget env ''HOME'' @ ''/.kube/config''
      else mget env ''KUBECONFIG'')"

text \<open>\<open>None\<close> is the fatal exit.\<close>

definition getNamespace :: "string_map \<Rightarrow> string option" where
  "getNamespace flags =
     (let v = (if mget flags ''tenants'' = [] then mget flags ''namespaces'' else mget flags ''tenants'');
          first = hd (SplitN2 v CHR '','')
      in if first = [] then None else Some first)"

record ('w, 'o, 'c) k8s_library =
  InClusterConfig :: "'c result"
  BuildConfigFromFlags :: "string \<Rightarrow> 'c result"
  AddTinkerbellToScheme :: "go_error option"
  AddCoreToScheme :: "go_error option"
  client_New :: "'c \<Rightarrow> ('w, 'o) kube result"

definition getK8sClient :: "('w, 'o, 'c) k8s_library \<Rightarrow> string_map \<Rightarrow> string \<Rightarrow> ('w, 'o) kube result" where
  "getK8sClient lib env kubeconfigOverride =
     (case (case InClusterConfig lib of
              Inr config \<Rightarrow> Inr config
            | Inl err \<Rightarrow>
                (case BuildConfigFromFlags lib (getKubeconfigPath env kubeconfigOverride) of
                   Inl err \<Rightarrow> Inl (Wrapf ''cannot find any kubeconfig: '' err)
                 | Inr config \<Rightarrow> Inr config)) of
        Inl err \<Rightarrow> Inl err
      | Inr config \<Rightarrow>
          (case AddTinkerbellToScheme lib of
             Some err \<Rightarrow> Inl err
           | None \<Rightarrow>
               (case AddCoreToScheme lib of
                  Some err \<Rightarrow> Inl err
                | None \<Rightarrow> client_New lib config)))"

text \<open>
  The log handler that a command installs; what is written to it is not modelled. The mode of
  standard output is the 32-bit \<open>os.FileMode\<close>, with bit 21 for a character device; \<open>None\<close> for the
  output option is a command that does not define it.
\<close>

datatype log_handler = DebugLevel | Discard | JSONToStdout

definition isInteractiveTerminal :: "32 word result \<Rightarrow> bool" where
  "isInteractiveTerminal stat = (case stat of Inl err \<Rightarrow> False | Inr mode \<Rightarrow> bit mode 21)"

definition isJSONOutput :: "string option \<Rightarrow> bool" where
  "isJSONOutput output \<longleftrightarrow> output = Some ''json''"

definition configureLogger :: "string_map \<Rightarrow> 32 word result \<Rightarrow> string option \<Rightarrow> log_handler" where
  "configureLogger flags stat output =
     (let logLevel = mget flags ''log-level'' in
      if ToLower logLevel = ''debug'' \<or> ToLower logLevel = ''development'' then DebugLevel
      else if logLevel = [] \<and> (isInteractiveTerminal stat \<or> isJSONOutput output) then Discard
      else JSONToStdout)"

section \<open>Commands on clusters\<close>

datatype 'a outcome = Exit1 | Printed 'a

text \<open>The frame of the three cluster commands around the function of \<open>pkg/cluster\<close>.\<close>

definition cluster_command ::
  "(('w, 'o) kube \<Rightarrow> string \<Rightarrow> 'w netbox \<Rightarrow> string list \<Rightarrow> ('w, 'r result) go) \<Rightarrow> (string \<Rightarrow> string \<Rightarrow> 'w netbox) \<Rightarrow>
   ('w, 'o, 'c) k8s_library \<Rightarrow> string_map \<Rightarrow> bool \<Rightarrow> string_map \<Rightarrow> ('w, 'r outcome) go" where
  "cluster_command run NewAPIClientFor lib flags virtualization env w =
     (case processRootArgs flags virtualization env False (Some False) of
        None \<Rightarrow> Some (Exit1, w)
      | Some rootArguments \<Rightarrow>
          (case getNamespace flags of
             None \<Rightarrow> Some (Exit1, w)
           | Some namespace \<Rightarrow>
               (case getK8sClient lib env (mget flags ''kubeconfig'') of
                  Inl err \<Rightarrow> Some (Exit1, w)
                | Inr k8sClient \<Rightarrow> do {
                    (r, w) \<leftarrow> run k8sClient namespace (NewAPIClientFor (ca_Endpoint rootArguments) (ca_Token rootArguments))
                      (f_Clusters (ca_Filters rootArguments)) w;
                    (case r of
                       Inl err \<Rightarrow> Some (Exit1, w)
                     | Inr rows \<Rightarrow> Some (Printed rows, w))
                  })))"

definition clusterSyncStatusCmd ::
  "(string \<Rightarrow> string \<Rightarrow> 'w netbox) \<Rightarrow> ('w, 'o, 'c) k8s_library \<Rightarrow> string_map \<Rightarrow> bool \<Rightarrow> string_map \<Rightarrow>
   ('w, cluster_sync_result list outcome) go" where
  "clusterSyncStatusCmd = cluster_command Cluster_SyncStatus"

definition clusterShowCmd ::
  "(string \<Rightarrow> string \<Rightarrow> 'w netbox) \<Rightarrow> ('w, 'o, 'c) k8s_library \<Rightarrow> string_map \<Rightarrow> bool \<Rightarrow> string_map \<Rightarrow>
   ('w, ClusterRow list outcome) go" where
  "clusterShowCmd = cluster_command (\<lambda>k ns nb names w. Some (Cluster_Show k ns nb names w))"

definition ipaddrShowCmd ::
  "(string \<Rightarrow> string \<Rightarrow> 'w netbox) \<Rightarrow> ('w, 'o, 'c) k8s_library \<Rightarrow> string_map \<Rightarrow> bool \<Rightarrow> string_map \<Rightarrow>
   ('w, IPAddressRow list outcome) go" where
  "ipaddrShowCmd = cluster_command ShowIPAddresses"

section \<open>Commands on Hardware objects\<close>

definition syncStatusCmd ::
  "(string \<Rightarrow> string \<Rightarrow> 'w netbox) \<Rightarrow> ('w, 'o, 'c) k8s_library \<Rightarrow> string_map \<Rightarrow> bool \<Rightarrow> string_map \<Rightarrow> 'w \<Rightarrow>
   tink_sync_result list outcome \<times> 'w" where
  "syncStatusCmd NewAPIClientFor lib flags virtualization env w =
     (case processRootArgs flags virtualization env False None of
        None \<Rightarrow> (Exit1, w)
      | Some rootArguments \<Rightarrow>
          (case getNamespace flags of
             None \<Rightarrow> (Exit1, w)
           | Some namespace \<Rightarrow>
               (case getK8sClient lib env (mget flags ''kubeconfig'') of
                  Inl err \<Rightarrow> (Exit1, w)
                | Inr k8sClient \<Rightarrow>
                    (case Tink_SyncStatus k8sClient namespace
                            (NewAPIClientFor (ca_Endpoint rootArguments) (ca_Token rootArguments)) w of
                       (Inl err, w) \<Rightarrow> (Exit1, w)
                     | (Inr results, w) \<Rightarrow> (Printed results, w)))))"

text \<open>The frame of the commands that patch the objects of a namespace.\<close>

definition hardware_command ::
  "(('w, 'o) kube \<Rightarrow> string \<Rightarrow> string \<Rightarrow> ('w, unit) call) \<Rightarrow> ('w, 'o, 'c) k8s_library \<Rightarrow> string_map \<Rightarrow> string_map \<Rightarrow>
   'w \<Rightarrow> unit outcome \<times> 'w" where
  "hardware_command run lib flags env w =
     (case getNamespace flags of
        None \<Rightarrow> (Exit1, w)
      | Some namespace \<Rightarrow>
          (case getK8sClient lib env (mget flags ''kubeconfig'') of
             Inl err \<Rightarrow> (Exit1, w)
           | Inr k8sClient \<Rightarrow>
               (case run k8sClient namespace (mget flags ''hostname'') w of
                  (Inl err, w) \<Rightarrow> (Exit1, w)
                | (Inr u, w) \<Rightarrow> (Printed (), w))))"

definition cleanUserdataCmd ::
  "('w, 'o, 'c) k8s_library \<Rightarrow> string_map \<Rightarrow> string_map \<Rightarrow> 'w \<Rightarrow> unit outcome \<times> 'w" where
  "cleanUserdataCmd = hardware_command CleanUserData"

definition cleanVendordataCmd ::
  "('w, 'o, 'c) k8s_library \<Rightarrow> string_map \<Rightarrow> string_map \<Rightarrow> 'w \<Rightarrow> unit outcome \<times> 'w" where
  "cleanVendordataCmd = hardware_command CleanVendorData"

definition pxeAllowCmd ::
  "('w, 'o, 'c) k8s_library \<Rightarrow> string_map \<Rightarrow> string_map \<Rightarrow> 'w \<Rightarrow> unit outcome \<times> 'w" where
  "pxeAllowCmd = hardware_command AllowPXE"

text \<open>The command makes a client and then does nothing with it.\<close>

definition pxeDenyCmd ::
  "('w, 'o, 'c) k8s_library \<Rightarrow> string_map \<Rightarrow> string_map \<Rightarrow> 'w \<Rightarrow> unit outcome \<times> 'w" where
  "pxeDenyCmd lib flags env w =
     (case getK8sClient lib env (mget flags ''kubeconfig'') of
        Inl err \<Rightarrow> (Exit1, w)
      | Inr k8sClient \<Rightarrow> (Printed (), w))"

subsection \<open>Show\<close>

record hwRow =
  hr_Hostname :: string
  hr_Status :: string
  hr_AllowPXE :: bool
  hr_Workflow :: bool
  hr_Cluster :: string

text \<open>
  The filter reuses the array it reads (\<open>hardwares[:0]\<close>): the place that is written is never
  after the place that is read, so the result is the list of the objects that pass.
\<close>

fun filter_by_cluster :: "('w, 'o) kube \<Rightarrow> string list \<Rightarrow> hardware list \<Rightarrow> 'w \<Rightarrow> hardware list \<times> 'w" where
  "filter_by_cluster k names [] w = ([], w)"
| "filter_by_cluster k names (hw # hws) w =
     (let (clusterName, w) = GetClusterName k hw w;
          (filtered, w) = filter_by_cluster k names hws w
      in (if clusterName \<in> set names then hw # filtered else filtered, w))"

definition netboot_flag :: "(netboot \<Rightarrow> bool option) \<Rightarrow> hw_interface \<Rightarrow> bool" where
  "netboot_flag flag iface =
     (case hwi_Netboot iface of
        None \<Rightarrow> False
      | Some n \<Rightarrow> (case flag n of None \<Rightarrow> False | Some b \<Rightarrow> b))"

fun hardware_rows :: "('w, 'o) kube \<Rightarrow> hardware list \<Rightarrow> 'w \<Rightarrow> hwRow list \<times> 'w" where
  "hardware_rows k [] w = ([], w)"
| "hardware_rows k (hw # hws) w =
     (let status = mget (hw_Labels hw) ''status'';
          (cluster, w) = GetClusterName k hw w;
          (rows, w) = hardware_rows k hws w
      in (map (\<lambda>iface. \<lparr>hr_Hostname = hw_Name hw, hr_Status = status, hr_AllowPXE = netboot_flag AllowPXE_flag iface,
             hr_Workflow = netboot_flag AllowWorkflow_flag iface, hr_Cluster = cluster\<rparr>) (hw_Interfaces hw) @ rows, w))"

definition showCmd ::
  "('w, 'o, 'c) k8s_library \<Rightarrow> string_map \<Rightarrow> string_map \<Rightarrow> 'w \<Rightarrow> hwRow list outcome \<times> 'w" where
  "showCmd lib flags env w =
     (case getNamespace flags of
        None \<Rightarrow> (Exit1, w)
      | Some namespace \<Rightarrow>
          (case getK8sClient lib env (mget flags ''kubeconfig'') of
             Inl err \<Rightarrow> (Exit1, w)
           | Inr k8sClient \<Rightarrow>
               (case GetHardwares k8sClient namespace (mget flags ''hostname'') w of
                  (Inl err, w) \<Rightarrow> (Exit1, w)
                | (Inr hardwares, w) \<Rightarrow>
                    let names = Split (mget flags ''clusters'') CHR '','';
                        (hardwares, w) =
                          (if hd names \<noteq> [] then filter_by_cluster k8sClient names hardwares w
                           else (hardwares, w));
                        (rows, w) = hardware_rows k8sClient hardwares w
                    in (Printed rows, w))))"

subsection \<open>Sync\<close>

record HardwareConfigurationArgs =
  ha_Template :: "string option"
  ha_EmbedIgnitionAsVendorData :: bool
  ha_EmbeddedIgnitionVariant :: "string option"

text \<open>A Boolean flag is true if it is given as \<open>true\<close>; the variant has a default, put in the map by its caller.\<close>

definition processHardwareArgs :: "(string \<Rightarrow> go_error option) \<Rightarrow> string_map \<Rightarrow> bool \<Rightarrow> HardwareConfigurationArgs option" where
  "processHardwareArgs Stat flags embedIgnition =
     (let template = mget flags ''template'' in
      if template \<noteq> [] \<and> \<not> fileExists Stat template then None
      else Some \<lparr>ha_Template = (if template \<noteq> [] then Some template else None),
             ha_EmbedIgnitionAsVendorData = embedIgnition,
             ha_EmbeddedIgnitionVariant =
               (if embedIgnition then Some (mget flags ''embedded-ignition-variant'') else None)\<rparr>)"

text \<open>One object of the creation loop, and one of the deletion loop.\<close>

definition create_or_reconcile :: "('w, 'o) kube \<Rightarrow> 'w netbox \<Rightarrow> hardware \<Rightarrow> ('w, unit) call" where
  "create_or_reconcile k nb h w =
     (case HardwareCreate k h w of
        (Inr created, w) \<Rightarrow> (Inr (), w)
      | (Inl err, w) \<Rightarrow>
          if \<not> IsAlreadyExists err then (Inl err, w)
          else ReconcileExistingHardware k h nb w)"

fun tally :: "(hardware \<Rightarrow> ('w, unit) call) \<Rightarrow> hardware list \<Rightarrow> nat \<times> nat \<Rightarrow> 'w \<Rightarrow> (nat \<times> nat) \<times> 'w" where
  "tally f [] counters w = (counters, w)"
| "tally f (h # hs) (successCounter, failureCounter) w =
     (case f h w of
        (Inl err, w) \<Rightarrow> tally f hs (successCounter, failureCounter + 1) w
      | (Inr u, w) \<Rightarrow> tally f hs (successCounter + 1, failureCounter) w)"

datatype sync_report = Summary "nat \<times> nat" "nat \<times> nat" | Files "(sink \<times> string) list"

text \<open>
  Without a Kubernetes client every object is written to a file, named by the host name of its
  instance; a nil metadata panics. A file that cannot be created is skipped. The name of the
  template is fixed, whatever was given.
\<close>

definition printYAMLFile ::
  "'t hardware_printer \<Rightarrow> (string \<Rightarrow> bool) \<Rightarrow> ConfigurationArgs \<Rightarrow> HardwareConfigurationArgs \<Rightarrow> hardware \<Rightarrow> (sink \<times> string) list option" where
  "printYAMLFile printer creatable rootArguments hardwareArguments h = do {
     metadata \<leftarrow> hw_Metadata h;
     let path = createFileDescriptor_path (ca_OutputDirectory rootArguments) (md_Hostname metadata) ''yaml'';
     Some (if \<not> creatable path then []
           else case ha_Template hardwareArguments of
                  None \<Rightarrow> PrintDefaultYAML printer h (File path)
                | Some template \<Rightarrow> PrintExternalYAML printer h ''hardware.yaml.tmpl'' (Some (File path)))
   }"

fun print_yaml_files ::
  "'t hardware_printer \<Rightarrow> (string \<Rightarrow> bool) \<Rightarrow> ConfigurationArgs \<Rightarrow> HardwareConfigurationArgs \<Rightarrow> hardware list \<Rightarrow> (sink \<times> string) list option" where
  "print_yaml_files printer creatable rootArguments hardwareArguments [] = Some []"
| "print_yaml_files printer creatable rootArguments hardwareArguments (h # hs) = do {
     written \<leftarrow> printYAMLFile printer creatable rootArguments hardwareArguments h;
     others \<leftarrow> print_yaml_files printer creatable rootArguments hardwareArguments hs;
     Some (written @ others)
   }"

definition syncCmd ::
  "(butane_config \<Rightarrow> string result) \<Rightarrow> (string \<Rightarrow> string \<Rightarrow> 'w netbox) \<Rightarrow> ('w, 'o, 'c) k8s_library \<Rightarrow>
   (string \<Rightarrow> go_error option) \<Rightarrow> 't hardware_printer \<Rightarrow> (string \<Rightarrow> bool) \<Rightarrow> string_map \<Rightarrow> bool \<Rightarrow> bool \<Rightarrow> string_map \<Rightarrow>
   ('w, sync_report outcome) go" where
  "syncCmd ToIgn NewAPIClientFor lib Stat printer creatable flags virtualization embedIgnition env w =
     (case processRootArgs flags virtualization env False None of
        None \<Rightarrow> Some (Exit1, w)
      | Some rootArguments \<Rightarrow>
          (case processHardwareArgs Stat flags embedIgnition of
             None \<Rightarrow> Some (Exit1, w)
           | Some hardwareArguments \<Rightarrow>
               let k8sClient = getK8sClient lib env (mget flags ''kubeconfig'');
                   nb = NewAPIClientFor (ca_Endpoint rootArguments) (ca_Token rootArguments)
               in if isl k8sClient \<and> \<not> dirExists Stat (ca_OutputDirectory rootArguments) then Some (Exit1, w)
                  else do {
                    (r, w) \<leftarrow> CreateHardwares ToIgn nb (ca_Filters rootArguments) (ha_EmbeddedIgnitionVariant hardwareArguments) w;
                    (case r of
                       Inl err \<Rightarrow> Some (Exit1, w)
                     | Inr hardwares \<Rightarrow>
                         (case k8sClient of
                            Inl err \<Rightarrow> do {
                              files \<leftarrow> print_yaml_files printer creatable rootArguments hardwareArguments hardwares;
                              Some (Printed (Files files), w)
                            }
                          | Inr k \<Rightarrow>
                              let (creation, w) = tally (create_or_reconcile k nb) hardwares (0, 0) w
                              in do {
                                (r, w) \<leftarrow> CreateHardwaresToPrune nb (ca_Filters rootArguments) w;
                                (case r of
                                   Inl err \<Rightarrow> Some (Exit1, w)
                                 | Inr hardwares \<Rightarrow>
                                     let (deletion, w) = tally (HardwareDelete k) hardwares (0, 0) w
                                     in Some (Printed (Summary creation deletion), w))
                              }))
                  }))"

section \<open>Commands that write configuration files\<close>

text \<open>
  Where a document goes: standard output if there is no directory, else a file; \<open>None\<close> if the file
  cannot be created.
\<close>

definition document_sink :: "(string \<Rightarrow> bool) \<Rightarrow> string \<Rightarrow> string \<Rightarrow> string \<Rightarrow> sink option" where
  "document_sink creatable outputDirectory hostname extension =
     (if outputDirectory = [] then Some Stdout
      else let path = createFileDescriptor_path outputDirectory hostname extension
           in if creatable path then Some (File path) else None)"

definition writeFlatcarIgnition ::
  "(butane_config \<Rightarrow> string result) \<Rightarrow> (string \<Rightarrow> bool) \<Rightarrow> string \<Rightarrow> generated \<Rightarrow> (sink \<times> string) list" where
  "writeFlatcarIgnition ToIgn creatable outputDirectory f =
     (case document_sink creatable outputDirectory (gen_Hostname f) ''ign'' of
        None \<Rightarrow> [] | Some fd \<Rightarrow> PrintFlatcarIgnitionFile ToIgn (gen_Config f) fd)"

definition writeFCOSIgnition ::
  "(butane_config \<Rightarrow> string result) \<Rightarrow> (string \<Rightarrow> bool) \<Rightarrow> string \<Rightarrow> generated \<Rightarrow> (sink \<times> string) list" where
  "writeFCOSIgnition ToIgn creatable outputDirectory f =
     (case document_sink creatable outputDirectory (gen_Hostname f) ''ign'' of
        None \<Rightarrow> [] | Some fd \<Rightarrow> PrintFCOSIgnitionFile ToIgn (gen_Config f) fd)"

definition writeTalosConfig ::
  "(talos_document \<Rightarrow> string result) \<Rightarrow> (string \<Rightarrow> bool) \<Rightarrow> string \<Rightarrow> talos \<Rightarrow> (sink \<times> string) list" where
  "writeTalosConfig Marshal creatable outputDirectory c =
     (case document_sink creatable outputDirectory (tal_Hostname c) ''.patch.yaml'' of
        None \<Rightarrow> [] | Some fd \<Rightarrow> PrintYAMLFile Marshal (tal_Config c) fd)"

text \<open>The frame of the three generating commands: an error of the generator is fatal.\<close>

definition generate_command ::
  "('w netbox \<Rightarrow> device_filters \<Rightarrow> ('w, 'a list \<times> go_error option) go) \<Rightarrow> (string \<Rightarrow> 'a \<Rightarrow> 'b list) \<Rightarrow>
   (string \<Rightarrow> string \<Rightarrow> 'w netbox) \<Rightarrow> string_map \<Rightarrow> bool \<Rightarrow> string_map \<Rightarrow> ('w, 'b list outcome) go" where
  "generate_command create writer NewAPIClientFor flags virtualization env w =
     (case processRootArgs flags virtualization env True None of
        None \<Rightarrow> Some (Exit1, w)
      | Some rootArguments \<Rightarrow> do {
          ((docs, err), w) \<leftarrow> create (NewAPIClientFor (ca_Endpoint rootArguments) (ca_Token rootArguments)) (ca_Filters rootArguments) w;
          (case err of
             Some e \<Rightarrow> Some (Exit1, w)
           | None \<Rightarrow> Some (Printed (concat (map (writer (ca_OutputDirectory rootArguments)) docs)), w))
        })"

definition flatcarCmd ::
  "(butane_config \<Rightarrow> string result) \<Rightarrow> (string \<Rightarrow> bool) \<Rightarrow> (string \<Rightarrow> string \<Rightarrow> 'w netbox) \<Rightarrow> string_map \<Rightarrow> bool \<Rightarrow> string_map \<Rightarrow>
   ('w, (sink \<times> string) list outcome) go" where
  "flatcarCmd ToIgn creatable = generate_command CreateFlatcars (writeFlatcarIgnition ToIgn creatable)"

definition fcosCmd ::
  "(butane_config \<Rightarrow> string result) \<Rightarrow> (string \<Rightarrow> bool) \<Rightarrow> (string \<Rightarrow> string \<Rightarrow> 'w netbox) \<Rightarrow> string_map \<Rightarrow> bool \<Rightarrow> string_map \<Rightarrow>
   ('w, (sink \<times> string) list outcome) go" where
  "fcosCmd ToIgn creatable = generate_command CreateFCOSs (writeFCOSIgnition ToIgn creatable)"

definition machineconfigCmd ::
  "(talos_document \<Rightarrow> string result) \<Rightarrow> (string \<Rightarrow> bool) \<Rightarrow> (string \<Rightarrow> string \<Rightarrow> 'w netbox) \<Rightarrow> string_map \<Rightarrow> bool \<Rightarrow> string_map \<Rightarrow>
   ('w, (sink \<times> string) list outcome) go" where
  "machineconfigCmd Marshal creatable = generate_command CreateTalosConfigs (writeTalosConfig Marshal creatable)"

section \<open>Facts on what is written\<close>

text \<open>Given that the objects have metadata, the files go to the output directory, named by the hosts.\<close>

lemma print_yaml_files_named:
  assumes "\<forall>h \<in> set hs. hw_Metadata h \<noteq> None"
  shows "\<exists>out. print_yaml_files printer creatable rootArguments hardwareArguments hs = Some out \<and>
    (\<forall>(fd, text) \<in> set out. \<exists>h \<in> set hs. \<exists>md. hw_Metadata h = Some md \<and>
       fd = File (createFileDescriptor_path (ca_OutputDirectory rootArguments) (md_Hostname md) ''yaml''))"
  using assms
proof (induction hs)
  case Nil
  then show ?case by simp
next
  case (Cons h hs)
  then obtain md where md: "hw_Metadata h = Some md" by auto
  let ?path = "createFileDescriptor_path (ca_OutputDirectory rootArguments) (md_Hostname md) ''yaml''"
  from Cons obtain out where out: "print_yaml_files printer creatable rootArguments hardwareArguments hs = Some out"
    "\<forall>(fd, text) \<in> set out. \<exists>h \<in> set hs. \<exists>md. hw_Metadata h = Some md \<and>
       fd = File (createFileDescriptor_path (ca_OutputDirectory rootArguments) (md_Hostname md) ''yaml'')" by auto
  obtain own where own: "printYAMLFile printer creatable rootArguments hardwareArguments h = Some own"
    "\<forall>(fd, text) \<in> set own. fd = File ?path"
    using md by (simp add: printYAMLFile_def PrintDefaultYAML_def PrintExternalYAML_def Let_def split: option.split sum.split)
  with out md show ?case by (fastforce simp: own(1))
qed

text \<open>The path that was given for the template does not matter.\<close>

lemma template_path_ignored:
  "ha_Template args \<noteq> None \<Longrightarrow> printYAMLFile printer creatable rootArguments (args\<lparr>ha_Template := Some path\<rparr>) h =
     printYAMLFile printer creatable rootArguments args h"
  by (cases "hw_Metadata h") (auto simp: printYAMLFile_def Let_def)

section \<open>Facts on options\<close>

lemma parse_racks_spec:
  "parse_racks ss = (ids, bad) \<Longrightarrow>
   (bad \<longleftrightarrow> (\<exists>s \<in> set ss. s \<noteq> [] \<and> ParseInt32 s = None)) \<and>
   (\<not> bad \<longrightarrow> map (\<lambda>i. Some (sint i)) ids = map ParseInt32 (filter (\<lambda>s. s \<noteq> []) ss))"
proof (induction ss arbitrary: ids bad)
  case Nil
  then show ?case by simp
next
  case (Cons s ss)
  obtain ids' bad' where r: "parse_racks ss = (ids', bad')" by fastforce
  from Cons.IH [OF r] Cons.prems r show ?case
    by (auto simp: Let_def sint_word_of_int32 [OF ParseInt32_range] split: if_split_asm option.split_asm)
qed

lemma parse_racks_Itoa32: "parse_racks (map Itoa32 ids) = (ids, False)"
proof (induction ids)
  case Nil
  then show ?case by simp
next
  case (Cons i ids)
  have "word_of_int (sint i) = i" by simp
  with Cons show ?case by simp
qed

lemma Itoa32_no_comma: "CHR '','' \<notin> set (Itoa32 i)"
proof -
  have "CHR '','' \<notin> set (Utoa n)" for n using Utoa_digits [of n] by (auto simp: is_digit_def)
  then show ?thesis by (auto simp: Itoa32_def Itoa_def)
qed

text \<open>An option is left out or is a comma-separated list of clean tokens.\<close>

definition clean_option :: "string \<Rightarrow> bool" where
  "clean_option v \<longleftrightarrow> v = [] \<or> (\<exists>ts. ts \<noteq> [] \<and> (\<forall>t \<in> set ts. csv_token t) \<and> v = Join ts '','')"

lemma clean_option_given:
  assumes "clean_option v"
  shows "given (Split v CHR '','') = given (splitCSV v)"
proof (cases "v = []")
  case True
  then show ?thesis by (simp add: given_def splitCSV_def TrimSpace_def)
next
  case False
  with assms obtain ts where ts: "ts \<noteq> []" "\<forall>t \<in> set ts. csv_token t" "v = Join ts '',''" by (auto simp: clean_option_def)
  then have "Split v CHR '','' = ts" unfolding ts(3) by (intro Split_Join) (auto simp: csv_token_def)
  with splitCSV_Join [OF ts(1,2)] ts(3) show ?thesis by simp
qed

section \<open>Facts on the sync command\<close>

text \<open>The NetBox calls that read leave the Hardware objects alone.\<close>

definition netbox_apart :: "'w netbox \<Rightarrow> ('w \<Rightarrow> hw_store) \<Rightarrow> bool" where
  "netbox_apart nb hv \<longleftrightarrow>
     (\<forall>q. pure_call hv (VirtualizationClustersList nb q)) \<and> (\<forall>q. pure_call hv (DcimDevicesList nb q)) \<and>
     (\<forall>q. pure_call hv (IpamIpAddressesList nb q)) \<and> (\<forall>i. pure_call hv (DcimInterfacesRetrieve nb i)) \<and>
     (\<forall>q. pure_call hv (IpamPrefixesList nb q)) \<and> (\<forall>q. pure_call hv (DcimInventoryItemsList nb q))"

lemma netbox_apartD:
  assumes "netbox_apart nb hv"
  shows "VirtualizationClustersList nb q1 w = (r1, w') \<Longrightarrow> hv w' = hv w"
    and "DcimDevicesList nb q2 w = (r2, w') \<Longrightarrow> hv w' = hv w"
    and "IpamIpAddressesList nb q3 w = (r3, w') \<Longrightarrow> hv w' = hv w"
    and "DcimInterfacesRetrieve nb q4 w = (r4, w') \<Longrightarrow> hv w' = hv w"
    and "IpamPrefixesList nb q5 w = (r5, w') \<Longrightarrow> hv w' = hv w"
    and "DcimInventoryItemsList nb q6 w = (r6, w') \<Longrightarrow> hv w' = hv w"
  using assms unfolding netbox_apart_def by (blast dest: pure_callD)+

lemma GetDevices_store:
  assumes "netbox_apart nb hv" and "GetDevices nb f w = (r, w')"
  shows "hv w' = hv w"
proof (cases "filter_given (f_Clusters f)")
  case False
  with assms(2) netbox_apartD(2) [OF assms(1)] show ?thesis by (auto simp: GetDevices_def)
next
  case True
  show ?thesis
  proof (cases "VirtualizationClustersList nb (VirtualizationClusters\<lparr>cq_Name := Some (f_Clusters f)\<rparr>) w" rule: call_cases)
    case (err e w1)
    with True assms(2) netbox_apartD(1) [OF assms(1) err] show ?thesis by (auto simp: GetDevices_def resolveClusterIDs_def)
  next
    case (ok p w1)
    with True assms(2) netbox_apartD(1) [OF assms(1) ok] netbox_apartD(2) [OF assms(1)] show ?thesis
      by (fastforce simp: GetDevices_def resolveClusterIDs_def Let_def split: if_split_asm)
  qed
qed

lemma GetTagged_store:
  assumes "netbox_apart nb hv" and "GetTaggedAddressesFromPrefixOfAddr nb tag a w = Some (r, w')"
  shows "hv w' = hv w"
proof (cases "IpamPrefixesList nb (Prefixes\<lparr>pq_Contains := Some a\<rparr>) w" rule: call_cases)
  case (err e w1)
  with assms(2) show ?thesis by (simp add: GetTaggedAddressesFromPrefixOfAddr_def)
next
  case (ok p w1)
  from assms(2) ok netbox_apartD(3) [OF assms(1)] have "hv w' = hv w1"
    by (auto simp: GetTaggedAddressesFromPrefixOfAddr_def elim!: bind_SomeE split: if_split_asm prod.split_asm sum.split_asm)
  with netbox_apartD(5) [OF assms(1) ok] show ?thesis by simp
qed

lemma primary_mac_store:
  assumes "netbox_apart nb hv" and "primary_mac nb i w = Some (r, w')"
  shows "hv w' = hv w"
proof -
  have mac: "hv w2 = hv w1" if "getMacAddrFromIfaceID nb j w1 = Some (x, w2)" for j w1 x w2
    using that netbox_apartD(4) [OF assms(1)]
    by (auto simp: getMacAddrFromIfaceID_def Let_def elim!: bind_SomeE split: prod.split_asm sum.split_asm if_split_asm)
  show ?thesis
  proof (cases "IpamIpAddressesList nb (IpAddresses\<lparr>aq_Id := Some [i]\<rparr>) w" rule: call_cases)
    case (err e w1)
    with assms(2) netbox_apartD(3) [OF assms(1) err] show ?thesis by (auto simp: primary_mac_def)
  next
    case (ok p w1)
    from assms(2) ok mac have "hv w' = hv w1"
      by (auto simp: primary_mac_def elim!: bind_SomeE split: if_split_asm prod.split_asm sum.split_asm)
    with netbox_apartD(3) [OF assms(1) ok] show ?thesis by simp
  qed
qed

lemma extractHardwareData_store:
  assumes "netbox_apart nb hv" and "extractHardwareData nb dev w = Some (r, w')"
  shows "hv w' = hv w"
proof -
  have disks: "hv w2 = hv w1" if "GetSystemDiskInventoryItems nb i w1 = (x, w2)" for i w1 x w2
    using that netbox_apartD(6) [OF assms(1)] by (auto simp: GetSystemDiskInventoryItems_def split: prod.split_asm sum.split_asm)
  show ?thesis using assms(2)
    by (auto simp: extractHardwareData_def Let_def elim!: bind_SomeE
        split: if_split_asm prod.split_asm sum.split_asm
        dest!: disks GetTagged_store [OF assms(1)] primary_mac_store [OF assms(1)])
qed

lemma prune_hardwares_store:
  assumes "netbox_apart nb hv" and "prune_hardwares nb devs w = Some (r, w')"
  shows "hv w' = hv w"
  using assms(2)
proof (induction devs arbitrary: w r)
  case Nil
  then show ?case by simp
next
  case (Cons dev devs)
  then show ?case
    by (auto elim!: bind_SomeE split: prod.split_asm sum.split_asm dest!: extractHardwareData_store [OF assms(1)])
qed

lemma CreateHardwaresToPrune_store:
  assumes "netbox_apart nb hv" and "CreateHardwaresToPrune nb filters w = Some (r, w')"
  shows "hv w' = hv w"
proof (cases "GetDevices nb (filters\<lparr>f_Status := [''offline'', ''planned'']\<rparr>) w" rule: call_cases)
  case (err e w1)
  with assms(2) GetDevices_store [OF assms(1) err] show ?thesis by (simp add: CreateHardwaresToPrune_def)
next
  case (ok p w1)
  with assms(2) obtain hws where "prune_hardwares nb (Results p) w1 = Some (hws, w')"
    by (auto simp: CreateHardwaresToPrune_def elim!: bind_SomeE split: prod.split_asm)
  with GetDevices_store [OF assms(1) ok] prune_hardwares_store [OF assms(1)] show ?thesis by simp
qed

lemma create_or_reconcile_store:
  assumes "hardware_laws k hv" and "views_apart k hv nb v" and "create_or_reconcile k nb hw w = (r, w')"
  shows "r = Inr () \<longrightarrow> hv w' = apply_effect hw (hv w)" and "hv w' = hv w \<or> hv w' = apply_effect hw (hv w)"
proof -
  have "(r = Inr () \<longrightarrow> hv w' = apply_effect hw (hv w)) \<and> (hv w' = hv w \<or> hv w' = apply_effect hw (hv w))"
  proof (cases "HardwareCreate k hw w" rule: call_cases)
    case (err e w1)
    note hv1 = create_lawD(3) [OF assms(1) err]
    show ?thesis
    proof (cases "IsAlreadyExists e")
      case False
      with assms(3) err hv1 show ?thesis by (auto simp: create_or_reconcile_def)
    next
      case True
      with create_lawD(4) [OF assms(1) err] obtain h where h: "hv w (hw_key hw) = Some h" by blast
      with hv1 have h1: "hv w1 (hw_key hw) = Some h" by simp
      from assms(3) err True have rec: "ReconcileExistingHardware k hw nb w1 = (r, w')" by (simp add: create_or_reconcile_def)
      with reconcile_store [OF assms(1,2) h1 rec] reconcile_success_store [OF assms(1,2) _ h1] hv1 h show ?thesis
        by (auto simp: apply_effect_def applied_def)
    qed
  next
    case (ok h w1)
    with assms(3) create_lawD(1,2) [OF assms(1) ok] show ?thesis
      by (auto simp: create_or_reconcile_def apply_effect_def applied_def)
  qed
  then show "r = Inr () \<longrightarrow> hv w' = apply_effect hw (hv w)" and "hv w' = hv w \<or> hv w' = apply_effect hw (hv w)"
    by blast+
qed

text \<open>The loops of the command are workers on the store too, with the effects of those of the controller.\<close>

interpretation creating: store_worker "\<lambda>(k, hv, nb, v). hardware_laws k hv \<and> views_apart k hv nb v" "\<lambda>(k, hv, nb, v). hv"
    "\<lambda>(k, hv, nb, v). create_or_reconcile k nb" apply_effect
proof (unfold_locales, goal_cases)
  case (1 e hw w r w')
  obtain k hv nb v where "e = (k, hv, nb, v)" by (cases e)
  with 1 create_or_reconcile_store(1) [of k hv nb v hw w r w'] show ?case by simp
next
  case (2 e hw w r w')
  obtain k hv nb v where "e = (k, hv, nb, v)" by (cases e)
  with 2 create_or_reconcile_store(2) [of k hv nb v hw w r w'] show ?case by simp
qed

interpretation deleting: store_worker "\<lambda>(k, hv). hardware_laws k hv" "\<lambda>(k, hv). hv" "\<lambda>(k, hv). HardwareDelete k" prune_effect
proof (unfold_locales, goal_cases)
  case (1 e hw w r w')
  obtain k hv where e: "e = (k, hv)" by (cases e)
  with 1 delete_lawD(1) [of k hv hw w "()" w'] show ?case by (auto simp: prune_effect_def)
next
  case (2 e hw w r w')
  obtain k hv where e: "e = (k, hv)" by (cases e)
  with 2 delete_lawD [of k hv hw w] show ?case by (cases r) (auto simp: prune_effect_def)
qed

lemma tally_counted:
  "tally f hws (s, n) w = ((s', m), w') \<Longrightarrow> counted f hws n w = (m, w') \<and> s' + m = s + n + length hws"
proof (induction hws arbitrary: s n w)
  case Nil
  then show ?case by simp
next
  case (Cons hw hws)
  show ?case
  proof (cases "f hw w" rule: call_cases)
    case (err x w1)
    with Cons.prems Cons.IH [of s "Suc n" w1] show ?thesis by simp
  next
    case (ok u w1)
    with Cons.prems Cons.IH [of "Suc s" n w1] show ?thesis by simp
  qed
qed

text \<open>
  The frame of the command: once its arguments are accepted and both lists are obtained, it is the
  two loops.
\<close>

lemma syncCmd_run:
  assumes "processRootArgs flags virtualization env False None = Some args"
    and "processHardwareArgs Stat flags embedIgn = Some hargs"
    and "getK8sClient lib env (mget flags ''kubeconfig'') = Inr k"
    and "nb = mk (ca_Endpoint args) (ca_Token args)"
    and "CreateHardwares ToIgn nb (ca_Filters args) (ha_EmbeddedIgnitionVariant hargs) w = Some (Inr desired, w1)"
    and "tally (create_or_reconcile k nb) desired (0, 0) w1 = (creation, w2)"
    and "CreateHardwaresToPrune nb (ca_Filters args) w2 = Some (Inr toPrune, w3)"
    and "tally (HardwareDelete k) toPrune (0, 0) w3 = (deletion, w')"
  shows "syncCmd ToIgn mk lib Stat printer creatable flags virtualization embedIgn env w = Some (Printed (Summary creation deletion), w')"
  using assms by (simp add: syncCmd_def Let_def)

lemma sync_loops_store:
  assumes "hardware_laws k hv" and "views_apart k hv nb v" and "netbox_apart nb hv"
    and "tally (create_or_reconcile k nb) desired (0, 0) w1 = ((s, f), w2)"
    and "CreateHardwaresToPrune nb filters w2 = Some (Inr toPrune, w3)"
    and "tally (HardwareDelete k) toPrune (0, 0) w3 = ((s', f'), w')"
  shows "s + f = length desired \<and> s' + f' = length toPrune \<and>
    (f = 0 \<and> f' = 0 \<longrightarrow> hv w' = fold prune_effect toPrune (fold apply_effect desired (hv w1))) \<and>
    (\<exists>ds ps. subseq ds desired \<and> subseq ps toPrune \<and> hv w' = fold prune_effect ps (fold apply_effect ds (hv w1)))"
proof -
  from tally_counted [OF assms(4)] have c: "counted (create_or_reconcile k nb) desired 0 w1 = (f, w2)" "s + f = length desired"
    by simp_all
  from tally_counted [OF assms(6)] have d: "counted (HardwareDelete k) toPrune 0 w3 = (f', w')" "s' + f' = length toPrune"
    by simp_all
  have hv: "hv w3 = hv w2" by (rule CreateHardwaresToPrune_store [OF assms(3,5)])
  from creating.counted_some [of "(k, hv, nb, v)" desired 0 w1 f w2] c assms(1,2) obtain ds where
    ds: "subseq ds desired" "hv w2 = fold apply_effect ds (hv w1)" by auto
  from deleting.counted_some [of "(k, hv)" toPrune 0 w3 f' w'] d assms(1) obtain ps where
    ps: "subseq ps toPrune" "hv w' = fold prune_effect ps (hv w3)" by auto
  have "hv w' = fold prune_effect toPrune (fold apply_effect desired (hv w1))" if "f = 0" "f' = 0"
    using creating.counted_all [of "(k, hv, nb, v)" desired 0 w1 w2] deleting.counted_all [of "(k, hv)" toPrune 0 w3 w']
      c d assms(1,2) hv that by simp
  with c(2) d(2) ds ps hv show ?thesis by auto
qed

section \<open>Sample runs\<close>

definition sample_flags :: string_map where
  "sample_flags = [(''netbox-endpoint'', ''https://netbox''), (''netbox-token'', replicate 40 CHR ''a''),
     (''sites'', ''paris''), (''roles'', ''worker''), (''racks'', ''-4,17'')]"

definition sample_lib :: "(mem, mem_object, unit) k8s_library" where
  "sample_lib = \<lparr>InClusterConfig = Inl not_found, BuildConfigFromFlags = \<lambda>path. Inr (), AddTinkerbellToScheme = None,
     AddCoreToScheme = None, client_New = \<lambda>c. Inr mem_kube\<rparr>"

lemma mem_netbox_apart: "netbox_apart mem_netbox mem_store"
  by (simp add: netbox_apart_def pure_call_def mem_netbox_def split: option.split)

lemma sample_args:
  "\<exists>args. processRootArgs sample_flags False [] False None = Some args \<and>
     ca_Filters args = root_filters sample_flags False [-4, 17]"
proof -
  have "parse_racks (Split ''-4,17'' CHR '','') = ([-4, 17], False)" by code_simp
  then show ?thesis by (simp add: processRootArgs_def sample_flags_def Let_def)
qed

definition sample_printer :: "unit hardware_printer" where
  "sample_printer = \<lparr>hw_Marshal = \<lambda>h. Inr (''name: '' @ hw_Name h), ParseFiles = \<lambda>name path. Inr (), Execute = \<lambda>t h. (hw_Name h, None)\<rparr>"

lemma sample_client: "getK8sClient sample_lib [] (mget sample_flags ''kubeconfig'') = Inr mem_kube"
  by (simp add: getK8sClient_def sample_lib_def)

lemma sample_create:
  "CreateHardwares no_ignition mem_netbox (root_filters sample_flags False [-4, 17]) None staged_world = Some (Inr [node7_hw], staged_world)"
  by (rule staged_create) code_simp

lemma node7_created: "\<exists>w'. create_or_reconcile mem_kube mem_netbox node7_hw staged_world = (Inr (), w')"
proof -
  have "HardwareCreate mem_kube node7_hw staged_world = (Inl conflict, staged_world)" by code_simp
  with node7_reconciled show ?thesis by (auto simp: create_or_reconcile_def conflict_def)
qed

section \<open>Properties\<close>

text \<open>
  C6. The sync command refines the same specification as the controller. Once its arguments are
  accepted, a client is there and both lists are obtained, it ends with a summary that accounts
  for every object as a success or a failure; without a failure the Hardware objects are exactly
  those wanted, and with failures they are those of a part of the work.
\<close>
theorem sync_command_refines:
  assumes "hardware_laws k hv" and "views_apart k hv nb v" and "netbox_apart nb hv"
    and "processRootArgs flags virtualization env False None = Some args"
    and "processHardwareArgs Stat flags embedIgn = Some hargs"
    and "getK8sClient lib env (mget flags ''kubeconfig'') = Inr k"
    and "nb = mk (ca_Endpoint args) (ca_Token args)"
    and "CreateHardwares ToIgn nb (ca_Filters args) (ha_EmbeddedIgnitionVariant hargs) w = Some (Inr desired, w1)"
    and "tally (create_or_reconcile k nb) desired (0, 0) w1 = ((s, f), w2)"
    and "CreateHardwaresToPrune nb (ca_Filters args) w2 = Some (Inr toPrune, w3)"
    and "distinct (map hw_key desired)"
  shows "\<exists>s' f' w'. syncCmd ToIgn mk lib Stat printer creatable flags virtualization embedIgn env w =
      Some (Printed (Summary (s, f) (s', f')), w') \<and>
    s + f = length desired \<and> s' + f' = length toPrune \<and>
    (f = 0 \<and> f' = 0 \<longrightarrow> hv w' = wanted_store desired toPrune (hv w1)) \<and>
    (\<exists>ds ps. subseq ds desired \<and> subseq ps toPrune \<and> hv w' = wanted_store ds ps (hv w1))"
proof -
  obtain s' f' w' where del: "tally (HardwareDelete k) toPrune (0, 0) w3 = ((s', f'), w')" by (metis prod.exhaust)
  note run = syncCmd_run [where mk = mk and printer = printer and creatable = creatable, OF assms(4-10) del]
  note loops = sync_loops_store [OF assms(1-3,9,10) del]
  then obtain ds ps where parts: "subseq ds desired" "subseq ps toPrune"
    "hv w' = fold prune_effect ps (fold apply_effect ds (hv w1))" by blast
  have "distinct (map hw_key ds)"
    using subseq_map [OF parts(1), of hw_key] assms(11) by (auto simp: subseq_conv_nths)
  with parts fold_wanted [of ds ps "hv w1"] have "\<exists>ds ps. subseq ds desired \<and> subseq ps toPrune \<and> hv w' = wanted_store ds ps (hv w1)"
    by metis
  with run loops fold_wanted [OF assms(11)] show ?thesis by auto
qed

theorem sync_command_refines_witness:
  "\<exists>s' f' w'. syncCmd no_ignition (\<lambda>ep tok. mem_netbox) sample_lib (\<lambda>path. None) sample_printer (\<lambda>path. True) sample_flags False False [] staged_world =
      Some (Printed (Summary (1, 0) (s', f')), w') \<and> s' + f' = 0 \<and>
      mem_store w' = wanted_store [node7_hw] [] (mem_store staged_world)"
proof -
  from sample_args obtain args where args: "processRootArgs sample_flags False [] False None = Some args"
    "ca_Filters args = root_filters sample_flags False [-4, 17]" by blast
  have hargs: "processHardwareArgs (\<lambda>path. None) sample_flags False =
      Some \<lparr>ha_Template = None, ha_EmbedIgnitionAsVendorData = False, ha_EmbeddedIgnitionVariant = None\<rparr>"
    by (simp add: processHardwareArgs_def sample_flags_def)
  let ?t = "tally (create_or_reconcile mem_kube mem_netbox) [node7_hw] (0, 0) staged_world"
  have "fst ?t = (1, 0)" using node7_created by auto
  then have t: "?t = ((1, 0), snd ?t)" by (metis prod.collapse)
  have "GetDevices mem_netbox ((root_filters sample_flags False [-4, 17])\<lparr>f_Status := [''offline'', ''planned'']\<rparr>) (snd ?t) =
      (Inr (page []), snd ?t)" by code_simp
  then have p: "CreateHardwaresToPrune mem_netbox (ca_Filters args) (snd ?t) = Some (Inr [], snd ?t)"
    unfolding args(2) by (simp add: CreateHardwaresToPrune_def page_def)
  have c: "CreateHardwares no_ignition mem_netbox (ca_Filters args) None staged_world = Some (Inr [node7_hw], staged_world)"
    unfolding args(2) by (rule sample_create)
  from sync_command_refines [where mk = "\<lambda>ep tok. mem_netbox" and ToIgn = no_ignition and creatable = "\<lambda>path. True" and printer = sample_printer,
      OF mem_hardware_laws mem_views_apart mem_netbox_apart args(1) hargs sample_client refl] c t p
  show ?thesis by fastforce
qed

text \<open>
  C38. Which options are accepted, and how the racks are read: the token must have 40 characters, an
  endpoint must be given by the flag or by the environment, the output directory, the sites and
  the roles when the command requires them; the 32-bit rack numbers of a comma-separated list are
  read back from it, an empty list is no filter, and one text that is not a 32-bit number makes the
  command refuse to start.
\<close>
theorem root_options_accepted:
  assumes "mget flags ''racks'' = Join (map Itoa32 ids) '',''"
    and "needOut = (requireOutputDirectory \<and> mget flags ''output-directory'' = [])"
    and "needDevices = (requireDeviceFilters \<noteq> Some False)"
  shows "(processRootArgs flags virtualization env requireOutputDirectory requireDeviceFilters \<noteq> None \<longleftrightarrow>
      (mget flags ''netbox-endpoint'' \<noteq> [] \<or> mget env ''NETBOX_ENDPOINT'' \<noteq> []) \<and>
      length (if mget flags ''netbox-token'' = [] then mget env ''NETBOX_TOKEN'' else mget flags ''netbox-token'') = 40 \<and>
      \<not> needOut \<and> (needDevices \<longrightarrow> mget flags ''sites'' \<noteq> [] \<and> mget flags ''roles'' \<noteq> [])) \<and>
    (\<forall>args. processRootArgs flags virtualization env requireOutputDirectory requireDeviceFilters = Some args \<longrightarrow>
      f_Racks (ca_Filters args) = ids \<and> length (ca_Token args) = 40 \<and> ca_Endpoint args \<noteq> []) \<and>
    (s \<noteq> [] \<and> CHR '','' \<notin> set s \<and> ParseInt32 s = None \<and> mget badFlags ''racks'' = Join (map Itoa32 ids @ [s]) '','' \<longrightarrow>
      processRootArgs badFlags virtualization env requireOutputDirectory requireDeviceFilters = None)"
proof -
  have racks: "parse_racks (Split (mget flags ''racks'') CHR '','') = (ids, False)"
  proof (cases "ids = []")
    case True
    with assms(1) show ?thesis by simp
  next
    case False
    with assms(1) have "Split (mget flags ''racks'') CHR '','' = map Itoa32 ids"
      using Itoa32_no_comma by (auto intro!: Split_Join)
    then show ?thesis by (simp add: parse_racks_Itoa32)
  qed
  have need: "(case requireDeviceFilters of None \<Rightarrow> True | Some b \<Rightarrow> b) = needDevices"
    using assms(3) by (cases requireDeviceFilters) auto
  have bad: "processRootArgs badFlags virtualization env requireOutputDirectory requireDeviceFilters = None"
    if "s \<noteq> []" "CHR '','' \<notin> set s" "ParseInt32 s = None" "mget badFlags ''racks'' = Join (map Itoa32 ids @ [s]) '',''"
  proof -
    have "Split (mget badFlags ''racks'') CHR '','' = map Itoa32 ids @ [s]"
      unfolding that(4) using that(2) Itoa32_no_comma by (intro Split_Join) auto
    moreover obtain xs b where p: "parse_racks (map Itoa32 ids @ [s]) = (xs, b)" by fastforce
    moreover from parse_racks_spec [OF p] that(1,3) have b by auto
    ultimately show ?thesis by (simp add: processRootArgs_def Let_def)
  qed
  show ?thesis
    using racks need assms(2) bad by (auto simp: processRootArgs_def Let_def root_filters_def)
qed

theorem root_options_accepted_witness:
  "(\<exists>args. processRootArgs sample_flags False [] False None = Some args \<and> f_Racks (ca_Filters args) = [-4, 17]) \<and>
   processRootArgs [(''racks'', ''-4,17,x'')] False [] False None = None"
proof -
  have racks: "mget sample_flags ''racks'' = Join (map Itoa32 [-4, 17]) '',''"
    "mget [(''racks'', ''-4,17,x'')] ''racks'' = Join (map Itoa32 [-4, 17] @ [''x'']) '',''" "ParseInt32 ''x'' = None"
    by (code_simp, code_simp, code_simp)
  note options = root_options_accepted [OF racks(1) refl refl, where requireOutputDirectory = False and
      requireDeviceFilters = None and virtualization = False and env = "[]" and s = "''x''" and
      badFlags = "[(''racks'', ''-4,17,x'')]"]
  from sample_args obtain args where "processRootArgs sample_flags False [] False None = Some args" by blast
  with options racks(2,3) show ?thesis by simp
qed



end
