(* ===== verification/Seed_NetBox.thy ===== *)
theory Seed_NetBox
  imports NetBox_Laws Kube_API
begin

text \<open>
  The tool that fills a NetBox with the devices of the integration tests
  (\<open>tooling/seed-netbox/main.go\<close>): every record is looked up by its name and created if it is
  missing. The calls of the NetBox client that only this tool makes are the record
  \<open>seed_client\<close>; the shape that its functions share is \<open>ensure\<close>.
\<close>

section \<open>Data\<close>

record networkSpec =
  ns_ifaceName :: string
  ns_macAddr :: string
  ns_ipAddress :: string
  ns_ifaceType :: string

record deviceSpec =
  ds_name :: string
  ds_status :: string
  ds_network :: "networkSpec option"

definition tenantName :: string where
  "tenantName = ''testing''"

definition tenantSlug :: string where
  "tenantSlug = ''testing''"

definition siteName :: string where
  "siteName = ''testing-site''"

definition siteSlug :: string where
  "siteSlug = ''testing-site''"

definition roleName :: string where
  "roleName = ''worker''"

definition roleSlug :: string where
  "roleSlug = ''worker''"

definition manufacturerName :: string where
  "manufacturerName = ''test-manufacturer''"

definition manufacturerSlug :: string where
  "manufacturerSlug = ''test-manufacturer''"

definition deviceTypeName :: string where
  "deviceTypeName = ''test-device-type''"

definition deviceTypeSlug :: string where
  "deviceTypeSlug = ''test-device-type''"

definition seed_spec :: "string \<Rightarrow> string \<Rightarrow> string \<Rightarrow> string \<Rightarrow> string \<Rightarrow> deviceSpec" where
  "seed_spec name iface mac ip t = \<lparr>ds_name = name, ds_status = ''staged'',
     ds_network = Some \<lparr>ns_ifaceName = iface, ns_macAddr = mac, ns_ipAddress = ip, ns_ifaceType = t\<rparr>\<rparr>"

definition devicesToSeed :: "deviceSpec list" where
  "devicesToSeed =
     [seed_spec ''test-simple-01'' ''eth0'' ''aa:bb:cc:00:01:01'' ''10.10.0.1/24'' ''1000base-t'',
      seed_spec ''test-bond-01'' ''bond0'' ''aa:bb:cc:00:02:01'' ''10.10.0.2/24'' ''lag'',
      seed_spec ''test-vlan-01'' ''eth0'' ''aa:bb:cc:00:03:01'' ''10.10.1.1/24'' ''1000base-t'',
      seed_spec ''test-bond-vlan-01'' ''bond0'' ''aa:bb:cc:00:04:01'' ''10.10.1.2/24'' ''lag'',
      seed_spec ''test-missing-ip-01'' ''eth0'' ''aa:bb:cc:00:05:01'' [] ''1000base-t'',
      seed_spec ''test-missing-mac-01'' ''eth0'' [] ''10.10.0.5/24'' ''1000base-t'']"

definition prefixesToSeed :: "string list" where
  "prefixesToSeed = [''10.10.0.0/24'', ''10.10.1.0/24'']"

section \<open>The NetBox client\<close>

record identified =
  ob_Id :: int32

record named_request =
  nr_Name :: string
  nr_Slug :: string

record site_request = named_request +
  sr_Tenant :: int32

record role_request = named_request +
  rr_Color :: string

record device_type_request =
  dt_Manufacturer :: int32
  dt_Model :: string
  dt_Slug :: string

record interface_request =
  xr_Device :: int32
  xr_Name :: string
  xr_Type :: string

record seed_ip_request =
  ir_Address :: string
  ir_AssignedObjectType :: string
  ir_AssignedObjectId :: "64 word"

record seed_device_request =
  dr_Name :: string
  dr_DeviceType :: int32
  dr_Role :: int32
  dr_Site :: int32
  dr_Status :: string
  dr_Tenant :: int32

record 'w seed_client =
  TenancyTenantsList :: "string list \<Rightarrow> ('w, identified page) call"
  TenancyTenantsCreate :: "named_request \<Rightarrow> ('w, identified) call"
  DcimSitesList :: "string list \<Rightarrow> ('w, identified page) call"
  DcimSitesCreate :: "site_request \<Rightarrow> ('w, identified) call"
  DcimDeviceRolesList :: "string list \<Rightarrow> ('w, identified page) call"
  DcimDeviceRolesCreate :: "role_request \<Rightarrow> ('w, identified) call"
  DcimManufacturersList :: "string list \<Rightarrow> ('w, identified page) call"
  DcimManufacturersCreate :: "named_request \<Rightarrow> ('w, identified) call"
  DcimDeviceTypesList :: "string list \<Rightarrow> ('w, identified page) call"
  DcimDeviceTypesCreate :: "device_type_request \<Rightarrow> ('w, identified) call"
  SeedPrefixesList :: "string list \<Rightarrow> ('w, identified page) call"
  SeedPrefixesCreate :: "string \<Rightarrow> ('w, identified) call"
  SeedInterfacesList :: "int32 list \<Rightarrow> string list \<Rightarrow> ('w, identified page) call"
  DcimInterfacesCreate :: "interface_request \<Rightarrow> ('w, identified) call"
  SeedIpAddressesList :: "string list \<Rightarrow> ('w, identified page) call"
  SeedIpAddressesCreate :: "seed_ip_request \<Rightarrow> ('w, identified) call"
  SeedDevicesList :: "string list \<Rightarrow> ('w, identified page) call"
  DcimDevicesCreate :: "seed_device_request \<Rightarrow> ('w, identified) call"
  DcimDevicesPatchPrimaryIp4 :: "int32 \<Rightarrow> int32 \<Rightarrow> ('w, identified) call"

section \<open>Records\<close>

text \<open>The body of the functions that answer an id, with their two error texts and their two calls.\<close>

definition ensure ::
  "string \<Rightarrow> string \<Rightarrow> ('w, identified page) call \<Rightarrow> ('w, identified) call \<Rightarrow> ('w, int32 result) go" where
  "ensure listMsg createMsg lookup create w =
     (case lookup w of
        (Inl err, w) \<Rightarrow> Some (Inl (Wrapf listMsg err), w)
      | (Inr result, w) \<Rightarrow>
          if Count result > 0 then do {
            x \<leftarrow> index0 (Results result);
            Some (Inr (ob_Id x), w)
          }
          else (case create w of
                  (Inl err, w) \<Rightarrow> Some (Inl (Wrapf createMsg err), w)
                | (Inr created, w) \<Rightarrow> Some (Inr (ob_Id created), w)))"

definition ensureTenant :: "'w seed_client \<Rightarrow> ('w, int32 result) go" where
  "ensureTenant c = ensure ''list tenants: '' ''create tenant: ''
     (TenancyTenantsList c [tenantName]) (TenancyTenantsCreate c \<lparr>nr_Name = tenantName, nr_Slug = tenantSlug\<rparr>)"

definition ensureSite :: "'w seed_client \<Rightarrow> int32 \<Rightarrow> ('w, int32 result) go" where
  "ensureSite c tenantID = ensure ''list sites: '' ''create site: ''
     (DcimSitesList c [siteName])
     (DcimSitesCreate c \<lparr>nr_Name = siteName, nr_Slug = siteSlug, sr_Tenant = tenantID\<rparr>)"

definition ensureDeviceRole :: "'w seed_client \<Rightarrow> ('w, int32 result) go" where
  "ensureDeviceRole c = ensure ''list device roles: '' ''create device role: ''
     (DcimDeviceRolesList c [roleName])
     (DcimDeviceRolesCreate c \<lparr>nr_Name = roleName, nr_Slug = roleSlug, rr_Color = ''000000''\<rparr>)"

definition ensureManufacturer :: "'w seed_client \<Rightarrow> ('w, int32 result) go" where
  "ensureManufacturer c = ensure ''list manufacturers: '' ''create manufacturer: ''
     (DcimManufacturersList c [manufacturerName])
     (DcimManufacturersCreate c \<lparr>nr_Name = manufacturerName, nr_Slug = manufacturerSlug\<rparr>)"

definition ensureDeviceType :: "'w seed_client \<Rightarrow> int32 \<Rightarrow> ('w, int32 result) go" where
  "ensureDeviceType c manufacturerID = ensure ''list device types: '' ''create device type: ''
     (DcimDeviceTypesList c [deviceTypeName])
     (DcimDeviceTypesCreate c \<lparr>dt_Manufacturer = manufacturerID, dt_Model = deviceTypeName, dt_Slug = deviceTypeSlug\<rparr>)"

text \<open>The function for prefixes does not read the page it got.\<close>

definition ensurePrefix :: "'w seed_client \<Rightarrow> string \<Rightarrow> ('w, unit) call" where
  "ensurePrefix c prefix w =
     (case SeedPrefixesList c [prefix] w of
        (Inl err, w) \<Rightarrow> (Inl (Wrapf ''list prefixes: '' err), w)
      | (Inr result, w) \<Rightarrow>
          if Count result > 0 then (Inr (), w)
          else (case SeedPrefixesCreate c prefix w of
                  (Inl err, w) \<Rightarrow> (Inl (Wrapf (''create prefix '' @ prefix @ '': '') err), w)
                | (Inr created, w) \<Rightarrow> (Inr (), w)))"

definition ensureInterface :: "'w seed_client \<Rightarrow> int32 \<Rightarrow> string \<Rightarrow> string \<Rightarrow> ('w, int32 result) go" where
  "ensureInterface c deviceID name ifaceType = ensure ''list interfaces: ''
     (''create interface '' @ name @ '' on device '' @ Itoa32 deviceID @ '': '')
     (SeedInterfacesList c [deviceID] [name])
     (DcimInterfacesCreate c \<lparr>xr_Device = deviceID, xr_Name = name, xr_Type = ifaceType\<rparr>)"

definition ensureIPAddress :: "'w seed_client \<Rightarrow> string \<Rightarrow> int32 \<Rightarrow> ('w, int32 result) go" where
  "ensureIPAddress c address ifaceID = ensure ''list ip addresses: '' (''create ip address '' @ address @ '': '')
     (SeedIpAddressesList c [address])
     (SeedIpAddressesCreate c \<lparr>ir_Address = address, ir_AssignedObjectType = ''dcim.interface'',
        ir_AssignedObjectId = scast ifaceID\<rparr>)"

definition ensureDevicePrimaryIP :: "'w seed_client \<Rightarrow> int32 \<Rightarrow> int32 \<Rightarrow> ('w, unit) call" where
  "ensureDevicePrimaryIP c deviceID ipID w =
     (case DcimDevicesPatchPrimaryIp4 c deviceID ipID w of
        (Inl err, w) \<Rightarrow>
          (Inl (Wrapf (''set primary IP '' @ Itoa32 ipID @ '' on device '' @ Itoa32 deviceID @ '': '') err), w)
      | (Inr patched, w) \<Rightarrow> (Inr (), w))"

definition ensureDevice ::
  "'w seed_client \<Rightarrow> deviceSpec \<Rightarrow> int32 \<Rightarrow> int32 \<Rightarrow> int32 \<Rightarrow> int32 \<Rightarrow> ('w, int32 result) go" where
  "ensureDevice c spec siteID roleID deviceTypeID tenantID =
     ensure ''list devices: '' (''create device '' @ ds_name spec @ '': '')
       (SeedDevicesList c [ds_name spec])
       (DcimDevicesCreate c \<lparr>dr_Name = ds_name spec, dr_DeviceType = deviceTypeID, dr_Role = roleID,
          dr_Site = siteID, dr_Status = ds_status spec, dr_Tenant = tenantID\<rparr>)"

section \<open>The run\<close>

text \<open>
  An error ends the process with exit code 1: the steps are chained by \<open>or_exit\<close>. \<open>quiet\<close> reads a
  call that cannot panic as a step.
\<close>

definition or_exit :: "('w, 'a result) go \<Rightarrow> ('a \<Rightarrow> ('w, 'b result) go) \<Rightarrow> ('w, 'b result) go" where
  "or_exit step rest w = do {
     (r, w) \<leftarrow> step w;
     (case r of Inl err \<Rightarrow> Some (Inl err, w) | Inr x \<Rightarrow> rest x w)
   }"

definition quiet :: "('w, 'a) call \<Rightarrow> ('w, 'a result) go" where
  "quiet f w = Some (f w)"

fun seed_prefixes :: "'w seed_client \<Rightarrow> string list \<Rightarrow> ('w, unit result) go" where
  "seed_prefixes c [] w = Some (Inr (), w)"
| "seed_prefixes c (prefix # prefixes) w = or_exit (quiet (ensurePrefix c prefix)) (\<lambda>_. seed_prefixes c prefixes) w"

text \<open>One iteration over the devices; a \<open>continue\<close> is the answer without error.\<close>

definition seed_network :: "'w seed_client \<Rightarrow> int32 \<Rightarrow> networkSpec \<Rightarrow> ('w, unit result) go" where
  "seed_network c deviceID n =
     or_exit (ensureInterface c deviceID (ns_ifaceName n) (ns_ifaceType n)) (\<lambda>ifaceID.
       if ns_ipAddress n = [] then (\<lambda>w. Some (Inr (), w))
       else or_exit (ensureIPAddress c (ns_ipAddress n) ifaceID) (\<lambda>ipID.
              quiet (ensureDevicePrimaryIP c deviceID ipID)))"

definition seed_device ::
  "'w seed_client \<Rightarrow> int32 \<Rightarrow> int32 \<Rightarrow> int32 \<Rightarrow> int32 \<Rightarrow> deviceSpec \<Rightarrow> ('w, unit result) go" where
  "seed_device c siteID roleID deviceTypeID tenantID spec =
     or_exit (ensureDevice c spec siteID roleID deviceTypeID tenantID) (\<lambda>deviceID.
       case ds_network spec of
         None \<Rightarrow> (\<lambda>w. Some (Inr (), w))
       | Some n \<Rightarrow> seed_network c deviceID n)"

fun seed_devices ::
  "'w seed_client \<Rightarrow> int32 \<Rightarrow> int32 \<Rightarrow> int32 \<Rightarrow> int32 \<Rightarrow> deviceSpec list \<Rightarrow> ('w, unit result) go" where
  "seed_devices c siteID roleID deviceTypeID tenantID [] w = Some (Inr (), w)"
| "seed_devices c siteID roleID deviceTypeID tenantID (spec # specs) w =
     or_exit (seed_device c siteID roleID deviceTypeID tenantID spec)
       (\<lambda>_. seed_devices c siteID roleID deviceTypeID tenantID specs) w"

definition seed_all :: "'w seed_client \<Rightarrow> string list \<Rightarrow> deviceSpec list \<Rightarrow> ('w, unit result) go" where
  "seed_all c prefixes specs =
     or_exit (ensureTenant c) (\<lambda>tenantID.
     or_exit (ensureSite c tenantID) (\<lambda>siteID.
     or_exit (ensureDeviceRole c) (\<lambda>roleID.
     or_exit (ensureManufacturer c) (\<lambda>manufacturerID.
     or_exit (ensureDeviceType c manufacturerID) (\<lambda>deviceTypeID.
     or_exit (seed_prefixes c prefixes) (\<lambda>_.
       seed_devices c siteID roleID deviceTypeID tenantID specs))))))"

text \<open>The exit code of the process.\<close>

definition seed_netbox_main :: "(string \<Rightarrow> string \<Rightarrow> 'w seed_client) \<Rightarrow> string_map \<Rightarrow> ('w, nat) go" where
  "seed_netbox_main NewAPIClientFor env w =
     (let endpoint = mget env ''NETBOX_ENDPOINT''; token = mget env ''NETBOX_TOKEN'' in
      if endpoint = [] \<or> token = [] then Some (1, w)
      else do {
        (r, w) \<leftarrow> seed_all (NewAPIClientFor endpoint token) prefixesToSeed devicesToSeed w;
        Some (case r of Inl err \<Rightarrow> 1 | Inr u \<Rightarrow> 0, w)
      })"

section \<open>What NetBox documents\<close>

text \<open>
  The tables that the tool writes: the key by which a record is looked up (for an interface the
  device it belongs to, and a name) with its id, and the primary address of each device.
\<close>

datatype resource = Tenants | Sites | DeviceRoles | Manufacturers | DeviceTypes | Prefix_Table | Devices | Interfaces | IP_Table

type_synonym seed_key = "int32 option \<times> string"

record seed_db =
  rows :: "resource \<Rightarrow> (seed_key \<times> int32) list"
  primary :: "int32 \<Rightarrow> int32 option"

definition ids_of :: "seed_db \<Rightarrow> resource \<Rightarrow> seed_key \<Rightarrow> int32 list" where
  "ids_of db t key = map snd (filter (\<lambda>row. fst row = key) (rows db t))"

definition id_of :: "seed_db \<Rightarrow> resource \<Rightarrow> seed_key \<Rightarrow> int32 option" where
  "id_of db t key = index0 (ids_of db t key)"

definition add_row :: "resource \<Rightarrow> seed_key \<Rightarrow> int32 \<Rightarrow> seed_db \<Rightarrow> seed_db" where
  "add_row t key i db = db\<lparr>rows := (rows db)(t := rows db t @ [(key, i)])\<rparr>"

text \<open>Ids are primary keys: no two records of a table share one.\<close>

definition ids_unique :: "seed_db \<Rightarrow> bool" where
  "ids_unique db \<longleftrightarrow> (\<forall>t. distinct (map snd (rows db t)))"

definition table_law ::
  "('w \<Rightarrow> seed_db) \<Rightarrow> resource \<Rightarrow> seed_key \<Rightarrow> ('w, identified page) call \<Rightarrow> ('w, identified) call \<Rightarrow> bool" where
  "table_law v t key lookup create \<longleftrightarrow>
     pure_call v lookup \<and>
     (\<forall>w p w'. lookup w = (Inr p, w') \<longrightarrow> page_of p (map (\<lambda>i. \<lparr>ob_Id = i\<rparr>) (ids_of (v w) t key))) \<and>
     write_call v create (\<lambda>db x db'. db' = add_row t key (ob_Id x) db \<and> ob_Id x \<notin> set (map snd (rows db t)))"

definition seed_laws :: "'w seed_client \<Rightarrow> ('w \<Rightarrow> seed_db) \<Rightarrow> bool" where
  "seed_laws c v \<longleftrightarrow>
     (\<forall>r. table_law v Tenants (None, nr_Name r) (TenancyTenantsList c [nr_Name r]) (TenancyTenantsCreate c r)) \<and>
     (\<forall>r. table_law v Sites (None, nr_Name r) (DcimSitesList c [nr_Name r]) (DcimSitesCreate c r)) \<and>
     (\<forall>r. table_law v DeviceRoles (None, nr_Name r) (DcimDeviceRolesList c [nr_Name r]) (DcimDeviceRolesCreate c r)) \<and>
     (\<forall>r. table_law v Manufacturers (None, nr_Name r) (DcimManufacturersList c [nr_Name r]) (DcimManufacturersCreate c r)) \<and>
     (\<forall>r. table_law v DeviceTypes (None, dt_Model r) (DcimDeviceTypesList c [dt_Model r]) (DcimDeviceTypesCreate c r)) \<and>
     (\<forall>p. table_law v Prefix_Table (None, p) (SeedPrefixesList c [p]) (SeedPrefixesCreate c p)) \<and>
     (\<forall>r. table_law v Interfaces (Some (xr_Device r), xr_Name r)
        (SeedInterfacesList c [xr_Device r] [xr_Name r]) (DcimInterfacesCreate c r)) \<and>
     (\<forall>r. table_law v IP_Table (None, ir_Address r) (SeedIpAddressesList c [ir_Address r]) (SeedIpAddressesCreate c r)) \<and>
     (\<forall>r. table_law v Devices (None, dr_Name r) (SeedDevicesList c [dr_Name r]) (DcimDevicesCreate c r)) \<and>
     (\<forall>i a. write_call v (DcimDevicesPatchPrimaryIp4 c i a)
        (\<lambda>db x db'. db' = db\<lparr>primary := (primary db)(i \<mapsto> a)\<rparr>))"

section \<open>Steps that achieve a goal\<close>

text \<open>
  How a step may change the tables: it appends records, and sets the primary address of the
  devices named in \<open>N\<close> only.
\<close>

definition grows :: "string set \<Rightarrow> seed_db \<Rightarrow> seed_db \<Rightarrow> bool" where
  "grows N db db' \<longleftrightarrow>
     (\<forall>t. \<exists>new. rows db' t = rows db t @ new) \<and>
     (\<forall>i. (\<forall>n \<in> N. id_of db' Devices (None, n) \<noteq> Some i) \<longrightarrow> primary db' i = primary db i)"

definition stable :: "string set \<Rightarrow> (seed_db \<Rightarrow> bool) \<Rightarrow> bool" where
  "stable N P \<longleftrightarrow> (\<forall>db db'. ids_unique db' \<longrightarrow> grows N db db' \<longrightarrow> P db \<longrightarrow> P db')"

text \<open>
  A step achieves a goal: started where \<open>I\<close> holds it ends, without a panic; a success
  establishes the goal for its answer; and where the goal holds already nothing is changed and the
  answer can only be that one.
\<close>

definition achieves ::
  "('w \<Rightarrow> seed_db) \<Rightarrow> (seed_db \<Rightarrow> bool) \<Rightarrow> string set \<Rightarrow> ('a \<Rightarrow> seed_db \<Rightarrow> bool) \<Rightarrow> ('w, 'a result) go \<Rightarrow> bool" where
  "achieves v I N P step \<longleftrightarrow>
     (\<forall>w. ids_unique (v w) \<longrightarrow> I (v w) \<longrightarrow>
        (\<exists>r w'. step w = Some (r, w') \<and> ids_unique (v w') \<and> grows N (v w) (v w') \<and>
           (\<forall>x. r = Inr x \<longrightarrow> P x (v w')) \<and>
           (\<forall>x. P x (v w) \<longrightarrow> v w' = v w \<and> (\<forall>y. r = Inr y \<longrightarrow> y = x))))"

lemma id_of_grows: "grows N db db' \<Longrightarrow> id_of db t key = Some i \<Longrightarrow> id_of db' t key = Some i"
proof -
  assume "grows N db db'" and i: "id_of db t key = Some i"
  then obtain new where "rows db' t = rows db t @ new" unfolding grows_def by blast
  then have "ids_of db' t key = ids_of db t key @ map snd (filter (\<lambda>row. fst row = key) new)" by (simp add: ids_of_def)
  with i show ?thesis by (cases "ids_of db t key") (auto simp: id_of_def)
qed

lemma grows_refl [simp]: "grows N db db"
  by (simp add: grows_def)

lemma grows_add_row [simp]: "grows N db (add_row t key i db)"
  by (simp add: grows_def add_row_def)

lemma grows_trans:
  assumes "grows N db db1" and "grows M db1 db2"
  shows "grows (N \<union> M) db db2"
  unfolding grows_def
proof (intro conjI allI impI)
  fix t
  from assms show "\<exists>new. rows db2 t = rows db t @ new" unfolding grows_def by (metis append.assoc)
next
  fix i
  assume no: "\<forall>n \<in> N \<union> M. id_of db2 Devices (None, n) \<noteq> Some i"
  then have "\<forall>n \<in> N. id_of db1 Devices (None, n) \<noteq> Some i" using id_of_grows [OF assms(2)] by blast
  with assms(1) have "primary db1 i = primary db i" unfolding grows_def by blast
  moreover from no assms(2) have "primary db2 i = primary db1 i" unfolding grows_def by blast
  ultimately show "primary db2 i = primary db i" by simp
qed

lemma stable_id: "stable N (\<lambda>db. id_of db t key = Some i)"
  by (simp add: stable_def id_of_grows)

lemma achieves_or_exit:
  assumes step: "achieves v I N P step" and rest: "\<And>x. achieves v (\<lambda>db. I db \<and> P x db) M (Q x) (rest x)"
    and "stable N I" and "\<And>x. stable M (P x)"
  shows "achieves v I (N \<union> M) (\<lambda>y db. \<exists>x. P x db \<and> Q x y db) (or_exit step rest)"
  unfolding achieves_def
proof (intro allI impI)
  fix w
  assume w: "ids_unique (v w)" "I (v w)"
  with step obtain r w1 where s: "step w = Some (r, w1)" "ids_unique (v w1)" "grows N (v w) (v w1)"
    "\<forall>x. r = Inr x \<longrightarrow> P x (v w1)" "\<forall>x. P x (v w) \<longrightarrow> v w1 = v w \<and> (\<forall>y. r = Inr y \<longrightarrow> y = x)"
    unfolding achieves_def by blast
  show "\<exists>r w'. or_exit step rest w = Some (r, w') \<and> ids_unique (v w') \<and> grows (N \<union> M) (v w) (v w') \<and>
      (\<forall>y. r = Inr y \<longrightarrow> (\<exists>x. P x (v w') \<and> Q x y (v w'))) \<and>
      (\<forall>y. (\<exists>x. P x (v w) \<and> Q x y (v w)) \<longrightarrow> v w' = v w \<and> (\<forall>z. r = Inr z \<longrightarrow> z = y))"
  proof (cases r)
    case (Inl e)
    with s grows_trans [OF s(3) grows_refl] show ?thesis by (auto simp: or_exit_def)
  next
    case (Inr x)
    with s have P: "P x (v w1)" by blast
    from assms(3) s(2,3) w(2) have "I (v w1)" unfolding stable_def by blast
    with rest [of x] s(2) P obtain r2 w2 where q: "rest x w1 = Some (r2, w2)" "ids_unique (v w2)" "grows M (v w1) (v w2)"
      "\<forall>y. r2 = Inr y \<longrightarrow> Q x y (v w2)" "\<forall>y. Q x y (v w1) \<longrightarrow> v w2 = v w1 \<and> (\<forall>z. r2 = Inr z \<longrightarrow> z = y)"
      unfolding achieves_def by blast
    from assms(4) q(2,3) P have "P x (v w2)" unfolding stable_def by blast
    with q(4) have "\<forall>y. r2 = Inr y \<longrightarrow> (\<exists>x. P x (v w2) \<and> Q x y (v w2))" by blast
    moreover have "v w2 = v w \<and> (\<forall>z. r2 = Inr z \<longrightarrow> z = y)" if "P x' (v w)" "Q x' y (v w)" for x' y
    proof -
      from s(5) that(1) Inr have "v w1 = v w" "x = x'" by auto
      with that q(5) show ?thesis by auto
    qed
    ultimately show ?thesis using s(1) Inr q(1,2) grows_trans [OF s(3) q(3)] by (auto simp: or_exit_def)
  qed
qed

lemma achieves_weaken:
  assumes "achieves v I N P step" and "\<And>db. J db \<Longrightarrow> I db" and "N \<subseteq> M"
    and "\<And>x db. J db \<Longrightarrow> P x db \<longleftrightarrow> Q x db" and "stable N J"
  shows "achieves v J M Q step"
  unfolding achieves_def
proof (intro allI impI)
  fix w
  assume w: "ids_unique (v w)" "J (v w)"
  with assms(1,2) obtain r w' where s: "step w = Some (r, w')" "ids_unique (v w')" "grows N (v w) (v w')"
    "\<forall>x. r = Inr x \<longrightarrow> P x (v w')" "\<forall>x. P x (v w) \<longrightarrow> v w' = v w \<and> (\<forall>y. r = Inr y \<longrightarrow> y = x)"
    unfolding achieves_def by blast
  from s(2,3) w(2) assms(5) have J: "J (v w')" unfolding stable_def by blast
  from s(3) assms(3) have "grows M (v w) (v w')" unfolding grows_def by blast
  with s J w(2) assms(4) show "\<exists>r w'. step w = Some (r, w') \<and> ids_unique (v w') \<and> grows M (v w) (v w') \<and>
      (\<forall>x. r = Inr x \<longrightarrow> Q x (v w')) \<and> (\<forall>x. Q x (v w) \<longrightarrow> v w' = v w \<and> (\<forall>y. r = Inr y \<longrightarrow> y = x))" by blast
qed

section \<open>The steps of the tool\<close>

lemma ids_unique_add_row: "ids_unique db \<Longrightarrow> i \<notin> set (map snd (rows db t)) \<Longrightarrow> ids_unique (add_row t key i db)"
  by (auto simp: ids_unique_def add_row_def)

lemma id_of_add_row: "ids_of db t key = [] \<Longrightarrow> id_of (add_row t key i db) t key = Some i"
  by (simp add: id_of_def ids_of_def add_row_def)

lemma id_of_page:
  assumes "page_of p (map (\<lambda>i. \<lparr>ob_Id = i\<rparr>) (ids_of db t key))"
  shows "Count p > 0 \<longleftrightarrow> id_of db t key \<noteq> None" and "map_option ob_Id (index0 (Results p)) = id_of db t key"
  using page_of_Count(1) [OF assms] page_of_index0 [OF assms] by (auto simp: id_of_def) (cases "ids_of db t key"; simp)+

lemma table_lawD:
  assumes "table_law v t key lookup create"
  shows "lookup w = (r, w') \<Longrightarrow> v w' = v w"
    and "lookup w = (Inr p, w') \<Longrightarrow> page_of p (map (\<lambda>i. \<lparr>ob_Id = i\<rparr>) (ids_of (v w) t key))"
    and "create w = (Inr x, w') \<Longrightarrow> v w' = add_row t key (ob_Id x) (v w) \<and> ob_Id x \<notin> set (map snd (rows (v w) t))"
    and "create w = (Inl e, w') \<Longrightarrow> v w' = v w"
  using assms unfolding table_law_def by (blast dest: pure_callD write_callD)+

lemma created_row:
  assumes "table_law v t key lookup create" and "create w = (Inr x, w')" and "ids_unique (v w)" and "id_of (v w) t key = None"
  shows "ids_unique (v w')" and "grows {} (v w) (v w')" and "id_of (v w') t key = Some (ob_Id x)"
proof -
  from table_lawD(3) [OF assms(1,2)] have c: "v w' = add_row t key (ob_Id x) (v w)" "ob_Id x \<notin> set (map snd (rows (v w) t))"
    by simp_all
  from assms(4) have "ids_of (v w) t key = []" by (cases "ids_of (v w) t key") (simp_all add: id_of_def)
  with c assms(3) ids_unique_add_row id_of_add_row
  show "ids_unique (v w')" and "grows {} (v w) (v w')" and "id_of (v w') t key = Some (ob_Id x)" by auto
qed

lemma ensure_achieves:
  assumes law: "table_law v t key lookup create"
  shows "achieves v (\<lambda>_. True) {} (\<lambda>i db. id_of db t key = Some i) (ensure lm cm lookup create)"
  unfolding achieves_def
proof (intro allI impI)
  fix w
  assume w: "ids_unique (v w)"
  let ?goal = "\<exists>r w'. ensure lm cm lookup create w = Some (r, w') \<and> ids_unique (v w') \<and> grows {} (v w) (v w') \<and>
      (\<forall>x. r = Inr x \<longrightarrow> id_of (v w') t key = Some x) \<and>
      (\<forall>x. id_of (v w) t key = Some x \<longrightarrow> v w' = v w \<and> (\<forall>y. r = Inr y \<longrightarrow> y = x))"
  show ?goal
  proof (cases "lookup w" rule: call_cases)
    case (err e w1)
    with table_lawD(1) [OF law err] w show ?thesis by (simp add: ensure_def)
  next
    case (ok p w1)
    note v1 = table_lawD(1) [OF law ok] and page = id_of_page [OF table_lawD(2) [OF law ok]]
    show ?thesis
    proof (cases "id_of (v w) t key")
      case (Some i)
      with page obtain x where "index0 (Results p) = Some x" "ob_Id x = i" by auto
      with ok v1 page Some w show ?thesis by (simp add: ensure_def)
    next
      case None
      note unseen = None
      show ?thesis
      proof (cases "create w1" rule: call_cases)
        case create: (err e w2)
        with ok v1 page None w table_lawD(4) [OF law create] show ?thesis by (simp add: ensure_def)
      next
        case create: (ok x w2)
        from created_row [OF law create] w unseen v1 have "ids_unique (v w2)" "grows {} (v w) (v w2)"
          "id_of (v w2) t key = Some (ob_Id x)" by simp_all
        with ok create page unseen show ?thesis by (simp add: ensure_def)
      qed
    qed
  qed
qed

lemma seed_lawsD:
  assumes "seed_laws c v"
  shows "table_law v Tenants (None, nr_Name r1) (TenancyTenantsList c [nr_Name r1]) (TenancyTenantsCreate c r1)"
    and "table_law v Sites (None, nr_Name r2) (DcimSitesList c [nr_Name r2]) (DcimSitesCreate c r2)"
    and "table_law v DeviceRoles (None, nr_Name r3) (DcimDeviceRolesList c [nr_Name r3]) (DcimDeviceRolesCreate c r3)"
    and "table_law v Manufacturers (None, nr_Name r4) (DcimManufacturersList c [nr_Name r4]) (DcimManufacturersCreate c r4)"
    and "table_law v DeviceTypes (None, dt_Model r5) (DcimDeviceTypesList c [dt_Model r5]) (DcimDeviceTypesCreate c r5)"
    and "table_law v Prefix_Table (None, p) (SeedPrefixesList c [p]) (SeedPrefixesCreate c p)"
    and "table_law v Interfaces (Some (xr_Device r7), xr_Name r7)
        (SeedInterfacesList c [xr_Device r7] [xr_Name r7]) (DcimInterfacesCreate c r7)"
    and "table_law v IP_Table (None, ir_Address r8) (SeedIpAddressesList c [ir_Address r8]) (SeedIpAddressesCreate c r8)"
    and "table_law v Devices (None, dr_Name r9) (SeedDevicesList c [dr_Name r9]) (DcimDevicesCreate c r9)"
    and "write_call v (DcimDevicesPatchPrimaryIp4 c i a) (\<lambda>db x db'. db' = db\<lparr>primary := (primary db)(i \<mapsto> a)\<rparr>)"
  using assms unfolding seed_laws_def by blast+

lemma record_steps:
  assumes "seed_laws c v"
  shows "achieves v (\<lambda>_. True) {} (\<lambda>i db. id_of db Tenants (None, tenantName) = Some i) (ensureTenant c)"
    and "achieves v (\<lambda>_. True) {} (\<lambda>i db. id_of db Sites (None, siteName) = Some i) (ensureSite c t)"
    and "achieves v (\<lambda>_. True) {} (\<lambda>i db. id_of db DeviceRoles (None, roleName) = Some i) (ensureDeviceRole c)"
    and "achieves v (\<lambda>_. True) {} (\<lambda>i db. id_of db Manufacturers (None, manufacturerName) = Some i) (ensureManufacturer c)"
    and "achieves v (\<lambda>_. True) {} (\<lambda>i db. id_of db DeviceTypes (None, deviceTypeName) = Some i) (ensureDeviceType c m)"
    and "achieves v (\<lambda>_. True) {} (\<lambda>i db. id_of db Interfaces (Some d, name) = Some i) (ensureInterface c d name ty)"
    and "achieves v (\<lambda>_. True) {} (\<lambda>i db. id_of db IP_Table (None, a) = Some i) (ensureIPAddress c a f)"
    and "achieves v (\<lambda>_. True) {} (\<lambda>i db. id_of db Devices (None, ds_name spec) = Some i) (ensureDevice c spec s ro dt t)"
  unfolding ensureTenant_def ensureSite_def ensureDeviceRole_def ensureManufacturer_def ensureDeviceType_def
    ensureInterface_def ensureIPAddress_def ensureDevice_def
  using ensure_achieves [OF seed_lawsD(1) [OF assms, of "\<lparr>nr_Name = tenantName, nr_Slug = tenantSlug\<rparr>"]]
    ensure_achieves [OF seed_lawsD(2) [OF assms, of "\<lparr>nr_Name = siteName, nr_Slug = siteSlug, sr_Tenant = t\<rparr>"]]
    ensure_achieves [OF seed_lawsD(3) [OF assms, of "\<lparr>nr_Name = roleName, nr_Slug = roleSlug, rr_Color = ''000000''\<rparr>"]]
    ensure_achieves [OF seed_lawsD(4) [OF assms, of "\<lparr>nr_Name = manufacturerName, nr_Slug = manufacturerSlug\<rparr>"]]
    ensure_achieves [OF seed_lawsD(5) [OF assms, of "\<lparr>dt_Manufacturer = m, dt_Model = deviceTypeName, dt_Slug = deviceTypeSlug\<rparr>"]]
    ensure_achieves [OF seed_lawsD(7) [OF assms, of "\<lparr>xr_Device = d, xr_Name = name, xr_Type = ty\<rparr>"]]
    ensure_achieves [OF seed_lawsD(8) [OF assms, of "\<lparr>ir_Address = a, ir_AssignedObjectType = ''dcim.interface'', ir_AssignedObjectId = scast f\<rparr>"]]
    ensure_achieves [OF seed_lawsD(9) [OF assms, of "\<lparr>dr_Name = ds_name spec, dr_DeviceType = dt, dr_Role = ro, dr_Site = s,
        dr_Status = ds_status spec, dr_Tenant = t\<rparr>"]]
  by simp_all

lemma prefix_step:
  assumes "seed_laws c v"
  shows "achieves v (\<lambda>_. True) {} (\<lambda>_ db. id_of db Prefix_Table (None, p) \<noteq> None) (quiet (ensurePrefix c p))"
  unfolding achieves_def
proof (intro allI impI)
  fix w
  assume w: "ids_unique (v w)"
  note law = seed_lawsD(6) [OF assms, of p]
  show "\<exists>r w'. quiet (ensurePrefix c p) w = Some (r, w') \<and> ids_unique (v w') \<and> grows {} (v w) (v w') \<and>
      (\<forall>x. r = Inr x \<longrightarrow> id_of (v w') Prefix_Table (None, p) \<noteq> None) \<and>
      (\<forall>x. id_of (v w) Prefix_Table (None, p) \<noteq> None \<longrightarrow> v w' = v w \<and> (\<forall>y. r = Inr y \<longrightarrow> y = x))"
  proof (cases "SeedPrefixesList c [p] w" rule: call_cases)
    case (err e w1)
    with table_lawD(1) [OF law err] w show ?thesis by (simp add: quiet_def ensurePrefix_def)
  next
    case (ok pg w1)
    note v1 = table_lawD(1) [OF law ok] and page = id_of_page [OF table_lawD(2) [OF law ok]]
    show ?thesis
    proof (cases "SeedPrefixesCreate c p w1" rule: call_cases)
      case create: (err e w2)
      with ok v1 page w table_lawD(4) [OF law create] show ?thesis by (auto simp: quiet_def ensurePrefix_def)
    next
      case create: (ok x w2)
      from created_row [OF law create] w v1 have "id_of (v w) Prefix_Table (None, p) = None \<Longrightarrow>
          ids_unique (v w2) \<and> grows {} (v w) (v w2) \<and> id_of (v w2) Prefix_Table (None, p) = Some (ob_Id x)" by simp
      with ok v1 page w create show ?thesis by (auto simp: quiet_def ensurePrefix_def)
    qed
  qed
qed

lemma primary_step:
  assumes "seed_laws c v"
  shows "achieves v (\<lambda>db. id_of db Devices (None, name) = Some d) {name} (\<lambda>_ db. primary db d = Some a)
    (quiet (ensureDevicePrimaryIP c d a))"
  unfolding achieves_def
proof (intro allI impI)
  fix w
  assume w: "ids_unique (v w)" "id_of (v w) Devices (None, name) = Some d"
  note law = write_callD [OF seed_lawsD(10) [OF assms, of d a]]
  show "\<exists>r w'. quiet (ensureDevicePrimaryIP c d a) w = Some (r, w') \<and> ids_unique (v w') \<and> grows {name} (v w) (v w') \<and>
      (\<forall>x. r = Inr x \<longrightarrow> primary (v w') d = Some a) \<and>
      (\<forall>x. primary (v w) d = Some a \<longrightarrow> v w' = v w \<and> (\<forall>y. r = Inr y \<longrightarrow> y = x))"
  proof (cases "DcimDevicesPatchPrimaryIp4 c d a w" rule: call_cases)
    case (err e w1)
    with law(2) [OF err] w show ?thesis by (simp add: quiet_def ensureDevicePrimaryIP_def)
  next
    case (ok x w1)
    from law(1) [OF ok] have v1: "v w1 = (v w)\<lparr>primary := (primary (v w))(d \<mapsto> a)\<rparr>" .
    then have "id_of (v w1) Devices (None, name) = Some d" using w(2) by (simp add: id_of_def ids_of_def)
    with v1 have "grows {name} (v w) (v w1)" by (auto simp: grows_def)
    moreover have "ids_unique (v w1)" using v1 w(1) by (simp add: ids_unique_def)
    moreover have "v w1 = v w" if "primary (v w) d = Some a" using that v1 by (simp add: map_upd_triv)
    ultimately show ?thesis using ok v1 by (simp add: quiet_def ensureDevicePrimaryIP_def)
  qed
qed

text \<open>What it means that a device, and then the whole test environment, is in NetBox.\<close>

definition network_seeded :: "int32 \<Rightarrow> networkSpec \<Rightarrow> seed_db \<Rightarrow> bool" where
  "network_seeded d n db \<longleftrightarrow> id_of db Interfaces (Some d, ns_ifaceName n) \<noteq> None \<and>
     (ns_ipAddress n \<noteq> [] \<longrightarrow> (\<exists>a. id_of db IP_Table (None, ns_ipAddress n) = Some a \<and> primary db d = Some a))"

definition device_seeded :: "deviceSpec \<Rightarrow> seed_db \<Rightarrow> bool" where
  "device_seeded spec db \<longleftrightarrow> (\<exists>d. id_of db Devices (None, ds_name spec) = Some d \<and>
     (case ds_network spec of None \<Rightarrow> True | Some n \<Rightarrow> network_seeded d n db))"

definition seeded :: "string list \<Rightarrow> deviceSpec list \<Rightarrow> seed_db \<Rightarrow> bool" where
  "seeded prefixes specs db \<longleftrightarrow>
     id_of db Tenants (None, tenantName) \<noteq> None \<and> id_of db Sites (None, siteName) \<noteq> None \<and>
     id_of db DeviceRoles (None, roleName) \<noteq> None \<and> id_of db Manufacturers (None, manufacturerName) \<noteq> None \<and>
     id_of db DeviceTypes (None, deviceTypeName) \<noteq> None \<and>
     (\<forall>p \<in> set prefixes. id_of db Prefix_Table (None, p) \<noteq> None) \<and> (\<forall>spec \<in> set specs. device_seeded spec db)"

lemma stable_True: "stable N (\<lambda>_. True)"
  by (simp add: stable_def)

lemma stable_conj: "stable N P \<Longrightarrow> stable N Q \<Longrightarrow> stable N (\<lambda>db. P db \<and> Q db)"
  by (auto simp: stable_def)

lemma stable_present: "stable N (\<lambda>db. id_of db t key \<noteq> None)"
  by (auto simp: stable_def dest: id_of_grows)

lemma achieves_done: "achieves v I {} (\<lambda>_ _. True) (\<lambda>w. Some (Inr (), w))"
  by (simp add: achieves_def)

text \<open>The address of a device outlives what is done for devices of other names.\<close>

lemma device_ids_apart:
  assumes "ids_unique db" and "id_of db Devices k1 = Some i" and "id_of db Devices k2 = Some i"
  shows "k1 = k2"
proof -
  have row: "(k, i) \<in> set (rows db Devices)" if "id_of db Devices k = Some i" for k
  proof -
    from that have "i \<in> set (ids_of db Devices k)" by (auto simp: id_of_def dest: index0_in_set)
    then show ?thesis by (auto simp: ids_of_def)
  qed
  from assms(1) have "inj_on snd (set (rows db Devices))" by (simp add: ids_unique_def distinct_map)
  from inj_onD [OF this, of "(k1, i)" "(k2, i)"] row [OF assms(2)] row [OF assms(3)] show ?thesis by simp
qed

lemma device_seeded_stable:
  assumes "ds_name spec \<notin> N"
  shows "stable N (device_seeded spec)"
  unfolding stable_def
proof (intro allI impI)
  fix db db'
  assume u: "ids_unique db'" and g: "grows N db db'" and s: "device_seeded spec db"
  then obtain d where d: "id_of db Devices (None, ds_name spec) = Some d"
    "case ds_network spec of None \<Rightarrow> True | Some n \<Rightarrow> network_seeded d n db" by (auto simp: device_seeded_def)
  note d' = id_of_grows [OF g d(1)]
  have "\<forall>n \<in> N. id_of db' Devices (None, n) \<noteq> Some d" using device_ids_apart [OF u d'] assms by blast
  with g have "primary db' d = primary db d" unfolding grows_def by blast
  with d(2) have "case ds_network spec of None \<Rightarrow> True | Some n \<Rightarrow> network_seeded d n db'"
    using id_of_grows [OF g] by (auto simp: network_seeded_def split: option.split)
  with d' show "device_seeded spec db'" by (auto simp: device_seeded_def)
qed

lemma network_achieves:
  assumes "seed_laws c v"
  shows "achieves v (\<lambda>db. id_of db Devices (None, name) = Some d) {name} (\<lambda>_. network_seeded d n) (seed_network c d n)"
proof -
  let ?I = "\<lambda>db. id_of db Devices (None, name) = Some d"
  let ?F = "\<lambda>f db. id_of db Interfaces (Some d, ns_ifaceName n) = Some f"
  let ?A = "\<lambda>a db. id_of db IP_Table (None, ns_ipAddress n) = Some a"
  have iface: "achieves v ?I {} ?F (ensureInterface c d (ns_ifaceName n) (ns_ifaceType n))"
    by (rule achieves_weaken [OF record_steps(6) [OF assms]]) (simp_all add: stable_id)
  show ?thesis
  proof (cases "ns_ipAddress n = []")
    case True
    have "achieves v ?I ({} \<union> {}) (\<lambda>y db. \<exists>f. ?F f db \<and> True) (seed_network c d n)"
      unfolding seed_network_def if_P [OF True]
      by (rule achieves_or_exit [OF iface achieves_done]) (simp_all add: stable_id)
    with True show ?thesis by (elim achieves_weaken) (auto simp: network_seeded_def stable_id)
  next
    case False
    have addr: "achieves v (\<lambda>db. ?I db \<and> ?F f db) {} ?A (ensureIPAddress c (ns_ipAddress n) f)" for f
      by (rule achieves_weaken [OF record_steps(7) [OF assms]]) (simp_all add: stable_id stable_conj)
    have prim: "achieves v (\<lambda>db. (?I db \<and> ?F f db) \<and> ?A a db) {name} (\<lambda>_ db. primary db d = Some a)
        (quiet (ensureDevicePrimaryIP c d a))" for f a
      by (rule achieves_weaken [OF primary_step [OF assms]]) (simp_all add: stable_id stable_conj)
    have inner: "achieves v (\<lambda>db. ?I db \<and> ?F f db) ({} \<union> {name}) (\<lambda>y db. \<exists>a. ?A a db \<and> primary db d = Some a)
        (or_exit (ensureIPAddress c (ns_ipAddress n) f) (\<lambda>ipID. quiet (ensureDevicePrimaryIP c d ipID)))" for f
      by (rule achieves_or_exit [OF addr prim]) (simp_all add: stable_id stable_conj)
    have "achieves v ?I ({} \<union> ({} \<union> {name})) (\<lambda>y db. \<exists>f. ?F f db \<and> (\<exists>a. ?A a db \<and> primary db d = Some a)) (seed_network c d n)"
      unfolding seed_network_def if_not_P [OF False]
      by (rule achieves_or_exit [OF iface inner]) (simp_all add: stable_id)
    with False show ?thesis by (elim achieves_weaken) (auto simp: network_seeded_def stable_id)
  qed
qed

lemma device_achieves:
  assumes "seed_laws c v"
  shows "achieves v (\<lambda>_. True) {ds_name spec} (\<lambda>_. device_seeded spec) (seed_device c s ro dt t spec)"
proof -
  let ?D = "\<lambda>d db. id_of db Devices (None, ds_name spec) = Some d"
  let ?N = "\<lambda>d db. case ds_network spec of None \<Rightarrow> True | Some n \<Rightarrow> network_seeded d n db"
  have "achieves v (\<lambda>db. True \<and> ?D d db) {ds_name spec} (\<lambda>_. ?N d)
      (case ds_network spec of None \<Rightarrow> (\<lambda>w. Some (Inr (), w)) | Some n \<Rightarrow> seed_network c d n)" for d
  proof (cases "ds_network spec")
    case None
    then show ?thesis by (auto intro: achieves_weaken [OF achieves_done] simp: stable_id)
  next
    case (Some n)
    then show ?thesis by (auto intro: achieves_weaken [OF network_achieves [OF assms]] simp: stable_id)
  qed
  from achieves_or_exit [OF record_steps(8) [OF assms] this stable_True]
  have "achieves v (\<lambda>_. True) ({} \<union> {ds_name spec}) (\<lambda>y db. \<exists>d. ?D d db \<and> ?N d db) (seed_device c s ro dt t spec)"
    unfolding seed_device_def by (simp add: stable_id)
  then show ?thesis by (elim achieves_weaken) (simp_all add: device_seeded_def stable_True)
qed

lemma devices_achieve:
  assumes "seed_laws c v" and "distinct (map ds_name specs)"
  shows "achieves v (\<lambda>_. True) (ds_name ` set specs) (\<lambda>_ db. \<forall>spec \<in> set specs. device_seeded spec db)
    (seed_devices c s ro dt t specs)"
  using assms(2)
proof (induction specs)
  case Nil
  then show ?case by (auto simp: achieves_def)
next
  case (Cons spec specs)
  have "achieves v (\<lambda>db. True \<and> device_seeded spec db) (ds_name ` set specs) (\<lambda>_ db. \<forall>spec \<in> set specs. device_seeded spec db)
      (seed_devices c s ro dt t specs)"
    using Cons by (auto intro!: achieves_weaken [OF Cons.IH] device_seeded_stable)
  from achieves_or_exit [OF device_achieves [OF assms(1)] this stable_True device_seeded_stable] Cons.prems
  have "achieves v (\<lambda>_. True) ({ds_name spec} \<union> ds_name ` set specs)
      (\<lambda>y db. \<exists>u::unit. device_seeded spec db \<and> (\<forall>spec \<in> set specs. device_seeded spec db))
      (or_exit (seed_device c s ro dt t spec) (\<lambda>_. seed_devices c s ro dt t specs))" by auto
  moreover have "seed_devices c s ro dt t (spec # specs) = or_exit (seed_device c s ro dt t spec) (\<lambda>_. seed_devices c s ro dt t specs)"
    by (simp add: fun_eq_iff)
  ultimately show ?case by (auto elim!: achieves_weaken simp: stable_True)
qed

lemma stable_all: "(\<And>x. x \<in> A \<Longrightarrow> stable N (P x)) \<Longrightarrow> stable N (\<lambda>db. \<forall>x \<in> A. P x db)"
  unfolding stable_def by blast

lemma prefixes_achieve:
  assumes "seed_laws c v"
  shows "achieves v (\<lambda>_. True) {} (\<lambda>_ db. \<forall>p \<in> set prefixes. id_of db Prefix_Table (None, p) \<noteq> None) (seed_prefixes c prefixes)"
proof (induction prefixes)
  case Nil
  then show ?case by (auto simp: achieves_def)
next
  case (Cons p ps)
  have "achieves v (\<lambda>db. True \<and> id_of db Prefix_Table (None, p) \<noteq> None) {}
      (\<lambda>_ db. \<forall>p \<in> set ps. id_of db Prefix_Table (None, p) \<noteq> None) (seed_prefixes c ps)"
    using stable_present by (intro achieves_weaken [OF Cons.IH] stable_conj stable_True) auto
  from achieves_or_exit [OF prefix_step [OF assms] this stable_True stable_present]
  have "achieves v (\<lambda>_. True) ({} \<union> {}) (\<lambda>y db. \<exists>u::unit. id_of db Prefix_Table (None, p) \<noteq> None \<and>
      (\<forall>p \<in> set ps. id_of db Prefix_Table (None, p) \<noteq> None)) (or_exit (quiet (ensurePrefix c p)) (\<lambda>_. seed_prefixes c ps))" .
  moreover have "seed_prefixes c (p # ps) = or_exit (quiet (ensurePrefix c p)) (\<lambda>_. seed_prefixes c ps)"
    by (simp add: fun_eq_iff)
  ultimately show ?case by (auto elim!: achieves_weaken simp: stable_True)
qed

text \<open>A step, then steps that need nothing of it.\<close>

lemma achieves_then:
  assumes "achieves v (\<lambda>_. True) N P step" and "\<And>x. achieves v (\<lambda>_. True) M Q (rest x)" and "\<And>x. stable M (P x)" and "\<And>x. stable N (P x)"
  shows "achieves v (\<lambda>_. True) (N \<union> M) (\<lambda>y db. (\<exists>x. P x db) \<and> Q y db) (or_exit step rest)"
proof -
  have "achieves v (\<lambda>db. True \<and> P x db) M Q (rest x)" for x
    by (rule achieves_weaken [OF assms(2)]) (simp_all add: assms(3))
  from achieves_or_exit [OF assms(1) this stable_True assms(3)] show ?thesis by (simp add: ex_simps)
qed

lemma seed_all_achieves:
  assumes "seed_laws c v" and "distinct (map ds_name specs)"
  shows "achieves v (\<lambda>_. True) (ds_name ` set specs) (\<lambda>_. seeded prefixes specs) (seed_all c prefixes specs)"
proof -
  let ?ids = "\<lambda>t key db. \<exists>i. id_of db t key = Some i"
  note steps = record_steps [OF assms(1)] and st = stable_id
  have "achieves v (\<lambda>_. True) ({} \<union> ({} \<union> ({} \<union> ({} \<union> ({} \<union> ({} \<union> ds_name ` set specs))))))
      (\<lambda>y db. ?ids Tenants (None, tenantName) db \<and> ?ids Sites (None, siteName) db \<and> ?ids DeviceRoles (None, roleName) db \<and>
         ?ids Manufacturers (None, manufacturerName) db \<and> ?ids DeviceTypes (None, deviceTypeName) db \<and>
         (\<exists>u::unit. \<forall>p \<in> set prefixes. id_of db Prefix_Table (None, p) \<noteq> None) \<and> (\<forall>spec \<in> set specs. device_seeded spec db))
      (seed_all c prefixes specs)"
    unfolding seed_all_def
    by (intro achieves_then steps prefixes_achieve [OF assms(1)] devices_achieve [OF assms] stable_id stable_all stable_present)
  then show ?thesis by (elim achieves_weaken) (simp_all add: seeded_def stable_True)
qed

lemma devicesToSeed_names: "distinct (map ds_name devicesToSeed)"
  by (simp add: devicesToSeed_def seed_spec_def)

section \<open>A NetBox in memory\<close>

definition mem_lookup :: "resource \<Rightarrow> seed_key \<Rightarrow> (seed_db, identified page) call" where
  "mem_lookup t key db = (Inr \<lparr>Count = int (length (ids_of db t key)), Results = map (\<lambda>i. \<lparr>ob_Id = i\<rparr>) (ids_of db t key)\<rparr>, db)"

definition mem_insert :: "resource \<Rightarrow> seed_key \<Rightarrow> (seed_db, identified) call" where
  "mem_insert t key db =
     (let i = word_of_int (int (length (rows db t)) + 1) in
      if i \<in> set (map snd (rows db t)) then (Inl (Errorf ''id taken''), db)
      else (Inr \<lparr>ob_Id = i\<rparr>, add_row t key i db))"

definition seed_memory :: "seed_db seed_client" where
  "seed_memory =
     \<lparr>TenancyTenantsList = \<lambda>ns. mem_lookup Tenants (None, hd ns), TenancyTenantsCreate = \<lambda>r. mem_insert Tenants (None, nr_Name r),
      DcimSitesList = \<lambda>ns. mem_lookup Sites (None, hd ns), DcimSitesCreate = \<lambda>r. mem_insert Sites (None, nr_Name r),
      DcimDeviceRolesList = \<lambda>ns. mem_lookup DeviceRoles (None, hd ns),
      DcimDeviceRolesCreate = \<lambda>r. mem_insert DeviceRoles (None, nr_Name r),
      DcimManufacturersList = \<lambda>ns. mem_lookup Manufacturers (None, hd ns),
      DcimManufacturersCreate = \<lambda>r. mem_insert Manufacturers (None, nr_Name r),
      DcimDeviceTypesList = \<lambda>ns. mem_lookup DeviceTypes (None, hd ns),
      DcimDeviceTypesCreate = \<lambda>r. mem_insert DeviceTypes (None, dt_Model r),
      SeedPrefixesList = \<lambda>ns. mem_lookup Prefix_Table (None, hd ns), SeedPrefixesCreate = \<lambda>p. mem_insert Prefix_Table (None, p),
      SeedInterfacesList = \<lambda>ds ns. mem_lookup Interfaces (Some (hd ds), hd ns),
      DcimInterfacesCreate = \<lambda>r. mem_insert Interfaces (Some (xr_Device r), xr_Name r),
      SeedIpAddressesList = \<lambda>ns. mem_lookup IP_Table (None, hd ns), SeedIpAddressesCreate = \<lambda>r. mem_insert IP_Table (None, ir_Address r),
      SeedDevicesList = \<lambda>ns. mem_lookup Devices (None, hd ns), DcimDevicesCreate = \<lambda>r. mem_insert Devices (None, dr_Name r),
      DcimDevicesPatchPrimaryIp4 = \<lambda>i a db. (Inr \<lparr>ob_Id = i\<rparr>, db\<lparr>primary := (primary db)(i \<mapsto> a)\<rparr>)\<rparr>"

definition no_records :: seed_db where
  "no_records = \<lparr>rows = \<lambda>t. [], primary = \<lambda>i. None\<rparr>"

definition seed_env :: string_map where
  "seed_env = [(''NETBOX_ENDPOINT'', ''https://netbox''), (''NETBOX_TOKEN'', ''token'')]"

lemma mem_table_law: "table_law id t key (mem_lookup t key) (mem_insert t key)"
proof -
  have "page_of \<lparr>Count = int (length xs), Results = map f xs\<rparr> (map f xs)" for f :: "int32 \<Rightarrow> identified" and xs
    by (auto simp: page_of_def intro: exI [of _ "Suc (length xs)"])
  then show ?thesis
    by (auto simp: table_law_def pure_call_def write_call_def mem_lookup_def mem_insert_def Let_def)
qed

lemma mem_seed_laws: "seed_laws seed_memory id"
  by (simp add: seed_laws_def seed_memory_def mem_table_law) (simp add: write_call_def)

section \<open>Properties\<close>

text \<open>
  C14. Seeding does not panic, only adds records and can be repeated. With exit code 0 the whole test
  environment is in NetBox: tenant, site, role, manufacturer, device type, prefixes, and every
  device with its interface and, if it has one, its address as the primary one. A run on a NetBox
  where this environment is in place changes nothing, whatever its exit code, so that a second run
  after a successful one changes nothing.
\<close>
theorem seed_netbox_converges:
  assumes "seed_laws (mk (mget env ''NETBOX_ENDPOINT'') (mget env ''NETBOX_TOKEN'')) v"
    and "mget env ''NETBOX_ENDPOINT'' \<noteq> []" and "mget env ''NETBOX_TOKEN'' \<noteq> []" and "ids_unique (v w)"
  shows "\<exists>code w'. seed_netbox_main mk env w = Some (code, w') \<and>
    (\<forall>t. \<exists>new. rows (v w') t = rows (v w) t @ new) \<and>
    (code = 0 \<longrightarrow> seeded prefixesToSeed devicesToSeed (v w')) \<and>
    (seeded prefixesToSeed devicesToSeed (v w) \<longrightarrow> v w' = v w) \<and>
    (code = 0 \<longrightarrow> (\<forall>w2. v w2 = v w' \<longrightarrow> (\<exists>code2 w3. seed_netbox_main mk env w2 = Some (code2, w3) \<and> v w3 = v w')))"
proof -
  have run: "\<exists>code w'. seed_netbox_main mk env w = Some (code, w') \<and> ids_unique (v w') \<and> grows (ds_name ` set devicesToSeed) (v w) (v w') \<and>
      (code = 0 \<longrightarrow> seeded prefixesToSeed devicesToSeed (v w')) \<and> (seeded prefixesToSeed devicesToSeed (v w) \<longrightarrow> v w' = v w)"
    if "ids_unique (v w)" for w
  proof -
    from seed_all_achieves [OF assms(1) devicesToSeed_names, of prefixesToSeed] that obtain r w' where
      "seed_all (mk (mget env ''NETBOX_ENDPOINT'') (mget env ''NETBOX_TOKEN'')) prefixesToSeed devicesToSeed w = Some (r, w')"
      "ids_unique (v w')" "grows (ds_name ` set devicesToSeed) (v w) (v w')"
      "\<forall>x. r = Inr x \<longrightarrow> seeded prefixesToSeed devicesToSeed (v w')" "seeded prefixesToSeed devicesToSeed (v w) \<longrightarrow> v w' = v w"
      unfolding achieves_def by blast
    with assms(2,3) show ?thesis by (cases r) (auto simp: seed_netbox_main_def Let_def)
  qed
  from run [OF assms(4)] obtain code w' where r1: "seed_netbox_main mk env w = Some (code, w')" "ids_unique (v w')"
    "grows (ds_name ` set devicesToSeed) (v w) (v w')" "code = 0 \<longrightarrow> seeded prefixesToSeed devicesToSeed (v w')"
    "seeded prefixesToSeed devicesToSeed (v w) \<longrightarrow> v w' = v w" by blast
  from r1(3) have "\<forall>t. \<exists>new. rows (v w') t = rows (v w) t @ new" unfolding grows_def by blast
  moreover have "\<exists>code2 w3. seed_netbox_main mk env w2 = Some (code2, w3) \<and> v w3 = v w'" if "code = 0" "v w2 = v w'" for w2
    using run [of w2] r1(2,4) that by auto
  ultimately show ?thesis using r1 by blast
qed

theorem seed_netbox_converges_witness:
  "\<exists>code db'. seed_netbox_main (\<lambda>ep tok. seed_memory) seed_env no_records = Some (code, db') \<and> code = 0 \<and>
     seeded prefixesToSeed devicesToSeed db' \<and>
     (\<exists>code2. seed_netbox_main (\<lambda>ep tok. seed_memory) seed_env db' = Some (code2, db'))"
proof -
  have env: "mget seed_env ''NETBOX_ENDPOINT'' \<noteq> []" "mget seed_env ''NETBOX_TOKEN'' \<noteq> []" by (simp_all add: seed_env_def)
  have u: "ids_unique (id no_records)" by (simp add: ids_unique_def no_records_def)
  have "map_option fst (seed_netbox_main (\<lambda>ep tok. seed_memory) seed_env no_records) = Some 0" by code_simp
  with seed_netbox_converges [OF mem_seed_laws env u] show ?thesis by fastforce
qed

end
