(* ===== verification/Seed_Authentik.thy ===== *)
theory Seed_Authentik
  imports Seed_NetBox
begin

text \<open>
  The tool that makes the accounts of the two controllers (\<open>tooling/seed-authentik/main.go\<close>): a
  service account and a group in Authentik, a user with its permissions and an API token in NetBox.
  The two clients, the random source, the reading of the certificate bundle and the parsing of
  URLs are parameters. The result of a run is the map of tokens that it prints, \<open>None\<close> for exit
  code 1.
\<close>

section \<open>Data\<close>

definition netboxUpdaterUser :: string where
  "netboxUpdaterUser = ''machinecfg-netbox-updater''"

definition netboxUpdaterGroup :: string where
  "netboxUpdaterGroup = ''machinecfg-netbox-updater''"

definition k8sUpdaterUser :: string where
  "k8sUpdaterUser = ''machinecfg-kubernetes-updater''"

definition k8sUpdaterGroup :: string where
  "k8sUpdaterGroup = ''machinecfg-kubernetes-updater''"

record permissionSpec =
  ps_name :: string
  ps_objectTypes :: "string list"
  ps_actions :: "string list"

record controllerSpec =
  cs_username :: string
  cs_group :: string
  cs_perms :: "permissionSpec list"

definition controllers :: "controllerSpec list" where
  "controllers =
     [\<lparr>cs_username = netboxUpdaterUser, cs_group = netboxUpdaterGroup, cs_perms =
         [\<lparr>ps_name = ''machinecfg-netbox-updater-device'', ps_objectTypes = [''dcim.device''],
           ps_actions = [''view'', ''change'']\<rparr>,
          \<lparr>ps_name = ''machinecfg-netbox-updater-ipam'',
           ps_objectTypes = [''ipam.ipaddress'', ''ipam.fhrpgroup'', ''ipam.fhrpgroupassignment''],
           ps_actions = [''view'', ''add'', ''change'', ''delete'']\<rparr>]\<rparr>,
      \<lparr>cs_username = k8sUpdaterUser, cs_group = k8sUpdaterGroup, cs_perms =
         [\<lparr>ps_name = ''machinecfg-kubernetes-updater-read'',
           ps_objectTypes = [''dcim.device'', ''ipam.ipaddress'', ''dcim.interface''],
           ps_actions = [''view'']\<rparr>]\<rparr>]"

section \<open>Clients\<close>

text \<open>Authentik answers lists without a count; of users and groups only the primary key is read.\<close>

record user_request =
  ur_Username :: string
  ur_Name :: string
  ur_Type :: string

record 'w authentik_client =
  CoreUsersList :: "string \<Rightarrow> ('w, int32 list) call"
  CoreUsersCreate :: "user_request \<Rightarrow> ('w, int32) call"
  CoreGroupsListByName :: "string \<Rightarrow> ('w, string list) call"
  CoreGroupsListByMembers :: "int32 list \<Rightarrow> ('w, string list) call"
  CoreGroupsCreate :: "string \<Rightarrow> ('w, string) call"
  CoreGroupsAddUserCreate :: "string \<Rightarrow> int32 \<Rightarrow> ('w, unit) call"

record permission_request =
  pm_Name :: string
  pm_ObjectTypes :: "string list"
  pm_Actions :: "string list"
  pm_Users :: "int32 list"

record 'w users_client =
  UsersUsersList :: "string list \<Rightarrow> ('w, identified page) call"
  UsersUsersCreate :: "string \<Rightarrow> string \<Rightarrow> ('w, identified) call"
  UsersPermissionsList :: "string list \<Rightarrow> ('w, identified page) call"
  UsersPermissionsCreate :: "permission_request \<Rightarrow> ('w, identified) call"
  UsersTokensList :: "string list \<Rightarrow> ('w, identified page) call"
  UsersTokensCreate :: "int32 \<Rightarrow> string \<Rightarrow> ('w, identified) call"

text \<open>The system: random bytes, files, certificates and URLs (host and scheme).\<close>

record 'w system =
  rand_Read :: "nat \<Rightarrow> ('w, 8 word list) call"
  ReadFile :: "string \<Rightarrow> 8 word list result"
  AppendCertsFromPEM :: "8 word list \<Rightarrow> bool"
  url_Parse :: "string \<Rightarrow> (string \<times> string) result"

section \<open>Random texts\<close>

definition hex_digit :: "8 word \<Rightarrow> char" where
  "hex_digit d = ''0123456789abcdef'' ! (unat d mod 16)"

definition hex_EncodeToString :: "8 word list \<Rightarrow> string" where
  "hex_EncodeToString bs = concat (map (\<lambda>b. [hex_digit (drop_bit 4 b), hex_digit (and b 15)]) bs)"

definition randomHex :: "'w system \<Rightarrow> nat \<Rightarrow> ('w, string) call" where
  "randomHex sys n w =
     (case rand_Read sys n w of
        (Inl err, w) \<Rightarrow> (Inl err, w)
      | (Inr b, w) \<Rightarrow> (Inr (hex_EncodeToString b), w))"

section \<open>Authentik\<close>

definition ensureAuthentikServiceAccount :: "'w authentik_client \<Rightarrow> string \<Rightarrow> ('w, int32) call" where
  "ensureAuthentikServiceAccount ak username w =
     (case CoreUsersList ak username w of
        (Inl err, w) \<Rightarrow> (Inl (Wrapf ''list users: '' err), w)
      | (Inr (pk # _), w) \<Rightarrow> (Inr pk, w)
      | (Inr [], w) \<Rightarrow>
          (case CoreUsersCreate ak \<lparr>ur_Username = username, ur_Name = username, ur_Type = ''service_account''\<rparr> w of
             (Inl err, w) \<Rightarrow> (Inl (Wrapf (''create service account '' @ username @ '': '') err), w)
           | (Inr pk, w) \<Rightarrow> (Inr pk, w)))"

definition ensureAuthentikGroup :: "'w authentik_client \<Rightarrow> string \<Rightarrow> ('w, string) call" where
  "ensureAuthentikGroup ak name w =
     (case CoreGroupsListByName ak name w of
        (Inl err, w) \<Rightarrow> (Inl (Wrapf ''list groups: '' err), w)
      | (Inr (pk # _), w) \<Rightarrow> (Inr pk, w)
      | (Inr [], w) \<Rightarrow>
          (case CoreGroupsCreate ak name w of
             (Inl err, w) \<Rightarrow> (Inl (Wrapf (''create group '' @ name @ '': '') err), w)
           | (Inr pk, w) \<Rightarrow> (Inr pk, w)))"

definition ensureAuthentikUserInGroup :: "'w authentik_client \<Rightarrow> string \<Rightarrow> int32 \<Rightarrow> ('w, unit) call" where
  "ensureAuthentikUserInGroup ak groupUUID userID w =
     (case CoreGroupsListByMembers ak [userID] w of
        (Inl err, w) \<Rightarrow> (Inl (Wrapf (''list groups for user '' @ Itoa32 userID @ '': '') err), w)
      | (Inr groups, w) \<Rightarrow>
          if groupUUID \<in> set groups then (Inr (), w)
          else (case CoreGroupsAddUserCreate ak groupUUID userID w of
                  (Inl err, w) \<Rightarrow>
                    (Inl (Wrapf (''add user '' @ Itoa32 userID @ '' to group '' @ groupUUID @ '': '') err), w)
                | (Inr u, w) \<Rightarrow> (Inr (), w)))"

section \<open>NetBox\<close>

definition ensureNetboxUser :: "'w system \<Rightarrow> 'w users_client \<Rightarrow> string \<Rightarrow> ('w, int32 result) go" where
  "ensureNetboxUser sys nb username w =
     (case UsersUsersList nb [username] w of
        (Inl err, w) \<Rightarrow> Some (Inl (Wrapf ''list users: '' err), w)
      | (Inr result, w) \<Rightarrow>
          if Count result > 0 then do {
            u \<leftarrow> index0 (Results result);
            Some (Inr (ob_Id u), w)
          }
          else
            (case randomHex sys 16 w of
               (Inl err, w) \<Rightarrow> Some (Inl (Wrapf ''generate password: '' err), w)
             | (Inr password, w) \<Rightarrow>
                 (case UsersUsersCreate nb username password w of
                    (Inl err, w) \<Rightarrow> Some (Inl (Wrapf (''create user '' @ username @ '': '') err), w)
                  | (Inr created, w) \<Rightarrow> Some (Inr (ob_Id created), w))))"

definition ensureNetboxPermission :: "'w users_client \<Rightarrow> int32 \<Rightarrow> permissionSpec \<Rightarrow> ('w, unit) call" where
  "ensureNetboxPermission nb userID spec w =
     (case UsersPermissionsList nb [ps_name spec] w of
        (Inl err, w) \<Rightarrow> (Inl (Wrapf ''list permissions: '' err), w)
      | (Inr result, w) \<Rightarrow>
          if Count result > 0 then (Inr (), w)
          else (case UsersPermissionsCreate nb \<lparr>pm_Name = ps_name spec, pm_ObjectTypes = ps_objectTypes spec,
                       pm_Actions = ps_actions spec, pm_Users = [userID]\<rparr> w of
                  (Inl err, w) \<Rightarrow> (Inl (Wrapf (''create permission '' @ ps_name spec @ '': '') err), w)
                | (Inr created, w) \<Rightarrow> (Inr (), w)))"

definition existing_token :: string where
  "existing_token = ''<existing-token-key-not-retrievable>''"

definition ensureNetboxToken :: "'w system \<Rightarrow> 'w users_client \<Rightarrow> int32 \<Rightarrow> string \<Rightarrow> ('w, string) call" where
  "ensureNetboxToken sys nb userID username w =
     (case UsersTokensList nb [username] w of
        (Inl err, w) \<Rightarrow> (Inl (Wrapf ''list tokens: '' err), w)
      | (Inr result, w) \<Rightarrow>
          if Count result > 0 then (Inr existing_token, w)
          else
            (case randomHex sys 20 w of
               (Inl err, w) \<Rightarrow> (Inl (Wrapf ''generate token key: '' err), w)
             | (Inr key, w) \<Rightarrow>
                 (case UsersTokensCreate nb userID key w of
                    (Inl err, w) \<Rightarrow> (Inl (Wrapf (''create token for user '' @ username @ '': '') err), w)
                  | (Inr created, w) \<Rightarrow> (Inr key, w))))"

section \<open>The run\<close>

fun ensure_permissions :: "'w users_client \<Rightarrow> int32 \<Rightarrow> permissionSpec list \<Rightarrow> ('w, unit result) go" where
  "ensure_permissions nb userID [] w = Some (Inr (), w)"
| "ensure_permissions nb userID (perm # perms) w =
     or_exit (quiet (ensureNetboxPermission nb userID perm)) (\<lambda>_. ensure_permissions nb userID perms) w"

definition seed_controller ::
  "'w system \<Rightarrow> 'w authentik_client \<Rightarrow> 'w users_client \<Rightarrow> controllerSpec \<Rightarrow> ('w, string result) go" where
  "seed_controller sys ak nb ctrl =
     or_exit (quiet (ensureAuthentikServiceAccount ak (cs_username ctrl))) (\<lambda>akUserID.
     or_exit (quiet (ensureAuthentikGroup ak (cs_group ctrl))) (\<lambda>akGroupUUID.
     or_exit (quiet (ensureAuthentikUserInGroup ak akGroupUUID akUserID)) (\<lambda>_.
     or_exit (ensureNetboxUser sys nb (cs_username ctrl)) (\<lambda>nbUserID.
     or_exit (ensure_permissions nb nbUserID (cs_perms ctrl)) (\<lambda>_.
       quiet (ensureNetboxToken sys nb nbUserID (cs_username ctrl)))))))"

fun seed_controllers ::
  "'w system \<Rightarrow> 'w authentik_client \<Rightarrow> 'w users_client \<Rightarrow> controllerSpec list \<Rightarrow> string_map \<Rightarrow> ('w, string_map result) go" where
  "seed_controllers sys ak nb [] tokens w = Some (Inr tokens, w)"
| "seed_controllers sys ak nb (ctrl # ctrls) tokens w =
     or_exit (seed_controller sys ak nb ctrl)
       (\<lambda>token. seed_controllers sys ak nb ctrls (AList.update (cs_username ctrl) token tokens)) w"

text \<open>
  The HTTP client is determined by the certificates it trusts, \<open>None\<close> for those of the system.
\<close>

definition buildHTTPClient :: "'w system \<Rightarrow> string \<Rightarrow> 8 word list option result" where
  "buildHTTPClient sys caBundle =
     (if caBundle = [] then Inr None
      else (case ReadFile sys caBundle of
              Inl err \<Rightarrow> Inl (Wrapf (''read CA bundle '' @ caBundle @ '': '') err)
            | Inr pem \<Rightarrow>
                if \<not> AppendCertsFromPEM sys pem then Inl (Errorf (''no valid certificates found in '' @ caBundle))
                else Inr (Some pem)))"

text \<open>
  A client is made from the scheme, the host, the authorization header and the HTTP client. An
  endpoint of Authentik that is not a URL is fatal; that of NetBox makes a nil URL be read.
\<close>

definition newAuthentikClient ::
  "'w system \<Rightarrow> (string \<Rightarrow> string \<Rightarrow> string \<Rightarrow> 8 word list option \<Rightarrow> 'a) \<Rightarrow> string \<Rightarrow> string \<Rightarrow> 8 word list option \<Rightarrow> 'a option" where
  "newAuthentikClient sys NewAPIClient endpoint token httpClient =
     (case url_Parse sys endpoint of
        Inl err \<Rightarrow> None
      | Inr (host, scheme) \<Rightarrow> Some (NewAPIClient scheme host (''Bearer '' @ token) httpClient))"

definition seed_authentik_main ::
  "'w system \<Rightarrow> (string \<Rightarrow> string \<Rightarrow> string \<Rightarrow> 8 word list option \<Rightarrow> 'w authentik_client) \<Rightarrow>
   (string \<Rightarrow> string \<Rightarrow> string \<Rightarrow> 8 word list option \<Rightarrow> 'w users_client) \<Rightarrow> string_map \<Rightarrow> ('w, string_map option) go" where
  "seed_authentik_main sys NewAuthentik NewNetBox env w =
     (let akEndpoint = mget env ''AUTHENTIK_ENDPOINT''; akToken = mget env ''AUTHENTIK_TOKEN'';
          nbEndpoint = mget env ''NETBOX_ENDPOINT''; nbToken = mget env ''NETBOX_TOKEN''
      in if akEndpoint = [] \<or> akToken = [] \<or> nbEndpoint = [] \<or> nbToken = [] then Some (None, w)
         else case buildHTTPClient sys (mget env ''CA_BUNDLE'') of
             Inl err \<Rightarrow> Some (None, w)
           | Inr httpClient \<Rightarrow>
               (case newAuthentikClient sys NewAuthentik akEndpoint akToken httpClient of
                  None \<Rightarrow> Some (None, w)
                | Some akClient \<Rightarrow>
                    (case url_Parse sys nbEndpoint of
                       Inl err \<Rightarrow> None
                     | Inr (host, scheme) \<Rightarrow> do {
                         (r, w) \<leftarrow> seed_controllers sys akClient
                           (NewNetBox scheme host (''Token '' @ nbToken) httpClient) controllers [] w;
                         Some (case r of Inl err \<Rightarrow> None | Inr tokens \<Rightarrow> Some tokens, w)
                       })))"

section \<open>Facts\<close>

lemma hex_EncodeToString_shape:
  "length (hex_EncodeToString bs) = 2 * length bs \<and> set (hex_EncodeToString bs) \<subseteq> set ''0123456789abcdef''"
proof (induction bs)
  case Nil
  then show ?case by (simp add: hex_EncodeToString_def)
next
  case (Cons b bs)
  have "hex_digit d \<in> set ''0123456789abcdef''" for d
    unfolding hex_digit_def by (rule nth_mem) simp
  with Cons show ?case by (simp add: hex_EncodeToString_def)
qed

text \<open>
  What the theorems rely on. \<open>known w\<close> are the token keys that NetBox accepts in a world: no call
  of the tool withdraws one, and the creation of a token makes its key known. The random source
  fills the whole buffer, and a page that counts a user shows one.
\<close>

definition keeps :: "('w \<Rightarrow> string set) \<Rightarrow> ('w, 'a) call \<Rightarrow> bool" where
  "keeps known f \<longleftrightarrow> (\<forall>w. known w \<subseteq> known (snd (f w)))"

definition tokens_kept :: "'w system \<Rightarrow> 'w authentik_client \<Rightarrow> 'w users_client \<Rightarrow> ('w \<Rightarrow> string set) \<Rightarrow> bool" where
  "tokens_kept sys ak nb known \<longleftrightarrow>
     (\<forall>n. keeps known (rand_Read sys n)) \<and> (\<forall>u. keeps known (CoreUsersList ak u)) \<and>
     (\<forall>r. keeps known (CoreUsersCreate ak r)) \<and> (\<forall>g. keeps known (CoreGroupsListByName ak g)) \<and>
     (\<forall>m. keeps known (CoreGroupsListByMembers ak m)) \<and> (\<forall>g. keeps known (CoreGroupsCreate ak g)) \<and>
     (\<forall>g u. keeps known (CoreGroupsAddUserCreate ak g u)) \<and> (\<forall>u. keeps known (UsersUsersList nb u)) \<and>
     (\<forall>u p. keeps known (UsersUsersCreate nb u p)) \<and> (\<forall>n. keeps known (UsersPermissionsList nb n)) \<and>
     (\<forall>r. keeps known (UsersPermissionsCreate nb r)) \<and> (\<forall>u. keeps known (UsersTokensList nb u)) \<and>
     (\<forall>u key. keeps known (UsersTokensCreate nb u key))"

definition account_laws :: "'w system \<Rightarrow> 'w authentik_client \<Rightarrow> 'w users_client \<Rightarrow> ('w \<Rightarrow> string set) \<Rightarrow> bool" where
  "account_laws sys ak nb known \<longleftrightarrow> tokens_kept sys ak nb known \<and>
     (\<forall>u key w x w'. UsersTokensCreate nb u key w = (Inr x, w') \<longrightarrow> key \<in> known w') \<and>
     (\<forall>n w b w'. rand_Read sys n w = (Inr b, w') \<longrightarrow> length b = n) \<and>
     (\<forall>u w p w'. UsersUsersList nb u w = (Inr p, w') \<longrightarrow> Count p > 0 \<longrightarrow> Results p \<noteq> [])"

lemma keepsD: "keeps known f \<Longrightarrow> f w = (r, w') \<Longrightarrow> known w \<subseteq> known w'"
  by (metis keeps_def snd_conv)

text \<open>A step that ends without a panic, withdraws no token and whose answer satisfies \<open>P\<close>.\<close>

definition yields :: "('w \<Rightarrow> string set) \<Rightarrow> ('a \<Rightarrow> string set \<Rightarrow> bool) \<Rightarrow> ('w, 'a result) go \<Rightarrow> bool" where
  "yields known P step \<longleftrightarrow>
     (\<forall>w. \<exists>r w'. step w = Some (r, w') \<and> known w \<subseteq> known w' \<and> (\<forall>x. r = Inr x \<longrightarrow> P x (known w')))"

lemma yieldsI:
  assumes "\<And>w. \<exists>r w'. step w = Some (r, w')"
    and "\<And>w r w'. step w = Some (r, w') \<Longrightarrow> known w \<subseteq> known w'"
    and "\<And>w x w'. step w = Some (Inr x, w') \<Longrightarrow> P x (known w')"
  shows "yields known P step"
  unfolding yields_def using assms by blast

lemma yields_quiet: "keeps known f \<Longrightarrow> yields known (\<lambda>_ _. True) (quiet f)"
  unfolding yields_def quiet_def by (metis keepsD surj_pair)

lemma yields_or_exit:
  assumes "yields known P step" and "\<And>x. yields known Q (rest x)"
  shows "yields known Q (or_exit step rest)"
  unfolding yields_def
proof
  fix w
  from assms(1) obtain r w1 where s: "step w = Some (r, w1)" "known w \<subseteq> known w1" unfolding yields_def by blast
  show "\<exists>r w'. or_exit step rest w = Some (r, w') \<and> known w \<subseteq> known w' \<and> (\<forall>x. r = Inr x \<longrightarrow> Q x (known w'))"
  proof (cases r)
    case (Inl e)
    with s show ?thesis by (simp add: or_exit_def)
  next
    case (Inr x)
    from assms(2) obtain r2 w2 where "rest x w1 = Some (r2, w2)" "known w1 \<subseteq> known w2" "\<forall>y. r2 = Inr y \<longrightarrow> Q y (known w2)"
      unfolding yields_def by blast
    with s Inr show ?thesis by (auto simp: or_exit_def)
  qed
qed

lemma account_keeps:
  assumes "account_laws sys ak nb known"
  shows "keeps known (rand_Read sys n)" and "keeps known (CoreUsersList ak u)" and "keeps known (CoreUsersCreate ak q)"
    and "keeps known (CoreGroupsListByName ak g)" and "keeps known (CoreGroupsListByMembers ak m)"
    and "keeps known (CoreGroupsCreate ak g)" and "keeps known (CoreGroupsAddUserCreate ak g i)"
    and "keeps known (UsersUsersList nb us)" and "keeps known (UsersUsersCreate nb u p)"
    and "keeps known (UsersPermissionsList nb us)" and "keeps known (UsersPermissionsCreate nb pr)"
    and "keeps known (UsersTokensList nb us)" and "keeps known (UsersTokensCreate nb i key)"
  using assms by (simp_all add: account_laws_def tokens_kept_def)

lemmas account_lawsD = account_keeps [THEN keepsD]

lemma account_answers:
  assumes "account_laws sys ak nb known"
  shows "UsersTokensCreate nb i key w = (Inr x, w') \<Longrightarrow> key \<in> known w'"
    and "rand_Read sys n w = (Inr b, w') \<Longrightarrow> length b = n"
    and "UsersUsersList nb us w = (Inr pg, w') \<Longrightarrow> Count pg > 0 \<Longrightarrow> Results pg \<noteq> []"
  using assms unfolding account_laws_def by blast+

lemma keepsI: "(\<And>w r w'. f w = (r, w') \<Longrightarrow> known w \<subseteq> known w') \<Longrightarrow> keeps known f"
  unfolding keeps_def by (metis surj_pair snd_conv)

lemmas call_splits = prod.split_asm sum.split_asm list.split_asm if_split_asm

lemma authentik_keeps:
  assumes "account_laws sys ak nb known"
  shows "keeps known (ensureAuthentikServiceAccount ak u)" and "keeps known (ensureAuthentikGroup ak g)"
    and "keeps known (ensureAuthentikUserInGroup ak g i)" and "keeps known (ensureNetboxPermission nb i spec)"
    and "keeps known (randomHex sys n)"
proof -
  note laws = account_lawsD [OF assms]
  show "keeps known (ensureAuthentikServiceAccount ak u)"
    by (rule keepsI) (auto simp: ensureAuthentikServiceAccount_def split: call_splits dest!: laws(2,3))
  show "keeps known (ensureAuthentikGroup ak g)"
    by (rule keepsI) (auto simp: ensureAuthentikGroup_def split: call_splits dest!: laws(4,6))
  show "keeps known (ensureAuthentikUserInGroup ak g i)"
    by (rule keepsI) (auto simp: ensureAuthentikUserInGroup_def split: call_splits dest!: laws(5,7))
  show "keeps known (ensureNetboxPermission nb i spec)"
    by (rule keepsI) (auto simp: ensureNetboxPermission_def split: call_splits dest!: laws(10,11))
  show "keeps known (randomHex sys n)"
    by (rule keepsI) (auto simp: randomHex_def split: call_splits dest!: laws(1))
qed

text \<open>The shape of a token that the tool prints, and that NetBox knows it unless it is the placeholder.\<close>

definition token_ok :: "string \<Rightarrow> string set \<Rightarrow> bool" where
  "token_ok t keys \<longleftrightarrow> t = existing_token \<or> (length t = 40 \<and> set t \<subseteq> set ''0123456789abcdef'' \<and> t \<in> keys)"

lemma randomHex_shape:
  assumes "account_laws sys ak nb known" and "randomHex sys n w = (Inr t, w')"
  shows "length t = 2 * n \<and> set t \<subseteq> set ''0123456789abcdef''"
proof -
  from assms(2) obtain b where "rand_Read sys n w = (Inr b, w')" "t = hex_EncodeToString b"
    by (auto simp: randomHex_def split: call_splits)
  with account_answers(2) [OF assms(1)] hex_EncodeToString_shape [of b] show ?thesis by simp
qed

lemma user_yields:
  assumes "account_laws sys ak nb known"
  shows "yields known (\<lambda>_ _. True) (ensureNetboxUser sys nb u)"
proof (rule yieldsI)
  fix w
  show "\<exists>r w'. ensureNetboxUser sys nb u w = Some (r, w')"
    using account_answers(3) [OF assms] by (cases "UsersUsersList nb [u] w" rule: call_cases)
      (fastforce simp: ensureNetboxUser_def neq_Nil_conv split: prod.split sum.split)+
next
  fix w r w'
  assume "ensureNetboxUser sys nb u w = Some (r, w')"
  then show "known w \<subseteq> known w'"
    by (auto simp: ensureNetboxUser_def elim!: bind_SomeE split: call_splits
        dest!: account_lawsD(8,9) [OF assms] keepsD [OF authentik_keeps(5) [OF assms]])
qed simp

lemma permissions_yield:
  assumes "account_laws sys ak nb known"
  shows "yields known (\<lambda>_ _. True) (ensure_permissions nb i perms)"
proof (induction perms)
  case Nil
  then show ?case by (simp add: yields_def)
next
  case (Cons perm perms)
  have "ensure_permissions nb i (perm # perms) = or_exit (quiet (ensureNetboxPermission nb i perm)) (\<lambda>_. ensure_permissions nb i perms)"
    by (simp add: fun_eq_iff)
  with yields_or_exit [OF yields_quiet [OF authentik_keeps(4) [OF assms]] Cons.IH] show ?case by simp
qed

lemma token_yields:
  assumes "account_laws sys ak nb known"
  shows "yields known token_ok (quiet (ensureNetboxToken sys nb i u))"
proof (rule yieldsI)
  fix w
  show "\<exists>r w'. quiet (ensureNetboxToken sys nb i u) w = Some (r, w')" by (simp add: quiet_def)
next
  fix w r w'
  assume "quiet (ensureNetboxToken sys nb i u) w = Some (r, w')"
  then show "known w \<subseteq> known w'"
    by (auto simp: quiet_def ensureNetboxToken_def split: call_splits
        dest!: account_lawsD(12,13) [OF assms] keepsD [OF authentik_keeps(5) [OF assms]])
next
  fix w x w'
  assume "quiet (ensureNetboxToken sys nb i u) w = Some (Inr x, w')"
  then have "x = existing_token \<or> (\<exists>w1 w2 y. randomHex sys 20 w1 = (Inr x, w2) \<and> UsersTokensCreate nb i x w2 = (Inr y, w'))"
    by (auto simp: quiet_def ensureNetboxToken_def split: call_splits)
  then show "token_ok x (known w')"
    using randomHex_shape [OF assms] account_answers(1) [OF assms] by (fastforce simp: token_ok_def)
qed

lemma controller_yields:
  assumes "account_laws sys ak nb known"
  shows "yields known token_ok (seed_controller sys ak nb ctrl)"
  unfolding seed_controller_def
  by (intro yields_or_exit [OF yields_quiet [OF authentik_keeps(1) [OF assms]]]
      yields_or_exit [OF yields_quiet [OF authentik_keeps(2) [OF assms]]]
      yields_or_exit [OF yields_quiet [OF authentik_keeps(3) [OF assms]]]
      yields_or_exit [OF user_yields [OF assms]] yields_or_exit [OF permissions_yield [OF assms]] token_yields [OF assms])

lemma update_new: "k \<notin> set (map fst xs) \<Longrightarrow> AList.update k v xs = xs @ [(k, v)]"
  by (induction xs) auto

lemma controllers_yield:
  assumes "account_laws sys ak nb known" and "distinct (map fst tokens @ map cs_username ctrls)"
  shows "\<exists>r w'. seed_controllers sys ak nb ctrls tokens w = Some (r, w') \<and> known w \<subseteq> known w' \<and>
    (\<forall>ts. r = Inr ts \<longrightarrow> map fst ts = map fst tokens @ map cs_username ctrls \<and>
       (\<forall>(u, t) \<in> set ts. (u, t) \<in> set tokens \<or> token_ok t (known w')))"
  using assms(2)
proof (induction ctrls arbitrary: tokens w)
  case Nil
  then show ?case by auto
next
  case (Cons ctrl ctrls)
  from controller_yields [OF assms(1)] obtain r w1 where s: "seed_controller sys ak nb ctrl w = Some (r, w1)"
    "known w \<subseteq> known w1" "\<forall>t. r = Inr t \<longrightarrow> token_ok t (known w1)" unfolding yields_def by blast
  show ?case
  proof (cases r)
    case (Inl e)
    with s show ?thesis by (simp add: or_exit_def)
  next
    case (Inr t)
    let ?tokens = "AList.update (cs_username ctrl) t tokens"
    from Cons.prems have new: "?tokens = tokens @ [(cs_username ctrl, t)]" by (simp add: update_new)
    with Cons.prems have "distinct (map fst ?tokens @ map cs_username ctrls)" by simp
    from Cons.IH [OF this, of w1] obtain r2 w2 where q: "seed_controllers sys ak nb ctrls ?tokens w1 = Some (r2, w2)"
      "known w1 \<subseteq> known w2" "\<forall>ts. r2 = Inr ts \<longrightarrow> map fst ts = map fst ?tokens @ map cs_username ctrls \<and>
         (\<forall>(u, t) \<in> set ts. (u, t) \<in> set ?tokens \<or> token_ok t (known w2))" by blast
    from s(3) Inr q(2) have "token_ok t (known w2)" by (auto simp: token_ok_def)
    with s q Inr new show ?thesis by (auto simp: or_exit_def)
  qed
qed

text \<open>
  A run does not panic if the endpoint of NetBox is a URL, and the tokens it prints are those of
  the two controllers, each of the right shape and known to NetBox.
\<close>

lemma seed_authentik_tokens:
  assumes "\<And>s h t c s' h' t' c'. account_laws sys (NewAuthentik s h t c) (NewNetBox s' h' t' c') known"
    and "url_Parse sys (mget env ''NETBOX_ENDPOINT'') = Inr (host, scheme)"
  shows "\<exists>printed w'. seed_authentik_main sys NewAuthentik NewNetBox env w = Some (printed, w') \<and>
    (\<forall>tokens. printed = Some tokens \<longrightarrow> map fst tokens = [netboxUpdaterUser, k8sUpdaterUser] \<and>
      (\<forall>(u, t) \<in> set tokens. token_ok t (known w')))"
proof -
  have names: "distinct (map fst ([] :: string_map) @ map cs_username controllers)"
    by (simp add: controllers_def netboxUpdaterUser_def k8sUpdaterUser_def)
  have users: "map cs_username controllers = [netboxUpdaterUser, k8sUpdaterUser]" by (simp add: controllers_def)
  show ?thesis
  proof (cases "\<exists>w'. seed_authentik_main sys NewAuthentik NewNetBox env w = Some (None, w')")
    case True
    then show ?thesis by blast
  next
    case False
    then have env: "mget env ''AUTHENTIK_ENDPOINT'' \<noteq> []" "mget env ''AUTHENTIK_TOKEN'' \<noteq> []"
      "mget env ''NETBOX_ENDPOINT'' \<noteq> []" "mget env ''NETBOX_TOKEN'' \<noteq> []"
      by (auto simp: seed_authentik_main_def Let_def)
    from False env obtain c where c: "buildHTTPClient sys (mget env ''CA_BUNDLE'') = Inr c"
      by (cases "buildHTTPClient sys (mget env ''CA_BUNDLE'')") (auto simp: seed_authentik_main_def Let_def)
    from False env c obtain h s where hs: "url_Parse sys (mget env ''AUTHENTIK_ENDPOINT'') = Inr (h, s)"
      by (cases "url_Parse sys (mget env ''AUTHENTIK_ENDPOINT'')") (auto simp: seed_authentik_main_def newAuthentikClient_def Let_def)
    define ak where "ak = NewAuthentik s h (''Bearer '' @ mget env ''AUTHENTIK_TOKEN'') c"
    define nb where "nb = NewNetBox scheme host (''Token '' @ mget env ''NETBOX_TOKEN'') c"
    have main: "seed_authentik_main sys NewAuthentik NewNetBox env w = Some (case r of Inl err \<Rightarrow> None | Inr tokens \<Rightarrow> Some tokens, w')"
      if "seed_controllers sys ak nb controllers [] w = Some (r, w')" for r w'
      using env that by (simp add: seed_authentik_main_def newAuthentikClient_def Let_def assms(2) c hs ak_def nb_def)
    have "account_laws sys ak nb known" unfolding ak_def nb_def by (rule assms(1))
    from controllers_yield [OF this names, of w] obtain r w' where
      run: "seed_controllers sys ak nb controllers [] w = Some (r, w')"
      and ok: "\<forall>ts. r = Inr ts \<longrightarrow> map fst ts = [netboxUpdaterUser, k8sUpdaterUser] \<and> (\<forall>(u, t) \<in> set ts. token_ok t (known w'))"
      unfolding users by auto
    from main [OF run] ok show ?thesis by (cases r) auto
  qed
qed

end
