(* ===== verification/Spec2Isabelle.thy ===== *)
theory Spec2Isabelle
  imports Cluster_Sync Butane Talos Tinkerbell_Status Tinkerbell_Ops Tinkerbell_Hardware Cluster_Show
    NetBox_Updater NetBox_Events Controller_Events Hardware_Typing Command_Line Seed_Authentik
begin

text \<open>
  Verification of machinecfg, a tool that keeps a NetBox inventory and the objects of Kubernetes
  clusters in step: it renders machine configurations from NetBox, makes Tinkerbell Hardware
  objects of NetBox devices, and writes the state of machines and clusters back to NetBox.

  \<^bold>\<open>Conventions.\<close> A Go function that performs remote calls is a function of an arbitrary world
  \<open>'w\<close>: \<open>('w, 'a) call\<close> answers a result and the world after it, \<open>('w, 'a) go\<close> may also panic, which
  is \<open>None\<close>. Errors are values (\<open>go_error\<close>, \<open>Inl\<close>). \<open>int32\<close> is \<open>32 word\<close>, read with \<open>sint\<close>, and
  wraps around as Go does. Pointers are options; maps of texts are association lists
  (\<open>string_map\<close>) and the maps of the stores partial functions. Loops are structural recursions on
  the list they range over, so that every model is total and no fuel is needed; the two parsers
  that are not structural have a termination proof by the length of the rest. Logging, metrics and
  the cancellation of contexts are left out everywhere.

  \<^bold>\<open>Go and its library.\<close>
  \<^item> \<open>Go_Prelude\<close>: errors, results, worlds, \<open>strings\<close>; \<open>Go_Strconv\<close>: decimal texts and their 32-bit
    parsing; \<open>Go_Net\<close>: addresses and masks; \<open>Go_Json\<close>: arrays of texts; \<open>Go_Time\<close>:
    \<open>time.ParseDuration\<close> with its overflow checks and its floating-point fraction.

  \<^bold>\<open>Interfaces of the remote systems.\<close> The clients are records of calls and stand for code outside
  the repository. \<open>NetBox_API\<close> and \<open>Kube_API\<close> hold their types; \<open>NetBox_Laws\<close> and \<open>Kube_Laws\<close> state
  the documented behaviour that theorems assume (a listing answers a page of the matching records
  and changes nothing, a creation appends, a failed call changes nothing; every call may fail at
  any time). \<open>Memory_World\<close> is a world in which all these laws hold; every theorem with such a
  hypothesis is applied in it.

  \<^bold>\<open>Components.\<close>
  \<^item> \<open>Common_NetBox\<close> (\<open>pkg/common\<close>): device filters and listings; when two filters make the same
    request; the locale \<open>collector\<close> of the generators that visit a list of devices.
  \<^item> \<open>Butane\<close> (\<open>pkg/butane\<close>) and \<open>Talos\<close> (\<open>pkg/talos\<close>): the configuration of a device, file by file and
    byte by byte; every device is accounted for as a configuration or an error.
  \<^item> \<open>Tinkerbell_Status\<close> (\<open>pkg/tinkerbell/sync_status.go\<close>): the write-back of the provisioning state;
    correctness of a reported success, idempotence, frame. The locale \<open>status_writer\<close> is the
    contract of \<open>setDeviceStatus\<close>.
  \<^item> \<open>Tinkerbell_Ops\<close> (\<open>show.go\<close>, \<open>pxe.go\<close>, \<open>clean.go\<close>): the patching commands are atomic per object
    (locale \<open>hardware_patcher\<close>).
  \<^item> \<open>Tinkerbell_Hardware\<close> (\<open>hardware.go\<close>): Hardware objects from devices, and the reconciliation of an
    existing object.
  \<^item> \<open>Cluster_Records\<close>, \<open>Cluster_Endpoints\<close>, \<open>Cluster_Sync\<close> (\<open>pkg/cluster/sync_status.go\<close>, \<open>tailscale.go\<close>):
    the records of a cluster are looked up or created (locale \<open>get_or_create\<close>); a result without
    error means that the records exist, a further run changes nothing, group numbers do not clash
    short of the wrap-around. \<open>Cluster_Show\<close> (\<open>show.go\<close>, \<open>ipaddr.go\<close>): the rows of the listings.
  \<^item> \<open>Controller_Config\<close>, \<open>Controller_Process\<close>, \<open>Kubernetes_Updater\<close>, \<open>NetBox_Updater\<close>
    (\<open>internal/controller\<close>, \<open>controllers\<close>): the configuration that is reloaded at run time (locale
    \<open>reloadable\<close>), the reconcilers, the process from its start to its exit code, with the tracing of
    \<open>otel.go\<close> (locale \<open>controller_process\<close>): tracing never stops a controller, and its provider is
    shut down at an orderly end only.
    The poll of NetBox refines \<open>wanted_store\<close>, the specification of the store of Hardware objects,
    through the locale \<open>store_worker\<close>; \<open>updater_step\<close> is the controller as a transition system with
    its invariant.
  \<^item> \<open>Controller_Events\<close>: a poll of NetBox read by read, as the getters take the lock one by one, with
    reloads and other clients in between (\<open>poll_step\<close>): it stays safe, it ends, and without
    interference it is the single step \<open>NetBoxSyncReconcile\<close>.
  \<^item> \<open>Config_Watch\<close> (the \<open>SetupWithManager\<close> methods): events, the queue of requests and the reload read by
    read, between changes that others make (\<open>watch_step\<close>). The locale \<open>watched_config\<close>, interpreted
    in \<open>Controller_Events\<close> and in \<open>NetBox_Events\<close>, gives that a controller with nothing left to do has
    the settings of the current sources, and that it gets there. \<open>NetBox_Events\<close> also shows what a
    changed configuration does not reach: the choice of the reconcilers.
  \<^item> \<open>Hardware_Typing\<close>: the shape of Hardware objects that other components rely on, kept by the
    synchronisation and by the patching commands in any order.
  \<^item> \<open>Command_Line\<close> (\<open>cli/machinecfg/cmd\<close>): options and commands. The sync command is another worker on
    the store and refines the same \<open>wanted_store\<close>; its options select the devices that the
    ConfigMap of the controller selects.
  \<^item> \<open>Seed_NetBox\<close>, \<open>Seed_Authentik\<close> (\<open>tooling\<close>): the tools that fill a test environment; a calculus of
    steps that achieve a goal (\<open>achieves\<close>) gives that seeding is complete and can be repeated.

  Below: what spans the seed tool and the command line.

  \<^bold>\<open>Not modelled.\<close> The declarations of flags and the layout of tables and JSON text only configure
  libraries. The manager and the tracing library are parameters, its work queue is a set of requests.
  The translation of Butane to Ignition, YAML and the templates are parameters: they
  are third-party code. The reconcilers of the netbox updater read the shared configuration once,
  so that a reconciliation is one step there.
\<close>

section \<open>A sample run of the account tool\<close>

text \<open>A world is the list of token keys that NetBox knows.\<close>

definition sample_system :: "string list system" where
  "sample_system = \<lparr>rand_Read = \<lambda>n w. (Inr (replicate n 171), w), ReadFile = \<lambda>path. Inl not_found,
     AppendCertsFromPEM = \<lambda>pem. False, url_Parse = \<lambda>u. Inr (u, ''https'')\<rparr>"

definition sample_authentik :: "string \<Rightarrow> string \<Rightarrow> string \<Rightarrow> 8 word list option \<Rightarrow> string list authentik_client" where
  "sample_authentik s h t c = \<lparr>CoreUsersList = \<lambda>u w. (Inr [], w), CoreUsersCreate = \<lambda>r w. (Inr 1, w),
     CoreGroupsListByName = \<lambda>g w. (Inr [], w), CoreGroupsListByMembers = \<lambda>m w. (Inr [], w),
     CoreGroupsCreate = \<lambda>g w. (Inr g, w), CoreGroupsAddUserCreate = \<lambda>g u w. (Inr (), w)\<rparr>"

definition sample_users :: "string \<Rightarrow> string \<Rightarrow> string \<Rightarrow> 8 word list option \<Rightarrow> string list users_client" where
  "sample_users s h t c =
     (let none = \<lparr>Count = 0, Results = []\<rparr> in
      \<lparr>UsersUsersList = \<lambda>u w. (Inr none, w), UsersUsersCreate = \<lambda>u p w. (Inr \<lparr>ob_Id = 1\<rparr>, w),
       UsersPermissionsList = \<lambda>n w. (Inr none, w), UsersPermissionsCreate = \<lambda>r w. (Inr \<lparr>ob_Id = 1\<rparr>, w),
       UsersTokensList = \<lambda>u w. (Inr none, w), UsersTokensCreate = \<lambda>u key w. (Inr \<lparr>ob_Id = 1\<rparr>, key # w)\<rparr>)"

definition account_env :: string_map where
  "account_env = [(''AUTHENTIK_ENDPOINT'', ''ak''), (''AUTHENTIK_TOKEN'', ''t''), (''NETBOX_ENDPOINT'', ''nb''), (''NETBOX_TOKEN'', ''t'')]"

lemma sample_account_laws: "account_laws sample_system (sample_authentik s h t c) (sample_users s' h' t' c') set"
  by (simp add: account_laws_def tokens_kept_def keeps_def sample_system_def sample_authentik_def sample_users_def Let_def)
    (auto simp: subset_iff)

section \<open>Property\<close>

text \<open>
  C39. The tokens that the account tool prints are those that the command line takes. The tool does not
  panic if the endpoint of NetBox is a URL; if it prints tokens they are one for each of the two
  controllers, and each is either 40 hexadecimal digits that NetBox knows as a token, which every
  command accepts when the other options are there, or the notice that a token exists already,
  which every command refuses.
\<close>
theorem seeded_tokens_accepted:
  assumes "\<forall>s h t c s' h' t' c'. account_laws sys (NewAuthentik s h t c) (NewNetBox s' h' t' c') known"
    and "url_Parse sys (mget env ''NETBOX_ENDPOINT'') = Inr (host, scheme)"
    and "mget flags ''netbox-endpoint'' \<noteq> []" and "mget flags ''sites'' \<noteq> []" and "mget flags ''roles'' \<noteq> []"
    and "mget flags ''output-directory'' \<noteq> []" and "mget flags ''racks'' = []"
  shows "\<exists>printed w'. seed_authentik_main sys NewAuthentik NewNetBox env w = Some (printed, w') \<and>
    (\<forall>tokens. printed = Some tokens \<longrightarrow>
      map fst tokens = [netboxUpdaterUser, k8sUpdaterUser] \<and>
      (\<forall>(u, t) \<in> set tokens.
        (t = existing_token \<or> length t = 40 \<and> set t \<subseteq> set ''0123456789abcdef'' \<and> t \<in> known w') \<and>
        (mget flags ''netbox-token'' = t \<longrightarrow>
          (processRootArgs flags virtualization osEnv needOut needDevices \<noteq> None \<longleftrightarrow> t \<noteq> existing_token))))"
proof -
  from seed_authentik_tokens [where NewAuthentik = NewAuthentik and NewNetBox = NewNetBox and w = w, OF assms(1) [rule_format] assms(2)] obtain printed w' where
    run: "seed_authentik_main sys NewAuthentik NewNetBox env w = Some (printed, w')"
    and ok: "\<forall>tokens. printed = Some tokens \<longrightarrow> map fst tokens = [netboxUpdaterUser, k8sUpdaterUser] \<and>
      (\<forall>(u, t) \<in> set tokens. token_ok t (known w'))" by blast
  have placeholder: "length existing_token \<noteq> 40" "existing_token \<noteq> []" by (simp_all add: existing_token_def)
  have accepted: "processRootArgs flags virtualization osEnv needOut needDevices \<noteq> None \<longleftrightarrow> t \<noteq> existing_token"
    if "token_ok t keys" "mget flags ''netbox-token'' = t" for t keys
  proof -
    have "t \<noteq> []" "length t = 40 \<longleftrightarrow> t \<noteq> existing_token" using that(1) placeholder by (auto simp: token_ok_def)
    with that(2) assms(3-7) show ?thesis by (auto simp: processRootArgs_def Let_def)
  qed
  from ok accepted have "\<forall>tokens. printed = Some tokens \<longrightarrow> map fst tokens = [netboxUpdaterUser, k8sUpdaterUser] \<and>
      (\<forall>(u, t) \<in> set tokens. (t = existing_token \<or> length t = 40 \<and> set t \<subseteq> set ''0123456789abcdef'' \<and> t \<in> known w') \<and>
        (mget flags ''netbox-token'' = t \<longrightarrow>
          (processRootArgs flags virtualization osEnv needOut needDevices \<noteq> None \<longleftrightarrow> t \<noteq> existing_token)))"
    by (fastforce simp: token_ok_def)
  with run show ?thesis by blast
qed

theorem seeded_tokens_accepted_witness:
  "let key = hex_EncodeToString (replicate 20 171);
       flags = [(''netbox-endpoint'', ''nb''), (''sites'', ''s''), (''roles'', ''r''), (''output-directory'', ''out''), (''netbox-token'', key)]
   in map_option fst (seed_authentik_main sample_system sample_authentik sample_users account_env []) =
        Some (Some [(netboxUpdaterUser, key), (k8sUpdaterUser, key)]) \<and>
      length key = 40 \<and> processRootArgs flags False [] True None \<noteq> None"
proof -
  let ?key = "hex_EncodeToString (replicate 20 171)"
  let ?flags = "[(''netbox-endpoint'', ''nb''), (''sites'', ''s''), (''roles'', ''r''), (''output-directory'', ''out''), (''netbox-token'', ?key)]"
  have run: "map_option fst (seed_authentik_main sample_system sample_authentik sample_users account_env []) =
      Some (Some [(netboxUpdaterUser, ?key), (k8sUpdaterUser, ?key)])" by code_simp
  have key: "?key \<noteq> existing_token" by code_simp
  have url: "url_Parse sample_system (mget account_env ''NETBOX_ENDPOINT'') = Inr (''nb'', ''https'')"
    by (simp add: sample_system_def account_env_def)
  have laws: "\<forall>s h t c s' h' t' c'. account_laws sample_system (sample_authentik s h t c) (sample_users s' h' t' c') set"
    by (intro allI sample_account_laws)
  define flags where "flags = ?flags"
  have given: "mget flags ''netbox-endpoint'' \<noteq> []" "mget flags ''sites'' \<noteq> []" "mget flags ''roles'' \<noteq> []"
    "mget flags ''output-directory'' \<noteq> []" "mget flags ''racks'' = []" "mget flags ''netbox-token'' = ?key"
    by (simp_all add: flags_def)
  from seeded_tokens_accepted [where virtualization = False and osEnv = "[]" and needOut = True and needDevices = None and w = "[]",
      OF laws url given(1-5)] obtain printed w' where
    main: "seed_authentik_main sample_system sample_authentik sample_users account_env [] = Some (printed, w')"
    and ok: "\<forall>tokens. printed = Some tokens \<longrightarrow> map fst tokens = [netboxUpdaterUser, k8sUpdaterUser] \<and>
      (\<forall>(u, t) \<in> set tokens. (t = existing_token \<or> length t = 40 \<and> set t \<subseteq> set ''0123456789abcdef'' \<and> t \<in> set w') \<and>
        (mget flags ''netbox-token'' = t \<longrightarrow> (processRootArgs flags False [] True None \<noteq> None \<longleftrightarrow> t \<noteq> existing_token)))"
    by (elim exE conjE)
  define k where "k = ?key"
  from run main have "printed = Some [(netboxUpdaterUser, k), (k8sUpdaterUser, k)]" unfolding k_def by simp
  with ok have "(k = existing_token \<or> length k = 40 \<and> set k \<subseteq> set ''0123456789abcdef'' \<and> k \<in> set w') \<and>
      (mget flags ''netbox-token'' = k \<longrightarrow> (processRootArgs flags False [] True None \<noteq> None \<longleftrightarrow> k \<noteq> existing_token))" by simp
  with key given(6) have "length ?key = 40 \<and> processRootArgs flags False [] True None \<noteq> None" unfolding k_def by blast
  with run show ?thesis unfolding flags_def Let_def by blast
qed

end
